(* ===== verification/Go_Prelude.thy ===== *)
theory Go_Prelude
  imports Main "HOL-Library.AList" "HOL-Library.Word" "HOL-Library.Code_Target_Nat"
begin

text \<open>
  The part of the Go language and of its standard library that the plugin relies on,
  shared by every component of the development.

  \<^item> A call of a Go function ends in one of four ways (\<open>'a go\<close>): it returns a value with a
    nil error, it returns a non-nil error, it panics, or it ends the process
    (\<open>log.Fatalf\<close>). A stateful function is a function from the state to such an outcome
    and the state it leaves behind; the state survives in all four cases, because a panic
    does not undo the writes made before it.
  \<^item> A Go map is the list of its entries in the order in which one \<open>range\<close> loop visits
    them (\<open>gomap\<close>). Every theorem is about an arbitrary list, hence about every order that
    the runtime may choose.
  \<^item> The functions of \<open>strings\<close>, \<open>strconv\<close> and the slice operations the sources call.
\<close>

section \<open>Collections of facts\<close>

named_theorems go_monad \<open>definitions of the sequencing combinators\<close>
named_theorems option_keys \<open>string constants of the program\<close>

section \<open>Outcomes of a call\<close>

datatype go_panic =
    IndexOutOfRange   \<comment> \<open>index or slice bound outside the operand\<close>
  | NilDereference    \<comment> \<open>method call or field access through a nil pointer or interface\<close>
  | TypeAssertion     \<comment> \<open>\<open>x.(T)\<close> without the comma-ok form on a value of another type\<close>
  | UnhashableKey     \<comment> \<open>a slice or a map used as the key of a \<open>map[interface{}]\<close>\<close>
  | UserPanic string  \<comment> \<open>an explicit \<open>panic\<close> of the program\<close>

text \<open>
  Errors: \<open>errors.New\<close>, \<open>fmt.Errorf\<close>, and the error numbers of the system calls.
  An argument of a formatted error. \<open>EOp i\<close> stands for \<open>operations[i]\<close> printed with
  \<open>%v\<close>: only the index is kept.
\<close>

datatype earg = EStr string | EInt int | EOp nat | EErr goerr
  and goerr = ErrNew string | Errorf string "earg list" | Errno int

datatype 'a go = Ok 'a | Err goerr | Panic go_panic | Fatal string

type_synonym bytes = "8 word list"

type_synonym ('s, 'a) gom = "'s \<Rightarrow> 'a go \<times> 's"

fun is_Ok :: "'a go \<Rightarrow> bool" where
  "is_Ok (Ok _) = True"
| "is_Ok _ = False"

fun is_Err :: "'a go \<Rightarrow> bool" where
  "is_Err (Err _) = True"
| "is_Err _ = False"

fun is_Panic :: "'a go \<Rightarrow> bool" where
  "is_Panic (Panic _) = True"
| "is_Panic _ = False"

lemma is_Ok_iff: "is_Ok r \<longleftrightarrow> (\<exists>a. r = Ok a)"
  by (cases r) auto

fun map_go_res :: "('a \<Rightarrow> 'b) \<Rightarrow> 'a go \<Rightarrow> 'b go" where
  "map_go_res f (Ok a) = Ok (f a)"
| "map_go_res f (Err e) = Err e"
| "map_go_res f (Panic p) = Panic p"
| "map_go_res f (Fatal m) = Fatal m"

lemma map_go_res_Ok_iff [simp]: "map_go_res f r = Ok b \<longleftrightarrow> (\<exists>a. r = Ok a \<and> b = f a)"
  by (cases r) auto

text \<open>Sequencing of pure calls: \<open>bind_go\<close> is \<open>if err != nil { return err }\<close>.\<close>

fun bind_go :: "'a go \<Rightarrow> ('a \<Rightarrow> 'b go) \<Rightarrow> 'b go" where
  "bind_go (Ok a) f = f a"
| "bind_go (Err e) f = Err e"
| "bind_go (Panic p) f = Panic p"
| "bind_go (Fatal m) f = Fatal m"

lemma bind_go_cong [fundef_cong]:
  "r = r' \<Longrightarrow> (\<And>a. r' = Ok a \<Longrightarrow> f a = g a) \<Longrightarrow> bind_go r f = bind_go r' g"
  by (cases r') auto

lemma bind_go_Ok_iff: "bind_go r f = Ok b \<longleftrightarrow> (\<exists>a. r = Ok a \<and> f a = Ok b)"
  by (cases r) auto

text \<open>A \<open>range\<close> loop that collects the results and stops at the first that is not one.\<close>

fun traverse_go :: "('a \<Rightarrow> 'b go) \<Rightarrow> 'a list \<Rightarrow> 'b list go" where
  "traverse_go f [] = Ok []"
| "traverse_go f (x # xs) =
     bind_go (f x) (\<lambda>y. bind_go (traverse_go f xs) (\<lambda>ys. Ok (y # ys)))"

lemma traverse_go_cong [fundef_cong]:
  "xs = ys \<Longrightarrow> (\<And>x. x \<in> set ys \<Longrightarrow> f x = g x) \<Longrightarrow> traverse_go f xs = traverse_go g ys"
  by (induction ys arbitrary: xs) auto

lemma traverse_go_Ok_map: "(\<And>x. x \<in> set xs \<Longrightarrow> f x = Ok (g x)) \<Longrightarrow> traverse_go f xs = Ok (map g xs)"
  by (induction xs) auto

section \<open>Stateful calls\<close>

text \<open>
  \<open>tryG m f h\<close> runs \<open>m\<close>, continues with \<open>f\<close> when its error is nil and with \<open>h\<close> when it is
  not; panics and process exits are never caught by the sources. \<open>bindG\<close> is the case where
  the error is returned unchanged.
\<close>

definition tryG :: "('s, 'a) gom \<Rightarrow> ('a \<Rightarrow> ('s, 'b) gom) \<Rightarrow> (goerr \<Rightarrow> ('s, 'b) gom) \<Rightarrow> ('s, 'b) gom" where
  "tryG m f h s = (case m s of
       (Ok a, s') \<Rightarrow> f a s'
     | (Err e, s') \<Rightarrow> h e s'
     | (Panic p, s') \<Rightarrow> (Panic p, s')
     | (Fatal t, s') \<Rightarrow> (Fatal t, s'))"

definition retG :: "'a \<Rightarrow> ('s, 'a) gom" where
  "retG a s = (Ok a, s)"

definition failG :: "goerr \<Rightarrow> ('s, 'a) gom" where
  "failG e s = (Err e, s)"

definition liftG :: "'a go \<Rightarrow> ('s, 'a) gom" where
  "liftG r s = (r, s)"

definition bindG :: "('s, 'a) gom \<Rightarrow> ('a \<Rightarrow> ('s, 'b) gom) \<Rightarrow> ('s, 'b) gom" where
  "bindG m f = tryG m f failG"

definition modifyG :: "('s \<Rightarrow> 's) \<Rightarrow> ('s, unit) gom" where
  "modifyG f s = (Ok (), f s)"

definition readG :: "('s \<Rightarrow> 'a) \<Rightarrow> ('s, 'a) gom" where
  "readG f s = (Ok (f s), s)"

declare tryG_def [go_monad] retG_def [go_monad] failG_def [go_monad] liftG_def [go_monad]
  bindG_def [go_monad] modifyG_def [go_monad] readG_def [go_monad]

lemma bindG_simps [simp]:
  "m s = (Ok a, s') \<Longrightarrow> bindG m f s = f a s'"
  "m s = (Err e, s') \<Longrightarrow> bindG m f s = (Err e, s')"
  "m s = (Panic p, s') \<Longrightarrow> bindG m f s = (Panic p, s')"
  "m s = (Fatal t, s') \<Longrightarrow> bindG m f s = (Fatal t, s')"
  by (simp_all add: go_monad)

lemma tryG_simps [simp]:
  "m s = (Ok a, s') \<Longrightarrow> tryG m f h s = f a s'"
  "m s = (Err e, s') \<Longrightarrow> tryG m f h s = h e s'"
  "m s = (Panic p, s') \<Longrightarrow> tryG m f h s = (Panic p, s')"
  "m s = (Fatal t, s') \<Longrightarrow> tryG m f h s = (Fatal t, s')"
  by (simp_all add: go_monad)

lemma bindG_retG [simp]: "bindG (retG a) f = f a"
  by (rule ext) (simp add: go_monad)

lemma bindG_failG [simp]: "bindG (failG e) f = failG e"
  by (rule ext) (simp add: go_monad)

lemma bindG_Ok_iff:
  "bindG m f s = (Ok b, t) \<longleftrightarrow> (\<exists>a s'. m s = (Ok a, s') \<and> f a s' = (Ok b, t))"
  by (cases "m s"; cases "fst (m s)") (auto simp: go_monad)

lemma bindG_apply_readG: "bindG (readG f) g s = g (f s) s"
  by (simp add: bindG_def tryG_def readG_def)

lemma fst_call: "fst p = r \<Longrightarrow> p = (r, snd p)"
  by (cases p) simp

text \<open>
  What a stateful call keeps: \<open>keepsG I m\<close> says that the state left behind satisfies \<open>I\<close>
  whenever the state before did, however the call ended.
\<close>

definition keepsG :: "('s \<Rightarrow> bool) \<Rightarrow> ('s, 'a) gom \<Rightarrow> bool" where
  "keepsG I m \<longleftrightarrow> (\<forall>s. I s \<longrightarrow> I (snd (m s)))"

named_theorems keeps_intros \<open>rules that show that a call keeps an invariant\<close>

lemma keepsG_D: "keepsG I m \<Longrightarrow> I s \<Longrightarrow> I (snd (m s))"
  by (simp add: keepsG_def)

lemma keepsG_tryG [keeps_intros]:
  assumes "keepsG I m" "\<And>a. keepsG I (f a)" "\<And>e. keepsG I (h e)"
  shows "keepsG I (tryG m f h)"
  unfolding keepsG_def
proof (intro allI impI)
  fix s assume "I s"
  with assms(1) have "I (snd (m s))" by (rule keepsG_D)
  then show "I (snd (tryG m f h s))"
    using assms(2,3) by (cases "m s"; cases "fst (m s)") (auto simp: tryG_def keepsG_def)
qed

lemma keepsG_retG [keeps_intros]: "keepsG I (retG a)"
  by (simp add: keepsG_def retG_def)

lemma keepsG_failG [keeps_intros]: "keepsG I (failG e)"
  by (simp add: keepsG_def failG_def)

lemma keepsG_liftG [keeps_intros]: "keepsG I (liftG r)"
  by (simp add: keepsG_def liftG_def)

lemma keepsG_readG [keeps_intros]: "keepsG I (readG f)"
  by (simp add: keepsG_def readG_def)

lemma keepsG_bindG [keeps_intros]:
  "keepsG I m \<Longrightarrow> (\<And>a. keepsG I (f a)) \<Longrightarrow> keepsG I (bindG m f)"
  unfolding bindG_def by (intro keeps_intros)

lemma keepsG_modifyG: "(\<And>s. I s \<Longrightarrow> I (f s)) \<Longrightarrow> keepsG I (modifyG f)"
  by (simp add: keepsG_def modifyG_def)

lemma keepsG_if [keeps_intros]:
  "keepsG I m \<Longrightarrow> keepsG I n \<Longrightarrow> keepsG I (if b then m else n)"
  by simp

lemma keepsG_if_state:
  "keepsG I m \<Longrightarrow> keepsG I n \<Longrightarrow> keepsG I (\<lambda>s. if P s then m s else n s)"
  by (simp add: keepsG_def)

text \<open>A bounded retry loop: \<open>for i := 0; i < n; i++\<close> around a call, left at the first success.\<close>

fun retryG :: "nat \<Rightarrow> ('s, 'a) gom \<Rightarrow> (goerr \<Rightarrow> ('s, unit) gom) \<Rightarrow> goerr \<Rightarrow> ('s, 'a) gom" where
  "retryG 0 m h e = failG e"
| "retryG (Suc n) m h e = tryG m retG (\<lambda>e'. bindG (h e') (\<lambda>_. retryG n m h e'))"

lemma keepsG_retryG [keeps_intros]:
  "keepsG I m \<Longrightarrow> (\<And>e. keepsG I (h e)) \<Longrightarrow> keepsG I (retryG n m h e)"
  by (induction n arbitrary: e) (auto intro!: keeps_intros)

lemma retryG_fails:
  assumes "\<And>t. \<exists>e. m t = (Err e, f t)" "\<And>e t. h e t = (Ok (), t)"
  shows "\<exists>e'. retryG n m h e s = (Err e', (f ^^ n) s)"
proof (induction n arbitrary: e s)
  case (Suc n)
  obtain e1 where "m s = (Err e1, f s)" using assms(1) by blast
  with Suc.IH [of e1 "f s"] assms(2) show ?case
    by (simp add: tryG_def bindG_def funpow_swap1)
qed (simp add: failG_def)

text \<open>A \<open>range\<close> loop with effects.\<close>

fun forEachG :: "('a \<Rightarrow> ('s, unit) gom) \<Rightarrow> 'a list \<Rightarrow> ('s, unit) gom" where
  "forEachG f [] = retG ()"
| "forEachG f (x # xs) = bindG (f x) (\<lambda>_. forEachG f xs)"

lemma keepsG_forEachG [keeps_intros]:
  "(\<And>x. x \<in> set xs \<Longrightarrow> keepsG I (f x)) \<Longrightarrow> keepsG I (forEachG f xs)"
  by (induction xs) (auto intro!: keeps_intros)

lemma forEachG_ret: "(\<And>x. x \<in> set xs \<Longrightarrow> f x s = (Ok (), s)) \<Longrightarrow> forEachG f xs s = (Ok (), s)"
  by (induction xs) (auto simp: retG_def)

section \<open>Go maps\<close>

type_synonym ('k, 'v) gomap = "('k \<times> 'v) list"

definition go_lookup :: "('k, 'v) gomap \<Rightarrow> 'k \<Rightarrow> 'v option" where
  "go_lookup m k = map_of m k"

definition go_update :: "'k \<Rightarrow> 'v \<Rightarrow> ('k, 'v) gomap \<Rightarrow> ('k, 'v) gomap" where
  "go_update k v m = AList.update k v m"

definition go_delete :: "'k \<Rightarrow> ('k, 'v) gomap \<Rightarrow> ('k, 'v) gomap" where
  "go_delete k m = AList.delete k m"

definition wf_gomap :: "('k, 'v) gomap \<Rightarrow> bool" where
  "wf_gomap m \<longleftrightarrow> distinct (map fst m)"

definition has_key :: "('k, 'v) gomap \<Rightarrow> 'k \<Rightarrow> bool" where
  "has_key m k \<longleftrightarrow> go_lookup m k \<noteq> None"

definition go_of_list :: "('k \<times> 'v) list \<Rightarrow> ('k, 'v) gomap" where
  "go_of_list kvs = fold (\<lambda>(k, v). go_update k v) kvs []"

text \<open>The interface the clients of a Go map use.\<close>

locale go_dict =
  fixes lookup :: "'m \<Rightarrow> 'k \<Rightarrow> 'v option"
    and update :: "'k \<Rightarrow> 'v \<Rightarrow> 'm \<Rightarrow> 'm"
    and delete :: "'k \<Rightarrow> 'm \<Rightarrow> 'm"
    and invar :: "'m \<Rightarrow> bool"
  assumes lookup_update: "lookup (update k v m) = (lookup m)(k \<mapsto> v)"
    and lookup_delete: "lookup (delete k m) = (lookup m)(k := None)"
    and invar_update: "invar m \<Longrightarrow> invar (update k v m)"
    and invar_delete: "invar m \<Longrightarrow> invar (delete k m)"
begin

lemma lookup_update_same: "lookup (update k v m) k = Some v"
  by (simp add: lookup_update)

lemma lookup_update_other: "k' \<noteq> k \<Longrightarrow> lookup (update k v m) k' = lookup m k'"
  by (simp add: lookup_update)

lemma lookup_delete_other: "k' \<noteq> k \<Longrightarrow> lookup (delete k m) k' = lookup m k'"
  by (simp add: lookup_delete)

lemma delete_update: "lookup (delete k (update k v m)) = lookup (delete k m)"
  by (simp add: lookup_update lookup_delete)

lemma delete_update_fresh: "lookup m k = None \<Longrightarrow> lookup (delete k (update k v m)) = lookup m"
  by (auto simp: lookup_update lookup_delete)

lemma ran_delete: "ran (lookup (delete k m)) \<subseteq> ran (lookup m)"
  by (auto simp: lookup_delete ran_def split: if_splits)

lemma ran_update: "ran (lookup (update k v m)) \<subseteq> insert v (ran (lookup m))"
  by (auto simp: lookup_update ran_def split: if_splits)

end

interpretation gomap: go_dict go_lookup go_update go_delete wf_gomap
  by unfold_locales
    (auto simp: go_lookup_def go_update_def go_delete_def wf_gomap_def update_conv' delete_conv'
      distinct_update distinct_delete fun_eq_iff)

lemmas gomap_lookup [simp] = gomap.lookup_update gomap.lookup_delete

lemma go_lookup_Nil [simp]: "go_lookup [] k = None"
  by (simp add: go_lookup_def)

lemma go_lookup_Cons [simp]:
  "go_lookup ((k', v) # m) k = (if k = k' then Some v else go_lookup m k)"
  by (simp add: go_lookup_def)

lemma go_lookup_map: "go_lookup (map (\<lambda>(k, v). (k, f v)) m) k = map_option f (go_lookup m k)"
  by (induction m) auto

lemma go_lookup_in_set: "go_lookup m k = Some v \<Longrightarrow> (k, v) \<in> set m"
  by (simp add: go_lookup_def map_of_SomeD)

lemma in_set_go_lookup: "wf_gomap m \<Longrightarrow> (k, v) \<in> set m \<Longrightarrow> go_lookup m k = Some v"
  by (simp add: go_lookup_def wf_gomap_def)

lemma go_lookup_fold_update:
  "go_lookup (fold (\<lambda>(k, v). go_update k v) kvs m) = go_lookup m ++ map_of (rev kvs)"
  by (induction kvs arbitrary: m) (auto simp: map_add_def fun_eq_iff split: option.splits)

lemma wf_fold_update: "wf_gomap m \<Longrightarrow> wf_gomap (fold (\<lambda>(k, v). go_update k v) kvs m)"
  by (induction kvs arbitrary: m) (auto intro: gomap.invar_update)

lemma wf_go_of_list [simp]: "wf_gomap (go_of_list kvs)"
  unfolding go_of_list_def by (rule wf_fold_update) (simp add: wf_gomap_def)

lemma go_update_new: "k \<notin> set (map fst m) \<Longrightarrow> go_update k v m = m @ [(k, v)]"
  unfolding go_update_def by (induction m) auto

lemma fold_update_distinct:
  "distinct (map fst (m @ kvs)) \<Longrightarrow> fold (\<lambda>(k, v). go_update k v) kvs m = m @ kvs"
proof (induction kvs arbitrary: m)
  case Nil
  then show ?case by simp
next
  case (Cons p kvs)
  obtain k v where p: "p = (k, v)" by fastforce
  from Cons.prems p have "go_update k v m = m @ [(k, v)]"
    by (intro go_update_new) auto
  with Cons.IH [of "m @ [(k, v)]"] Cons.prems p show ?case by simp
qed

lemma go_of_list_distinct: "distinct (map fst kvs) \<Longrightarrow> go_of_list kvs = kvs"
  using fold_update_distinct [of "[]" kvs] by (simp add: go_of_list_def)

section \<open>Strings and numbers\<close>

text \<open>\<open>strings.Split\<close> with a separator of one byte.\<close>

fun splitOn :: "char \<Rightarrow> string \<Rightarrow> string list" where
  "splitOn c [] = [[]]"
| "splitOn c (x # xs) =
     (if x = c then [] # splitOn c xs
      else (case splitOn c xs of [] \<Rightarrow> [[x]] | p # ps \<Rightarrow> (x # p) # ps))"

lemma splitOn_nonempty [simp]: "splitOn c s \<noteq> []"
  by (cases s) (auto split: list.splits)

lemma splitOn_no_sep: "c \<notin> set s \<Longrightarrow> splitOn c s = [s]"
  by (induction s) auto

lemma splitOn_append_sep: "c \<notin> set a \<Longrightarrow> splitOn c (a @ c # b) = a # splitOn c b"
  by (induction a) auto

lemma splitOn_parts_clean: "p \<in> set (splitOn c s) \<Longrightarrow> c \<notin> set p"
proof (induction s arbitrary: p)
  case (Cons x xs)
  then show ?case
    by (cases "splitOn c xs") (auto split: if_splits)
qed simp

text \<open>\<open>strings.Join\<close>.\<close>

fun joinWith :: "string \<Rightarrow> string list \<Rightarrow> string" where
  "joinWith sep [] = []"
| "joinWith sep [s] = s"
| "joinWith sep (s # t # ss) = s @ sep @ joinWith sep (t # ss)"

lemma joinWith_splitOn: "joinWith [c] (splitOn c s) = s"
proof (induction s)
  case (Cons x xs)
  obtain p ps where sp: "splitOn c xs = p # ps"
    by (cases "splitOn c xs") auto
  have "joinWith [c] ((x # p) # ps) = x # joinWith [c] (p # ps)"
    by (cases ps) auto
  with Cons sp show ?case by simp
qed simp

lemma splitOn_joinWith:
  "ps \<noteq> [] \<Longrightarrow> (\<And>p. p \<in> set ps \<Longrightarrow> c \<notin> set p) \<Longrightarrow> splitOn c (joinWith [c] ps) = ps"
  by (induction "[c]" ps rule: joinWith.induct) (auto simp: splitOn_no_sep splitOn_append_sep)

lemma set_joinWith: "set (joinWith sep ss) \<subseteq> set sep \<union> (\<Union>s \<in> set ss. set s)"
  by (induction sep ss rule: joinWith.induct) auto

text \<open>\<open>strings.HasPrefix\<close>, \<open>strings.Contains\<close> and \<open>strings.Trim(s, "\n")\<close>.\<close>

fun hasPrefix :: "string \<Rightarrow> string \<Rightarrow> bool" where
  "hasPrefix s [] = True"
| "hasPrefix [] (p # ps) = False"
| "hasPrefix (c # s) (p # ps) = (c = p \<and> hasPrefix s ps)"

fun containsStr :: "string \<Rightarrow> string \<Rightarrow> bool" where
  "containsStr [] t = (t = [])"
| "containsStr (c # s) t = (hasPrefix (c # s) t \<or> containsStr s t)"

definition trimNewlines :: "string \<Rightarrow> string" where
  "trimNewlines s =
     rev (dropWhile (\<lambda>c. c = CHR 0x0A) (rev (dropWhile (\<lambda>c. c = CHR 0x0A) s)))"

text \<open>
  \<open>strings.EqualFold\<close> against a constant of ASCII letters. Under Unicode simple folding the
  runes that fold to an ASCII letter are the two cases of that letter, U+017F (long s,
  bytes C5 BF) and U+212A (Kelvin sign, bytes E2 84 AA).
\<close>

definition lowerChar :: "char \<Rightarrow> char" where
  "lowerChar c = (let n = of_char c :: nat in if 65 \<le> n \<and> n \<le> 90 then char_of (n + 32) else c)"

fun foldRunes :: "string \<Rightarrow> string" where
  "foldRunes (a # b # c # s) =
     (if a = CHR 0xC5 \<and> b = CHR 0xBF then CHR ''s'' # foldRunes (c # s)
      else if a = CHR 0xE2 \<and> b = CHR 0x84 \<and> c = CHR 0xAA then CHR ''k'' # foldRunes s
      else lowerChar a # foldRunes (b # c # s))"
| "foldRunes [a, b] =
     (if a = CHR 0xC5 \<and> b = CHR 0xBF then ''s'' else [lowerChar a, lowerChar b])"
| "foldRunes [a] = [lowerChar a]"
| "foldRunes [] = []"

definition equalFold :: "string \<Rightarrow> string \<Rightarrow> bool" where
  "equalFold s t \<longleftrightarrow> foldRunes s = foldRunes t"

text \<open>\<open>strconv.Itoa\<close> and \<open>%d\<close>.\<close>

definition digitChar :: "nat \<Rightarrow> char" where
  "digitChar d = char_of (48 + d)"

fun natDigits :: "nat \<Rightarrow> string" where
  "natDigits n = (if n < 10 then [digitChar n] else natDigits (n div 10) @ [digitChar (n mod 10)])"

declare natDigits.simps [simp del]

definition itoa :: "int \<Rightarrow> string" where
  "itoa i = (if i < 0 then CHR ''-'' # natDigits (nat (- i)) else natDigits (nat i))"

text \<open>
  \<open>strconv.Atoi\<close> on a 64-bit platform: an optional sign, at least one decimal digit, and a value
  that fits an \<open>int\<close>.
\<close>

definition isDigit :: "char \<Rightarrow> bool" where
  "isDigit c \<longleftrightarrow> c \<in> set ''0123456789''"

definition digitsValue :: "string \<Rightarrow> nat" where
  "digitsValue ds = foldl (\<lambda>n c. n * 10 + (of_char c - 48)) 0 ds"

definition atoi :: "string \<Rightarrow> int go" where
  "atoi s =
     (let neg = (s \<noteq> [] \<and> hd s = CHR ''-'');
          ds = (if s \<noteq> [] \<and> hd s \<in> {CHR ''-'', CHR ''+''} then tl s else s);
          n = (if neg then - int (digitsValue ds) else int (digitsValue ds))
      in if ds = [] \<or> \<not> list_all isDigit ds
         then Err (Errorf ''strconv.ParseInt: parsing %s: invalid syntax'' [EStr s])
         else if n < - (2 ^ 63) \<or> n > 2 ^ 63 - 1
         then Err (Errorf ''strconv.ParseInt: parsing %s: value out of range'' [EStr s])
         else Ok n)"

text \<open>
  \<open>fmt.Sprintf\<close> with arguments that are printed already. A verb without an argument prints
  \<open>%!v(MISSING)\<close>; flags and widths do not occur in the sources. What Go appends for surplus
  arguments (\<open>%!(EXTRA ...)\<close>) is left out.
\<close>

fun sprintfStrings :: "string \<Rightarrow> string list \<Rightarrow> string" where
  "sprintfStrings (c # d # f) as =
     (if c = CHR ''%'' then
        (if d = CHR ''%'' then CHR ''%'' # sprintfStrings f as
         else (case as of [] \<Rightarrow> ''%!'' @ [d] @ ''(MISSING)'' @ sprintfStrings f []
               | a # as' \<Rightarrow> a @ sprintfStrings f as'))
      else c # sprintfStrings (d # f) as)"
| "sprintfStrings [c] as = (if c = CHR ''%'' then ''%!(NOVERB)'' else [c])"
| "sprintfStrings [] as = []"

lemma sprintf_plain: "CHR ''%'' \<notin> set f \<Longrightarrow> sprintfStrings f as = f"
  by (induction f as rule: sprintfStrings.induct) auto

text \<open>
  The text of an error, \<open>err.Error()\<close>. An operation printed with \<open>%v\<close> is abbreviated to its
  index, and the text of a system error to its number.
\<close>

fun errText :: "goerr \<Rightarrow> string" and argText :: "earg \<Rightarrow> string" where
  "errText (ErrNew s) = s"
| "errText (Errorf f as) = sprintfStrings f (map argText as)"
| "errText (Errno n) = ''errno '' @ itoa n"
| "argText (EStr s) = s"
| "argText (EInt i) = itoa i"
| "argText (EOp i) = ''operation '' @ itoa (int i)"
| "argText (EErr e) = errText e"

text \<open>The slice expression \<open>s[:n]\<close> on a string.\<close>

definition slicePrefix :: "string \<Rightarrow> nat \<Rightarrow> string go" where
  "slicePrefix s n = (if n \<le> length s then Ok (take n s) else Panic IndexOutOfRange)"

text \<open>Indexing of a slice.\<close>

definition indexGo :: "'a list \<Rightarrow> nat \<Rightarrow> 'a go" where
  "indexGo xs i = (if i < length xs then Ok (xs ! i) else Panic IndexOutOfRange)"

text \<open>\<open>strings.TrimSpace\<close> on UTF-8: the white space of Unicode 7.\<close>

definition spaceRunes :: "string list" where
  "spaceRunes =
     [[CHR 0x09], [CHR 0x0A], [CHR 0x0B], [CHR 0x0C], [CHR 0x0D], [CHR 0x20],
      [CHR 0xC2, CHR 0x85], [CHR 0xC2, CHR 0xA0], [CHR 0xE1, CHR 0x9A, CHR 0x80],
      [CHR 0xE2, CHR 0x80, CHR 0x80], [CHR 0xE2, CHR 0x80, CHR 0x81], [CHR 0xE2, CHR 0x80, CHR 0x82],
      [CHR 0xE2, CHR 0x80, CHR 0x83], [CHR 0xE2, CHR 0x80, CHR 0x84], [CHR 0xE2, CHR 0x80, CHR 0x85],
      [CHR 0xE2, CHR 0x80, CHR 0x86], [CHR 0xE2, CHR 0x80, CHR 0x87], [CHR 0xE2, CHR 0x80, CHR 0x88],
      [CHR 0xE2, CHR 0x80, CHR 0x89], [CHR 0xE2, CHR 0x80, CHR 0x8A], [CHR 0xE2, CHR 0x80, CHR 0xA8],
      [CHR 0xE2, CHR 0x80, CHR 0xA9], [CHR 0xE2, CHR 0x80, CHR 0xAF], [CHR 0xE2, CHR 0x81, CHR 0x9F],
      [CHR 0xE3, CHR 0x80, CHR 0x80]]"

function trimFront :: "string list \<Rightarrow> string \<Rightarrow> string" where
  "trimFront runes s = (case List.find (\<lambda>r. r \<noteq> [] \<and> hasPrefix s r) runes of
       None \<Rightarrow> s
     | Some r \<Rightarrow> if s = [] then s else trimFront runes (drop (length r) s))"
  by auto
termination
  by (relation "measure (length \<circ> snd)") (auto simp: find_Some_iff)

declare trimFront.simps [simp del]

definition trimSpace :: "string \<Rightarrow> string" where
  "trimSpace s = rev (trimFront (map rev spaceRunes) (rev (trimFront spaceRunes s)))"

section \<open>Numbers and their digits\<close>

lemma digit_cases: "d < 10 \<Longrightarrow> d \<in> {0, 1, 2, 3, 4, 5, 6, 7, 8, 9 :: nat}"
  by auto

lemma of_char_digit: "d < 10 \<Longrightarrow> of_char (digitChar d) = 48 + d"
  by (simp add: digitChar_def of_char_of take_bit_eq_mod)

lemma isDigit_digitChar: "d < 10 \<Longrightarrow> isDigit (digitChar d)"
  by (drule digit_cases) (auto simp: isDigit_def digitChar_def char_of_eq_iff)

lemma natDigits_digits: "list_all isDigit (natDigits n) \<and> natDigits n \<noteq> []"
proof (induction n rule: natDigits.induct)
  case (1 n)
  then show ?case using natDigits.simps [of n] by (auto simp: isDigit_digitChar)
qed

lemma digitsValue_snoc: "digitsValue (ds @ [c]) = digitsValue ds * 10 + (of_char c - 48)"
  by (simp add: digitsValue_def)

lemma digitsValue_natDigits: "digitsValue (natDigits n) = n"
proof (induction n rule: natDigits.induct)
  case (1 n)
  show ?case
  proof (cases "n < 10")
    case True
    then show ?thesis by (subst natDigits.simps) (simp add: digitsValue_def of_char_digit)
  next
    case False
    with 1 show ?thesis by (subst natDigits.simps) (simp add: digitsValue_snoc of_char_digit)
  qed
qed

lemma isDigit_not: "isDigit c \<Longrightarrow> c \<notin> {CHR '':'', CHR '','', CHR 0x0A, CHR 0x0D, CHR ''-'', CHR ''+''}"
  by (auto simp: isDigit_def)

lemma natDigits_hd: "hd (natDigits n) \<notin> {CHR ''-'', CHR ''+''}"
  using natDigits_digits [of n] isDigit_not by (cases "natDigits n") auto

lemma atoi_itoa:
  assumes "- (2 ^ 63) \<le> i" "i \<le> 2 ^ 63 - 1"
  shows "atoi (itoa i) = Ok i"
  using assms natDigits_digits [of "nat i"] natDigits_digits [of "nat (- i)"] natDigits_hd [of "nat i"]
  by (auto simp: atoi_def itoa_def Let_def digitsValue_natDigits)

lemma itoa_clean: "set (itoa i) \<inter> {CHR '':'', CHR '','', CHR 0x0A, CHR 0x0D} = {}"
  using natDigits_digits [of "nat i"] natDigits_digits [of "nat (- i)"] isDigit_not
  by (auto simp: itoa_def list_all_iff)

lemma trimFront_id:
  assumes "\<And>r. r \<in> set runes \<Longrightarrow> r \<noteq> [] \<Longrightarrow> s \<noteq> [] \<Longrightarrow> hd r \<noteq> hd s"
  shows "trimFront runes s = s"
proof -
  have "\<not> (r \<noteq> [] \<and> hasPrefix s r)" if "r \<in> set runes" for r
    using assms [OF that] by (cases r; cases s) auto
  then have "List.find (\<lambda>r. r \<noteq> [] \<and> hasPrefix s r) runes = None" by (auto simp: find_None_iff)
  then show ?thesis by (subst trimFront.simps) simp
qed

definition isGraph :: "char \<Rightarrow> bool" where
  "isGraph c \<longleftrightarrow> (let n = of_char c :: nat in 33 \<le> n \<and> n \<le> 126)"

lemma spaceRunes_not_graph:
  "r \<in> set spaceRunes \<Longrightarrow> \<not> isGraph (hd r) \<and> \<not> isGraph (last r) \<and> r \<noteq> []"
proof -
  have "list_all (\<lambda>r. \<not> isGraph (hd r) \<and> \<not> isGraph (last r) \<and> r \<noteq> []) spaceRunes" by code_simp
  then show "r \<in> set spaceRunes \<Longrightarrow> \<not> isGraph (hd r) \<and> \<not> isGraph (last r) \<and> r \<noteq> []"
    by (simp add: list_all_iff)
qed

lemma trimSpace_graph:
  assumes "s \<noteq> []" "isGraph (hd s)" "isGraph (last s)"
  shows "trimSpace s = s" "trimSpace (s @ '' '') = s"
proof -
  have front: "trimFront spaceRunes (s @ t) = s @ t" for t
    using assms(1,2) spaceRunes_not_graph by (intro trimFront_id) (metis hd_append2)
  have end_id: "trimFront (map rev spaceRunes) (rev s) = rev s"
    using assms(1,3) spaceRunes_not_graph by (intro trimFront_id) (metis hd_rev rev_rev_ident imageE set_map)
  have "List.find (\<lambda>r. r \<noteq> [] \<and> hasPrefix (CHR '' '' # t) r) (map rev spaceRunes) = Some '' ''" for t
    by (simp add: spaceRunes_def)
  then have space: "trimFront (map rev spaceRunes) (CHR '' '' # t) = trimFront (map rev spaceRunes) t" for t
    by (subst trimFront.simps) simp
  show "trimSpace s = s" using front [of "[]"] end_id by (simp add: trimSpace_def)
  show "trimSpace (s @ '' '') = s" using front end_id by (simp add: trimSpace_def space)
qed

end
