(* ===== verification/Ovsdb_Notation.thy ===== *)
theory Ovsdb_Notation
  imports Go_Prelude
begin

text \<open>
  The value notation of the OVSDB client library (\<open>libovsdb\<close>: \<open>notation.go\<close>, \<open>uuid.go\<close>,
  \<open>set.go\<close>, \<open>map.go\<close>, \<open>row.go\<close>): the dynamic values the plugin puts into and reads from
  database rows, their JSON form as RFC 7047 defines it, and the round trip between the two.

  JSON documents are trees (\<open>json\<close>); their concrete text is the business of
  \<open>encoding/json\<close>. A JSON number is kept as its text, also after it was decoded into a
  \<open>float64\<close> (\<open>GFloat\<close>): the sources never compute with such a number.
\<close>

section \<open>Dynamic values\<close>

text \<open>
  The dynamic types an \<open>interface{}\<close> takes in the sources. A pointer to an \<open>OvsSet\<close>, which
  is what \<open>NewOvsSet\<close> returns, is the set itself. \<open>GOvsSet []\<close> is the set whose \<open>GoSet\<close> is
  the nil slice: the sources only ever build \<open>GoSet\<close> with \<open>append\<close>; \<open>GOvsMap []\<close> likewise.
\<close>

datatype gov =
    GNil
  | GBool bool
  | GInt int
  | GUint "64 word"
  | GFloat string
  | GString string
  | GSlice "gov list"
  | GMap "(string \<times> gov) list"
  | GUUID string
  | GOvsSet "gov list"
  | GOvsMap "(gov \<times> gov) list"

datatype json =
    JNull
  | JBool bool
  | JNum string
  | JString string
  | JArr "json list"
  | JObj "(string \<times> json) list"

text \<open>\<open>json.Unmarshal\<close> into an \<open>interface{}\<close>: of two members with one name the last counts.\<close>

fun unmarshal_any :: "json \<Rightarrow> gov" where
  "unmarshal_any JNull = GNil"
| "unmarshal_any (JBool b) = GBool b"
| "unmarshal_any (JNum n) = GFloat n"
| "unmarshal_any (JString s) = GString s"
| "unmarshal_any (JArr js) = GSlice (map unmarshal_any js)"
| "unmarshal_any (JObj kvs) = GMap (go_of_list (map (\<lambda>(k, j). (k, unmarshal_any j)) kvs))"

section \<open>UUIDs\<close>

definition isHexLower :: "char \<Rightarrow> bool" where
  "isHexLower c \<longleftrightarrow> c \<in> set ''0123456789abcdef''"

text \<open>The regular expression of \<open>validateUUID\<close>: five groups of 8, 4, 4, 4 and 12 digits.\<close>

definition uuidRegexp :: "string \<Rightarrow> bool" where
  "uuidRegexp s \<longleftrightarrow> map length (splitOn (CHR ''-'') s) = [8, 4, 4, 4, 12] \<and>
     list_all (list_all isHexLower) (splitOn (CHR ''-'') s)"

definition validateUUID :: "string \<Rightarrow> unit go" where
  "validateUUID u =
     (if length u \<noteq> 36 then Err (ErrNew ''uuid exceeds 36 characters'')
      else if \<not> uuidRegexp u then Err (ErrNew ''uuid does not match regexp'')
      else Ok ())"

definition UUID_MarshalJSON :: "string \<Rightarrow> json" where
  "UUID_MarshalJSON u =
     (case validateUUID u of
        Ok _ \<Rightarrow> JArr [JString ''uuid'', JString u]
      | _ \<Rightarrow> JArr [JString ''named-uuid'', JString u])"

text \<open>
  \<open>json.Unmarshal\<close> of an array into a \<open>[]string\<close>: a JSON null leaves the element empty, any
  other element that is not a string is an error.
\<close>

fun asStrings :: "gov list \<Rightarrow> string list option" where
  "asStrings [] = Some []"
| "asStrings (GString s # vs) = map_option ((#) s) (asStrings vs)"
| "asStrings (GNil # vs) = map_option ((#) '''') (asStrings vs)"
| "asStrings (_ # vs) = None"

text \<open>The error of the inner \<open>Unmarshal\<close> is shadowed: the method returns a nil error.\<close>

definition UUID_UnmarshalJSON :: "gov list \<Rightarrow> string go" where
  "UUID_UnmarshalJSON sl = (case asStrings sl of None \<Rightarrow> Ok '''' | Some ss \<Rightarrow> indexGo ss 1)"

section \<open>Sets and maps\<close>

definition NewOvsSet :: "gov \<Rightarrow> gov go" where
  "NewOvsSet v = (case v of
       GSlice vs \<Rightarrow> Ok (GOvsSet vs)
     | _ \<Rightarrow> Err (ErrNew ''OvsSet supports only Go Slice types''))"

definition NewOvsMap :: "gov \<Rightarrow> gov go" where
  "NewOvsMap v = (case v of
       GMap kvs \<Rightarrow> Ok (GOvsMap (map (\<lambda>(k, x). (GString k, x)) kvs))
     | _ \<Rightarrow> Err (ErrNew ''OvsMap supports only Go Map types''))"

text \<open>
  \<open>json.Marshal\<close>. A nil slice inside an \<open>interface{}\<close> is written as \<open>null\<close>, which is what
  happens to the elements of an empty \<open>OvsSet\<close> or \<open>OvsMap\<close>.
\<close>

fun marshal :: "gov \<Rightarrow> json" where
  "marshal GNil = JNull"
| "marshal (GBool b) = JBool b"
| "marshal (GInt i) = JNum (itoa i)"
| "marshal (GUint w) = JNum (natDigits (unat w))"
| "marshal (GFloat n) = JNum n"
| "marshal (GString s) = JString s"
| "marshal (GSlice vs) = JArr (map marshal vs)"
| "marshal (GMap kvs) = JObj (map (\<lambda>(k, v). (k, marshal v)) kvs)"
| "marshal (GUUID u) = UUID_MarshalJSON u"
| "marshal (GOvsSet vs) =
     JArr [JString ''set'', (if vs = [] then JNull else JArr (map marshal vs))]"
| "marshal (GOvsMap kvs) =
     JArr [JString ''map'',
       (if kvs = [] then JNull else JArr (map (\<lambda>(k, v). JArr [marshal k, marshal v]) kvs))]"

text \<open>Which dynamic types Go can hash.\<close>

fun hashable :: "gov \<Rightarrow> bool" where
  "hashable (GSlice _) = False"
| "hashable (GMap _) = False"
| "hashable (GOvsSet _) = False"
| "hashable (GOvsMap _) = False"
| "hashable _ = True"

text \<open>The loop of \<open>OvsMap.UnmarshalJSON\<close>; the values are stored as they were decoded.\<close>

fun ovsMapEntries :: "gov list \<Rightarrow> (gov, gov) gomap \<Rightarrow> (gov, gov) gomap go" where
  "ovsMapEntries [] m = Ok m"
| "ovsMapEntries (v # vs) m = (case v of
       GSlice f \<Rightarrow>
         (if length f < 2 then Panic IndexOutOfRange
          else if \<not> hashable (f ! 0) then Panic UnhashableKey
          else ovsMapEntries vs (go_update (f ! 0) (f ! 1) m))
     | _ \<Rightarrow> Panic TypeAssertion)"

definition OvsMap_UnmarshalJSON :: "gov list \<Rightarrow> gov go" where
  "OvsMap_UnmarshalJSON sl =
     (if length sl > 1 then (case sl ! 1 of
          GSlice inner \<Rightarrow> map_go_res GOvsMap (ovsMapEntries inner [])
        | _ \<Rightarrow> Panic TypeAssertion)
      else Ok (GOvsMap []))"

text \<open>
  \<open>ovsSliceToGoNotation\<close>, with \<open>OvsSet.UnmarshalJSON\<close>, which calls it on every element,
  written out in its second case. \<open>json.Marshal\<close> of a decoded value does not fail.
\<close>

fun ovsSliceToGoNotation :: "gov \<Rightarrow> gov go" where
  "ovsSliceToGoNotation (GSlice sl) = (case sl of
       [] \<Rightarrow> Panic IndexOutOfRange
     | tag # rest \<Rightarrow>
         if tag = GString ''uuid'' then map_go_res GUUID (UUID_UnmarshalJSON (tag # rest))
         else if tag = GString ''set'' then (case rest of
             [] \<Rightarrow> Ok (GOvsSet [])
           | inner # _ \<Rightarrow> (case inner of
                 GSlice vs \<Rightarrow> map_go_res GOvsSet (traverse_go ovsSliceToGoNotation vs)
               | _ \<Rightarrow> Panic TypeAssertion))
         else if tag = GString ''map'' then OvsMap_UnmarshalJSON (tag # rest)
         else Ok (GSlice (tag # rest)))"
| "ovsSliceToGoNotation v = Ok v"

section \<open>Rows\<close>

text \<open>\<open>Fields = None\<close> is the nil map of the zero \<open>Row\<close>, which \<open>reflect.DeepEqual\<close> tells apart
  from an empty map.\<close>

record ovs_row =
  Fields :: "(string, gov) gomap option"

definition emptyRow :: ovs_row where
  "emptyRow = \<lparr>Fields = None\<rparr>"

definition rowField :: "ovs_row \<Rightarrow> string \<Rightarrow> gov option" where
  "rowField r c = (case Fields r of None \<Rightarrow> None | Some m \<Rightarrow> go_lookup m c)"

definition Row_UnmarshalJSON :: "json \<Rightarrow> ovs_row go" where
  "Row_UnmarshalJSON j = (case unmarshal_any j of
       GMap raw \<Rightarrow> map_go_res (\<lambda>fs. \<lparr>Fields = Some fs\<rparr>)
         (traverse_go (\<lambda>(k, v). map_go_res (Pair k) (ovsSliceToGoNotation v)) raw)
     | GNil \<Rightarrow> Ok \<lparr>Fields = Some []\<rparr>
     | _ \<Rightarrow> Err (ErrNew ''json: cannot unmarshal value into Go value of type map''))"

record RowUpdate =
  ru_New :: ovs_row
  ru_Old :: ovs_row

type_synonym TableUpdate = "(string, RowUpdate) gomap"
type_synonym TableUpdates = "(string, TableUpdate) gomap"

section \<open>Operations and their results\<close>

record Operation =
  op_Op :: string
  op_Table :: string
  op_Row :: "(string, gov) gomap"
  op_Rows :: "(string, gov) gomap list"
  op_Columns :: "string list"
  op_Mutations :: "gov list"
  op_Timeout :: int
  op_Where :: "gov list"
  op_Until :: string
  op_UUIDName :: string

text \<open>A struct literal that sets only some fields leaves the others at their zero value.\<close>

definition zeroOperation :: Operation where
  "zeroOperation = \<lparr>op_Op = '''', op_Table = '''', op_Row = [], op_Rows = [], op_Columns = [],
     op_Mutations = [], op_Timeout = 0, op_Where = [], op_Until = '''', op_UUIDName = ''''\<rparr>"

record OperationResult =
  res_Count :: int
  res_Error :: string
  res_Details :: string
  res_UUID :: string
  res_Rows :: "(string, gov) gomap list"

definition NewCondition :: "string \<Rightarrow> string \<Rightarrow> gov \<Rightarrow> gov" where
  "NewCondition column function value = GSlice [GString column, GString function, value]"

definition NewMutation :: "string \<Rightarrow> string \<Rightarrow> gov \<Rightarrow> gov" where
  "NewMutation column mutator value = GSlice [GString column, GString mutator, value]"

text \<open>A member with the \<open>omitempty\<close> option is left out when its value is the empty one.\<close>

definition omitempty :: "bool \<Rightarrow> string \<Rightarrow> json \<Rightarrow> (string \<times> json) list" where
  "omitempty e k j = (if e then [] else [(k, j)])"

definition marshalOperation :: "Operation \<Rightarrow> json" where
  "marshalOperation p = JObj (
     [(''op'', JString (op_Op p)), (''table'', JString (op_Table p))] @
     omitempty (op_Row p = []) ''row'' (marshal (GMap (op_Row p))) @
     omitempty (op_Rows p = []) ''rows'' (JArr (map (\<lambda>r. marshal (GMap r)) (op_Rows p))) @
     omitempty (op_Columns p = []) ''columns'' (JArr (map JString (op_Columns p))) @
     omitempty (op_Mutations p = []) ''mutations'' (JArr (map marshal (op_Mutations p))) @
     omitempty (op_Timeout p = 0) ''timeout'' (JNum (itoa (op_Timeout p))) @
     omitempty (op_Where p = []) ''where'' (JArr (map marshal (op_Where p))) @
     omitempty (op_Until p = '''') ''until'' (JString (op_Until p)) @
     omitempty (op_UUIDName p = '''') ''uuid-name'' (JString (op_UUIDName p)))"

section \<open>Round trip\<close>

text \<open>
  The values a database column holds, as the library represents them: atoms, sets and maps of
  atoms. A UUID is an atom only when \<open>validateUUID\<close> accepts it, and \<open>OvsMap\<close> does not decode
  UUIDs at all.
\<close>

fun plain_atom :: "gov \<Rightarrow> bool" where
  "plain_atom (GBool _) = True"
| "plain_atom (GFloat _) = True"
| "plain_atom (GString _) = True"
| "plain_atom _ = False"

fun ovs_atom :: "gov \<Rightarrow> bool" where
  "ovs_atom (GUUID u) = (validateUUID u = Ok ())"
| "ovs_atom v = plain_atom v"

fun ovs_value :: "gov \<Rightarrow> bool" where
  "ovs_value (GOvsSet vs) = (vs \<noteq> [] \<and> list_all ovs_atom vs)"
| "ovs_value (GOvsMap kvs) =
     (kvs \<noteq> [] \<and> distinct (map fst kvs) \<and> list_all (\<lambda>(k, v). plain_atom k \<and> plain_atom v) kvs)"
| "ovs_value v = ovs_atom v"

text \<open>What a value becomes on its way through the wire and back.\<close>

definition wire :: "gov \<Rightarrow> gov go" where
  "wire v = ovsSliceToGoNotation (unmarshal_any (marshal v))"

lemma plain_atom_wire: "plain_atom v \<Longrightarrow> unmarshal_any (marshal v) = v"
  by (cases v) auto

lemma plain_atom_hashable: "plain_atom v \<Longrightarrow> hashable v"
  by (cases v) auto

lemma validateUUID_cases: "validateUUID u = Ok () \<or> (\<exists>e. validateUUID u = Err e)"
  by (simp add: validateUUID_def)

lemma unmarshal_UUID:
  "unmarshal_any (UUID_MarshalJSON u) =
     GSlice [GString (if validateUUID u = Ok () then ''uuid'' else ''named-uuid''), GString u]"
  using validateUUID_cases [of u] by (auto simp: UUID_MarshalJSON_def)

lemma atom_wire: "ovs_atom v \<Longrightarrow> wire v = Ok v"
  by (cases v) (auto simp: wire_def unmarshal_UUID UUID_UnmarshalJSON_def indexGo_def)

lemma ovsMapEntries_atoms:
  "list_all (\<lambda>(k, v). plain_atom k \<and> plain_atom v) kvs \<Longrightarrow>
   ovsMapEntries (map (unmarshal_any \<circ> (\<lambda>(k, v). JArr [marshal k, marshal v])) kvs) m =
     Ok (fold (\<lambda>(k, v). go_update k v) kvs m)"
  by (induction kvs arbitrary: m) (auto simp: plain_atom_wire plain_atom_hashable)

lemma set_wire: "vs \<noteq> [] \<Longrightarrow> list_all ovs_atom vs \<Longrightarrow> wire (GOvsSet vs) = Ok (GOvsSet vs)"
proof -
  assume ne: "vs \<noteq> []" and atoms: "list_all ovs_atom vs"
  have "traverse_go ovsSliceToGoNotation (map (unmarshal_any \<circ> marshal) vs) = Ok vs"
    using atoms by (induction vs) (auto simp: atom_wire [unfolded wire_def])
  with ne show ?thesis by (simp add: wire_def)
qed

lemma map_wire:
  assumes "kvs \<noteq> []" "distinct (map fst kvs)"
    and "list_all (\<lambda>(k, v). plain_atom k \<and> plain_atom v) kvs"
  shows "wire (GOvsMap kvs) = Ok (GOvsMap kvs)"
  using assms fold_update_distinct [of "[]" kvs]
  by (simp add: wire_def OvsMap_UnmarshalJSON_def ovsMapEntries_atoms)

lemma value_wire: "ovs_value v \<Longrightarrow> wire v = Ok v"
  by (cases v) (simp_all add: atom_wire set_wire map_wire)

text \<open>The library as a codec: a value that is in its domain survives the wire.\<close>

locale wire_codec =
  fixes enc :: "'a \<Rightarrow> json" and dec :: "json \<Rightarrow> 'a go" and dom_ok :: "'a \<Rightarrow> bool"
  assumes dec_enc: "dom_ok a \<Longrightarrow> dec (enc a) = Ok a"
begin

lemma enc_inj: "dom_ok a \<Longrightarrow> dom_ok b \<Longrightarrow> enc a = enc b \<Longrightarrow> a = b"
  by (metis dec_enc go.inject(1))

lemma traverse_dec_enc: "list_all dom_ok as \<Longrightarrow> traverse_go dec (map enc as) = Ok as"
  by (induction as) (auto simp: dec_enc)

end

interpretation value_codec: wire_codec marshal "\<lambda>j. ovsSliceToGoNotation (unmarshal_any j)" ovs_value
  by unfold_locales (rule value_wire [unfolded wire_def])

definition ovs_row_value :: "ovs_row \<Rightarrow> bool" where
  "ovs_row_value r \<longleftrightarrow> (case Fields r of None \<Rightarrow> False
     | Some fs \<Rightarrow> wf_gomap fs \<and> list_all (\<lambda>(c, v). ovs_value v) fs)"

definition marshalRow :: "ovs_row \<Rightarrow> json" where
  "marshalRow r = (case Fields r of None \<Rightarrow> JNull | Some fs \<Rightarrow> marshal (GMap fs))"

lemma fields_wire:
  assumes "list_all (\<lambda>(c, v). ovs_value v) fs"
  shows "traverse_go (\<lambda>(k, v). map_go_res (Pair k) (ovsSliceToGoNotation v))
           (map (\<lambda>(k, v). (k, unmarshal_any (marshal v))) fs) = Ok fs"
  using assms by (induction fs) (auto simp: value_wire [unfolded wire_def])

lemma unmarshal_fields:
  assumes "distinct (map fst fs)"
  shows "unmarshal_any (marshal (GMap fs)) = GMap (map (\<lambda>(k, v). (k, unmarshal_any (marshal v))) fs)"
proof -
  have "map ((\<lambda>(k, j). (k, unmarshal_any j)) \<circ> (\<lambda>(k, v). (k, marshal v))) fs =
      map (\<lambda>(k, v). (k, unmarshal_any (marshal v))) fs"
    by auto
  moreover from assms have "distinct (map fst (map (\<lambda>(k, v). (k, unmarshal_any (marshal v))) fs))"
    by (simp add: comp_def case_prod_unfold)
  ultimately show ?thesis
    by (simp only: marshal.simps unmarshal_any.simps map_map go_of_list_distinct)
qed

lemma row_wire: "ovs_row_value r \<Longrightarrow> Row_UnmarshalJSON (marshalRow r) = Ok r"
proof -
  assume "ovs_row_value r"
  then obtain fs where r: "r = \<lparr>Fields = Some fs\<rparr>" and wf: "distinct (map fst fs)"
    and vals: "list_all (\<lambda>(c, v). ovs_value v) fs"
    by (cases r) (auto simp: ovs_row_value_def wf_gomap_def split: option.splits)
  from wf have "unmarshal_any (marshalRow r) = GMap (map (\<lambda>(k, v). (k, unmarshal_any (marshal v))) fs)"
    using unmarshal_fields [of fs] by (simp only: r marshalRow_def option.case ovs_row.select_convs)
  with fields_wire [OF vals] show ?thesis by (simp add: r Row_UnmarshalJSON_def)
qed

interpretation row_codec: wire_codec marshalRow Row_UnmarshalJSON ovs_row_value
  by unfold_locales (rule row_wire)

section \<open>Properties\<close>

text \<open>C19. A value that a column can hold (atoms, UUIDs, non-empty sets, non-empty maps of atoms) is
  read back from its RFC 7047 notation as it was written, and two of them never share a
  notation.\<close>

theorem value_roundtrip:
  assumes "ovs_value v"
  shows "ovsSliceToGoNotation (unmarshal_any (marshal v)) = Ok v \<and>
    (\<forall>v'. ovs_value v' \<longrightarrow> marshal v' = marshal v \<longrightarrow> v' = v)"
  using assms value_codec.dec_enc value_codec.enc_inj by blast

theorem value_roundtrip_witness:
  "ovsSliceToGoNotation (unmarshal_any (marshal
      (GOvsSet [GUUID ''36bd4f6b-1d2e-4a0f-9a33-0123456789ab'', GString ''eth0'']))) =
   Ok (GOvsSet [GUUID ''36bd4f6b-1d2e-4a0f-9a33-0123456789ab'', GString ''eth0''])"
proof -
  have "ovs_value (GOvsSet [GUUID ''36bd4f6b-1d2e-4a0f-9a33-0123456789ab'', GString ''eth0''])" by code_simp
  then show ?thesis using value_roundtrip by blast
qed

text \<open>The values that do not survive: an empty set or map is written with a null where the
  elements belong, on which the library's own decoder panics; a named UUID comes back as a plain
  slice; an empty JSON array panics.\<close>

lemma wire_failures:
  "wire (GOvsSet []) = Panic TypeAssertion \<and> wire (GOvsMap []) = Panic TypeAssertion \<and>
   wire (GSlice []) = Panic IndexOutOfRange \<and>
   (wire (GUUID u) = (if validateUUID u = Ok () then Ok (GUUID u)
      else Ok (GSlice [GString ''named-uuid'', GString u])))"
  by (auto simp: wire_def unmarshal_UUID UUID_UnmarshalJSON_def OvsMap_UnmarshalJSON_def indexGo_def)

end
