(* ===== verification/Ovsdb_Client.thy ===== *)
theory Ovsdb_Client
  imports Ovsdb_Notation
begin

text \<open>
  The OVSDB client of \<open>libovsdb\<close> (\<open>schema.go\<close>, \<open>rpc.go\<close>, \<open>client.go\<close>): the database schema,
  the validation of operations against it, the transactions and monitors it sends, the
  decoding of replies and of update notifications.

  The other end of the connection is a parameter: \<open>rpc_call\<close> is the JSON-RPC exchange (method
  and parameters to the result, or to the error of \<open>rpcClient.Call\<close>) and \<open>net_dial\<close> opens the
  TCP connection. Both act on an abstract world of type \<open>'w\<close>.
\<close>

record 'w rpc_env =
  rpc_call :: "string \<Rightarrow> json \<Rightarrow> 'w \<Rightarrow> json go \<times> 'w"
  net_dial :: "string \<Rightarrow> 'w \<Rightarrow> unit go \<times> 'w"

section \<open>Decoding into typed Go values\<close>

text \<open>
  \<open>json.Unmarshal\<close> into struct fields: an absent member and a JSON null leave the zero value,
  a value of another kind is an error.
\<close>

definition decodeError :: "'a go" where
  "decodeError = Err (ErrNew ''json: cannot unmarshal value'')"

fun decString :: "json option \<Rightarrow> string go" where
  "decString None = Ok ''''"
| "decString (Some JNull) = Ok ''''"
| "decString (Some (JString s)) = Ok s"
| "decString (Some _) = decodeError"

fun decBool :: "json option \<Rightarrow> bool go" where
  "decBool None = Ok False"
| "decBool (Some JNull) = Ok False"
| "decBool (Some (JBool b)) = Ok b"
| "decBool (Some _) = decodeError"

fun decInt :: "json option \<Rightarrow> int go" where
  "decInt None = Ok 0"
| "decInt (Some JNull) = Ok 0"
| "decInt (Some (JNum n)) = atoi n"
| "decInt (Some _) = decodeError"

fun decList :: "(json \<Rightarrow> 'a go) \<Rightarrow> json option \<Rightarrow> 'a list go" where
  "decList f None = Ok []"
| "decList f (Some JNull) = Ok []"
| "decList f (Some (JArr js)) = traverse_go f js"
| "decList f (Some _) = decodeError"

fun decMap :: "(json \<Rightarrow> 'a go) \<Rightarrow> json option \<Rightarrow> (string, 'a) gomap go" where
  "decMap f None = Ok []"
| "decMap f (Some JNull) = Ok []"
| "decMap f (Some (JObj kvs)) = traverse_go (\<lambda>(k, j). map_go_res (Pair k) (f j)) (go_of_list kvs)"
| "decMap f (Some _) = decodeError"

text \<open>The member of an object, for a struct; a null object is the zero struct.\<close>

fun jsonMember :: "json \<Rightarrow> string \<Rightarrow> json option" where
  "jsonMember (JObj kvs) k = go_lookup (go_of_list kvs) k"
| "jsonMember _ k = None"

fun isStructJson :: "json \<Rightarrow> bool" where
  "isStructJson (JObj _) = True"
| "isStructJson JNull = True"
| "isStructJson _ = False"

section \<open>Schema\<close>

record ColumnSchema =
  col_Name :: string
  col_Type :: gov
  col_Ephemeral :: bool
  col_Mutable :: bool

record TableSchema =
  tbl_Columns :: "(string, ColumnSchema) gomap"
  tbl_Indexes :: "string list list"

record DatabaseSchema =
  db_Name :: string
  db_Version :: string
  db_Tables :: "(string, TableSchema) gomap"

definition decodeColumn :: "json \<Rightarrow> ColumnSchema go" where
  "decodeColumn j = (if \<not> isStructJson j then decodeError else
     bind_go (decString (jsonMember j ''name'')) (\<lambda>n.
     bind_go (decBool (jsonMember j ''ephemeral'')) (\<lambda>e.
     bind_go (decBool (jsonMember j ''mutable'')) (\<lambda>m.
     Ok \<lparr>col_Name = n,
         col_Type = (case jsonMember j ''type'' of None \<Rightarrow> GNil | Some t \<Rightarrow> unmarshal_any t),
         col_Ephemeral = e, col_Mutable = m\<rparr>))))"

definition decodeTable :: "json \<Rightarrow> TableSchema go" where
  "decodeTable j = (if \<not> isStructJson j then decodeError else
     bind_go (decMap decodeColumn (jsonMember j ''columns'')) (\<lambda>cs.
     bind_go (decList (\<lambda>i. decList (\<lambda>c. decString (Some c)) (Some i)) (jsonMember j ''indexes'')) (\<lambda>ix.
     Ok \<lparr>tbl_Columns = cs, tbl_Indexes = ix\<rparr>)))"

definition decodeSchema :: "json \<Rightarrow> DatabaseSchema go" where
  "decodeSchema j = (if \<not> isStructJson j then decodeError else
     bind_go (decString (jsonMember j ''name'')) (\<lambda>n.
     bind_go (decString (jsonMember j ''version'')) (\<lambda>v.
     bind_go (decMap decodeTable (jsonMember j ''tables'')) (\<lambda>ts.
     Ok \<lparr>db_Name = n, db_Version = v, db_Tables = ts\<rparr>))))"

text \<open>The three column loops of \<open>validateOperations\<close>, then its loop over the operations.\<close>

fun columnsKnown :: "TableSchema \<Rightarrow> string list \<Rightarrow> bool" where
  "columnsKnown t [] = True"
| "columnsKnown t (c # cs) = (if has_key (tbl_Columns t) c then columnsKnown t cs else False)"

fun rowsKnown :: "TableSchema \<Rightarrow> (string, gov) gomap list \<Rightarrow> bool" where
  "rowsKnown t [] = True"
| "rowsKnown t (r # rs) = (if columnsKnown t (map fst r) then rowsKnown t rs else False)"

fun validateOperations :: "DatabaseSchema \<Rightarrow> Operation list \<Rightarrow> bool" where
  "validateOperations db [] = True"
| "validateOperations db (p # ps) =
     (case go_lookup (db_Tables db) (op_Table p) of
        None \<Rightarrow> False
      | Some t \<Rightarrow>
          if \<not> columnsKnown t (map fst (op_Row p)) then False
          else if \<not> rowsKnown t (op_Rows p) then False
          else if \<not> columnsKnown t (op_Columns p) then False
          else validateOperations db ps)"

section \<open>Requests\<close>

definition NewGetSchemaArgs :: "string \<Rightarrow> json" where
  "NewGetSchemaArgs schema = JArr [JString schema]"

definition NewTransactArgs :: "string \<Rightarrow> Operation list \<Rightarrow> json" where
  "NewTransactArgs database operations = JArr (JString database # map marshalOperation operations)"

record MonitorSelect =
  sel_Initial :: bool
  sel_Insert :: bool
  sel_Delete :: bool
  sel_Modify :: bool

record MonitorRequest =
  req_Columns :: "string list"
  req_Select :: MonitorSelect

definition marshalSelect :: "MonitorSelect \<Rightarrow> json" where
  "marshalSelect s = JObj (
     omitempty (\<not> sel_Initial s) ''initial'' (JBool (sel_Initial s)) @
     omitempty (\<not> sel_Insert s) ''insert'' (JBool (sel_Insert s)) @
     omitempty (\<not> sel_Delete s) ''delete'' (JBool (sel_Delete s)) @
     omitempty (\<not> sel_Modify s) ''modify'' (JBool (sel_Modify s)))"

definition marshalMonitorRequest :: "MonitorRequest \<Rightarrow> json" where
  "marshalMonitorRequest r = JObj (
     omitempty (req_Columns r = []) ''columns'' (JArr (map JString (req_Columns r))) @
     [(''select'', marshalSelect (req_Select r))])"

definition NewMonitorArgs :: "string \<Rightarrow> gov \<Rightarrow> (string, MonitorRequest) gomap \<Rightarrow> json" where
  "NewMonitorArgs database value requests =
     JArr [JString database, marshal value,
       JObj (map (\<lambda>(t, r). (t, marshalMonitorRequest r)) requests)]"

definition NewCancelArgs :: "gov \<Rightarrow> json" where
  "NewCancelArgs i = JArr [marshal i]"

definition NewMonitorCancelArgs :: "gov \<Rightarrow> json" where
  "NewMonitorCancelArgs value = JArr [marshal value]"

definition NewLockArgs :: "gov \<Rightarrow> json" where
  "NewLockArgs i = JArr [marshal i]"

section \<open>Replies\<close>

definition zeroResult :: OperationResult where
  "zeroResult = \<lparr>res_Count = 0, res_Error = '''', res_Details = '''', res_UUID = '''', res_Rows = []\<rparr>"

definition decodeRawRow :: "json \<Rightarrow> (string, gov) gomap go" where
  "decodeRawRow j = decMap (\<lambda>v. Ok (unmarshal_any v)) (Some j)"

definition decodeUUID :: "json option \<Rightarrow> string go" where
  "decodeUUID j = (case j of
       None \<Rightarrow> Ok ''''
     | Some v \<Rightarrow> (case unmarshal_any v of
           GSlice sl \<Rightarrow> UUID_UnmarshalJSON sl
         | GNil \<Rightarrow> indexGo [] 1
         | _ \<Rightarrow> Ok ''''))"

definition decodeResult :: "json \<Rightarrow> OperationResult go" where
  "decodeResult j = (if \<not> isStructJson j then decodeError else
     bind_go (decInt (jsonMember j ''count'')) (\<lambda>c.
     bind_go (decString (jsonMember j ''error'')) (\<lambda>e.
     bind_go (decString (jsonMember j ''details'')) (\<lambda>d.
     bind_go (decodeUUID (jsonMember j ''uuid'')) (\<lambda>u.
     bind_go (decList decodeRawRow (jsonMember j ''rows'')) (\<lambda>rs.
     Ok \<lparr>res_Count = c, res_Error = e, res_Details = d, res_UUID = u, res_Rows = rs\<rparr>))))))"

definition decodeRowMember :: "json option \<Rightarrow> ovs_row go" where
  "decodeRowMember j = (case j of None \<Rightarrow> Ok emptyRow | Some r \<Rightarrow> Row_UnmarshalJSON r)"

definition decodeRowUpdate :: "json \<Rightarrow> RowUpdate go" where
  "decodeRowUpdate j = (if \<not> isStructJson j then decodeError else
     bind_go (decodeRowMember (jsonMember j ''new'')) (\<lambda>n.
     bind_go (decodeRowMember (jsonMember j ''old'')) (\<lambda>d.
     Ok \<lparr>ru_New = n, ru_Old = d\<rparr>)))"

definition decodeRowUpdates :: "json \<Rightarrow> (string, (string, RowUpdate) gomap) gomap go" where
  "decodeRowUpdates j = decMap (\<lambda>t. decMap decodeRowUpdate (Some t)) (Some j)"

text \<open>One entry per table, as the loop over the raw map makes them.\<close>

definition getTableUpdatesFromRawUnmarshal ::
    "(string, (string, RowUpdate) gomap) gomap \<Rightarrow> TableUpdates" where
  "getTableUpdatesFromRawUnmarshal raw = fold (\<lambda>(table, update). go_update table update) raw []"

section \<open>The client\<close>

record OvsdbClient =
  Schema :: "(string, DatabaseSchema) gomap"
  handlers :: nat

definition newOvsdbClient :: OvsdbClient where
  "newOvsdbClient = \<lparr>Schema = [], handlers = 0\<rparr>"

definition Register :: "OvsdbClient \<Rightarrow> OvsdbClient" where
  "Register ovs = ovs\<lparr>handlers := Suc (handlers ovs)\<rparr>"

definition ListDbs :: "('w, 'z) rpc_env_scheme \<Rightarrow> ('w, string list) gom" where
  "ListDbs env = tryG
     (bindG (rpc_call env ''list_dbs'' (JArr [JNull])) (\<lambda>j. liftG (decList (\<lambda>d. decString (Some d)) (Some j))))
     retG (\<lambda>e. liftG (Fatal ''ListDbs failure''))"

definition GetSchema ::
    "('w, 'z) rpc_env_scheme \<Rightarrow> OvsdbClient \<Rightarrow> string \<Rightarrow> ('w, DatabaseSchema \<times> OvsdbClient) gom" where
  "GetSchema env ovs dbName =
     bindG (rpc_call env ''get_schema'' (NewGetSchemaArgs dbName)) (\<lambda>j.
     bindG (liftG (decodeSchema j)) (\<lambda>reply.
     retG (reply, ovs\<lparr>Schema := go_update dbName reply (Schema ovs)\<rparr>)))"

text \<open>The loop of \<open>Connect\<close> over the databases of the server.\<close>

fun connectSchemas ::
    "('w, 'z) rpc_env_scheme \<Rightarrow> string list \<Rightarrow> OvsdbClient \<Rightarrow> ('w, OvsdbClient) gom" where
  "connectSchemas env [] ovs = retG ovs"
| "connectSchemas env (db # dbs) ovs =
     bindG (GetSchema env ovs db) (\<lambda>(schema, ovs').
     connectSchemas env dbs (ovs'\<lparr>Schema := go_update db schema (Schema ovs')\<rparr>))"

definition Connect :: "('w, 'z) rpc_env_scheme \<Rightarrow> string \<Rightarrow> int \<Rightarrow> ('w, OvsdbClient) gom" where
  "Connect env ipAddr port =
     (let addr = (if ipAddr = '''' then ''127.0.0.1'' else ipAddr);
          prt = (if port \<le> 0 then 6640 else port)
      in bindG (net_dial env (addr @ '':'' @ itoa prt)) (\<lambda>_.
         bindG (ListDbs env) (\<lambda>dbs. connectSchemas env dbs newOvsdbClient)))"

definition Transact ::
    "('w, 'z) rpc_env_scheme \<Rightarrow> OvsdbClient \<Rightarrow> string \<Rightarrow> Operation list \<Rightarrow> ('w, OperationResult list) gom" where
  "Transact env ovs database operation =
     (case go_lookup (Schema ovs) database of
        None \<Rightarrow> failG (ErrNew ''invalid Database Schema'')
      | Some db \<Rightarrow>
          if \<not> validateOperations db operation
          then failG (ErrNew ''Validation failed for the operation'')
          else bindG (rpc_call env ''transact'' (NewTransactArgs database operation)) (\<lambda>j.
               liftG (decList decodeResult (Some j))))"

definition Monitor ::
    "('w, 'z) rpc_env_scheme \<Rightarrow> string \<Rightarrow> gov \<Rightarrow> (string, MonitorRequest) gomap \<Rightarrow> ('w, TableUpdates) gom" where
  "Monitor env database jsonContext requests =
     bindG (rpc_call env ''monitor'' (NewMonitorArgs database jsonContext requests)) (\<lambda>j.
     bindG (liftG (decodeRowUpdates j)) (\<lambda>response.
     retG (getTableUpdatesFromRawUnmarshal response)))"

definition allChanges :: MonitorSelect where
  "allChanges = \<lparr>sel_Initial = True, sel_Insert = True, sel_Delete = True, sel_Modify = True\<rparr>"

definition monitorRequests :: "DatabaseSchema \<Rightarrow> (string, MonitorRequest) gomap" where
  "monitorRequests schema = fold (\<lambda>(table, tableSchema).
     go_update table \<lparr>req_Columns = map fst (tbl_Columns tableSchema), req_Select = allChanges\<rparr>)
     (db_Tables schema) []"

definition MonitorAll ::
    "('w, 'z) rpc_env_scheme \<Rightarrow> OvsdbClient \<Rightarrow> string \<Rightarrow> gov \<Rightarrow> ('w, TableUpdates) gom" where
  "MonitorAll env ovs database jsonContext =
     (case go_lookup (Schema ovs) database of
        None \<Rightarrow> failG (ErrNew ''invalid Database Schema'')
      | Some schema \<Rightarrow> Monitor env database jsonContext (monitorRequests schema))"

text \<open>
  The \<open>update\<close> notification: the table updates that every registered handler is called with.
  The parameters arrive decoded into \<open>interface{}\<close>; encoding and decoding them again leaves
  the document as it was.
\<close>

definition update_notification :: "json list \<Rightarrow> TableUpdates go" where
  "update_notification params =
     (if length params < 2 then Err (ErrNew ''Invalid Update message'')
      else (case params ! 1 of
          JObj raw \<Rightarrow> map_go_res getTableUpdatesFromRawUnmarshal (decodeRowUpdates (JObj raw))
        | _ \<Rightarrow> Err (ErrNew ''Invalid Update message'')))"

section \<open>Validation\<close>

lemma columnsKnown_iff: "columnsKnown t cs \<longleftrightarrow> set cs \<subseteq> dom (go_lookup (tbl_Columns t))"
  by (induction cs) (auto simp: has_key_def)

lemma rowsKnown_iff:
  "rowsKnown t rs \<longleftrightarrow> (\<Union>r \<in> set rs. fst ` set r) \<subseteq> dom (go_lookup (tbl_Columns t))"
  by (induction rs) (auto simp: columnsKnown_iff)

text \<open>The columns an operation mentions in its rows and its column list.\<close>

definition operationColumns :: "Operation \<Rightarrow> string set" where
  "operationColumns p =
     fst ` set (op_Row p) \<union> (\<Union>r \<in> set (op_Rows p). fst ` set r) \<union> set (op_Columns p)"

definition fitsSchema :: "DatabaseSchema \<Rightarrow> Operation \<Rightarrow> bool" where
  "fitsSchema db p \<longleftrightarrow> (\<exists>t. go_lookup (db_Tables db) (op_Table p) = Some t \<and>
     operationColumns p \<subseteq> dom (go_lookup (tbl_Columns t)))"

lemma validateOperations_fits: "validateOperations db ps = list_all (fitsSchema db) ps"
proof (induction ps)
  case (Cons p ps)
  then show ?case
    by (auto simp: fitsSchema_def operationColumns_def columnsKnown_iff rowsKnown_iff
        split: option.splits)
qed simp

text \<open>A transaction that does not fit the schema never reaches the server.\<close>

lemma Transact_invalid:
  assumes "\<not> (\<exists>db. go_lookup (Schema ovs) database = Some db \<and> list_all (fitsSchema db) ps)"
  shows "\<exists>e. Transact env ovs database ps w = (Err e, w)"
  using assms
  by (auto simp: Transact_def failG_def validateOperations_fits split: option.splits)

lemma Transact_valid:
  assumes "go_lookup (Schema ovs) database = Some db" "list_all (fitsSchema db) ps"
  shows "Transact env ovs database ps =
    bindG (rpc_call env ''transact'' (NewTransactArgs database ps))
      (\<lambda>j. liftG (decList decodeResult (Some j)))"
  using assms by (simp add: Transact_def validateOperations_fits)

section \<open>Monitoring\<close>

lemma fold_update_map:
  "fold (\<lambda>(k, v). go_update k (f v)) kvs m = fold (\<lambda>(k, v). go_update k v) (map (\<lambda>(k, v). (k, f v)) kvs) m"
  by (induction kvs arbitrary: m) (auto simp: case_prod_unfold)

lemma lookup_monitorRequests:
  assumes "wf_gomap (db_Tables schema)"
  shows "go_lookup (monitorRequests schema) table =
    map_option (\<lambda>t. \<lparr>req_Columns = map fst (tbl_Columns t), req_Select = allChanges\<rparr>)
      (go_lookup (db_Tables schema) table)"
proof -
  let ?f = "\<lambda>t. \<lparr>req_Columns = map fst (tbl_Columns t), req_Select = allChanges\<rparr>"
  let ?kvs = "map (\<lambda>(k, t). (k, ?f t)) (db_Tables schema)"
  have "distinct (map fst ?kvs)"
    using assms by (simp add: wf_gomap_def comp_def case_prod_unfold)
  then have "monitorRequests schema = ?kvs"
    unfolding monitorRequests_def fold_update_map [of ?f "db_Tables schema"]
    using fold_update_distinct [of "[]" ?kvs] by simp
  then show ?thesis by (simp only: go_lookup_map)
qed

lemma getTableUpdates_id:
  "wf_gomap raw \<Longrightarrow> getTableUpdatesFromRawUnmarshal raw = raw"
  using fold_update_distinct [of "[]" raw] by (simp add: getTableUpdatesFromRawUnmarshal_def wf_gomap_def)

section \<open>Notifications on the wire\<close>

text \<open>How a server writes an update (RFC 7047, section 4.1.6).\<close>

definition marshalRowUpdate :: "RowUpdate \<Rightarrow> json" where
  "marshalRowUpdate ru = JObj (omitempty (ru_New ru = emptyRow) ''new'' (marshalRow (ru_New ru)) @
     omitempty (ru_Old ru = emptyRow) ''old'' (marshalRow (ru_Old ru)))"

definition marshalTableUpdate :: "TableUpdate \<Rightarrow> json" where
  "marshalTableUpdate tu = JObj (map (\<lambda>(u, ru). (u, marshalRowUpdate ru)) tu)"

definition marshalUpdates :: "TableUpdates \<Rightarrow> json" where
  "marshalUpdates us = JObj (map (\<lambda>(t, tu). (t, marshalTableUpdate tu)) us)"

definition wire_row :: "ovs_row \<Rightarrow> bool" where
  "wire_row r \<longleftrightarrow> r = emptyRow \<or> ovs_row_value r"

definition wire_updates :: "TableUpdates \<Rightarrow> bool" where
  "wire_updates us \<longleftrightarrow> wf_gomap us \<and> list_all (\<lambda>(t, tu). wf_gomap tu \<and>
     list_all (\<lambda>(u, ru). wire_row (ru_New ru) \<and> wire_row (ru_Old ru)) tu) us"

lemma traverse_pairs:
  assumes "\<And>k v. (k, v) \<in> set kvs \<Longrightarrow> dec (enc v) = Ok v"
  shows "traverse_go (\<lambda>(k, j). map_go_res (Pair k) (dec j)) (map (\<lambda>(k, v). (k, enc v)) kvs) = Ok kvs"
  using assms
proof (induction kvs)
  case (Cons p kvs)
  obtain k v where p: "p = (k, v)" by fastforce
  with Cons.prems have "dec (enc v) = Ok v" by (meson list.set_intros(1))
  moreover have "traverse_go (\<lambda>(k, j). map_go_res (Pair k) (dec j)) (map (\<lambda>(k, v). (k, enc v)) kvs) = Ok kvs"
    using Cons.prems by (intro Cons.IH) (meson list.set_intros(2))
  ultimately show ?case by (simp add: p)
qed simp

lemma decMap_pairs:
  assumes "wf_gomap kvs" "\<And>k v. (k, v) \<in> set kvs \<Longrightarrow> dec (enc v) = Ok v"
  shows "decMap dec (Some (JObj (map (\<lambda>(k, v). (k, enc v)) kvs))) = Ok kvs"
proof -
  have "go_of_list (map (\<lambda>(k, v). (k, enc v)) kvs) = map (\<lambda>(k, v). (k, enc v)) kvs"
    using assms(1) by (intro go_of_list_distinct) (simp add: wf_gomap_def comp_def case_prod_unfold)
  then show ?thesis using traverse_pairs [of kvs dec enc] assms(2) by simp
qed

lemma decodeRowMember_wire:
  "wire_row r \<Longrightarrow> decodeRowMember (if r = emptyRow then None else Some (marshalRow r)) = Ok r"
  by (auto simp: wire_row_def decodeRowMember_def row_wire)

lemma decodeRowUpdate_wire:
  assumes "wire_row (ru_New ru)" "wire_row (ru_Old ru)"
  shows "decodeRowUpdate (marshalRowUpdate ru) = Ok ru"
proof -
  have "jsonMember (marshalRowUpdate ru) ''new'' = (if ru_New ru = emptyRow then None else Some (marshalRow (ru_New ru)))"
    and "jsonMember (marshalRowUpdate ru) ''old'' = (if ru_Old ru = emptyRow then None else Some (marshalRow (ru_Old ru)))"
    by (auto simp: marshalRowUpdate_def omitempty_def go_of_list_def)
  moreover have "isStructJson (marshalRowUpdate ru)" by (simp add: marshalRowUpdate_def)
  ultimately show ?thesis using assms by (simp add: decodeRowUpdate_def decodeRowMember_wire)
qed

lemma decodeTableUpdate_wire:
  assumes "wf_gomap tu" "list_all (\<lambda>(u, ru). wire_row (ru_New ru) \<and> wire_row (ru_Old ru)) tu"
  shows "decMap decodeRowUpdate (Some (marshalTableUpdate tu)) = Ok tu"
  unfolding marshalTableUpdate_def
  using assms by (intro decMap_pairs) (auto simp: list_all_iff intro!: decodeRowUpdate_wire)

lemma decodeRowUpdates_wire:
  assumes "wire_updates us"
  shows "decodeRowUpdates (marshalUpdates us) = Ok us"
  unfolding decodeRowUpdates_def marshalUpdates_def
  using assms by (intro decMap_pairs) (auto simp: wire_updates_def list_all_iff intro!: decodeTableUpdate_wire)

lemma update_notification_wire:
  assumes "wire_updates us"
  shows "update_notification [context, marshalUpdates us] = Ok us"
proof -
  obtain kvs where kvs: "marshalUpdates us = JObj kvs" by (simp add: marshalUpdates_def)
  with decodeRowUpdates_wire [OF assms] have "decodeRowUpdates (JObj kvs) = Ok us" by simp
  moreover have "getTableUpdatesFromRawUnmarshal us = us"
    using assms by (intro getTableUpdates_id) (simp add: wire_updates_def)
  ultimately show ?thesis by (simp add: update_notification_def kvs)
qed

section \<open>Properties\<close>

text \<open>C20. A transaction reaches the server exactly when every operation names a table of the schema
  and only columns of that table; it is then sent as one call, and otherwise nothing is sent and
  an error is returned.\<close>

theorem Transact_validates:
  "Transact env ovs database ps w =
     (case go_lookup (Schema ovs) database of
        None \<Rightarrow> (Err (ErrNew ''invalid Database Schema''), w)
      | Some db \<Rightarrow>
          if list_all (fitsSchema db) ps
          then (case rpc_call env ''transact'' (JArr (JString database # map marshalOperation ps)) w of
                  (Ok j, w') \<Rightarrow> (decList decodeResult (Some j), w')
                | (Err e, w') \<Rightarrow> (Err e, w') | (Panic p, w') \<Rightarrow> (Panic p, w') | (Fatal m, w') \<Rightarrow> (Fatal m, w'))
          else (Err (ErrNew ''Validation failed for the operation''), w))"
  by (auto simp: Transact_def validateOperations_fits failG_def bindG_def tryG_def liftG_def
      NewTransactArgs_def split: option.splits go.splits prod.splits)

text \<open>MonitorAll subscribes to every column of every table of the schema, with all four kinds of
  change.\<close>

lemma monitorRequests_complete:
  assumes "wf_gomap (db_Tables schema)"
  shows "go_lookup (monitorRequests schema) table =
    (case go_lookup (db_Tables schema) table of
       None \<Rightarrow> None
     | Some t \<Rightarrow> Some \<lparr>req_Columns = map fst (tbl_Columns t),
         req_Select = \<lparr>sel_Initial = True, sel_Insert = True, sel_Delete = True, sel_Modify = True\<rparr>\<rparr>)"
  using lookup_monitorRequests [OF assms, of table] by (simp add: allChanges_def split: option.splits)

end
