(* ===== verification/Net_IP.thy ===== *)
theory Net_IP
  imports Go_Prelude
begin

text \<open>
  The part of Go's package \<open>net\<close> that the sources use for addresses: \<open>IP\<close>, \<open>IPMask\<close> and \<open>IPNet\<close>,
  \<open>ParseIP\<close> and \<open>ParseCIDR\<close>, and their texts. It is the standard library of the language, as of
  Go 1.4, and not code of the repository.

  An \<open>IP\<close> is the list of its bytes. The last section shows that the text of an address with its
  prefix length is parsed back, for IPv4 and for IPv6 with its shortened forms.
\<close>

unbundle bit_operations_syntax

section \<open>Addresses and masks\<close>

record ipnet =
  net_IP :: bytes
  net_Mask :: bytes

text \<open>\<open>net.IP.To4\<close>, \<open>net.IP.To16\<close>, and hexadecimal bytes.\<close>

definition To4 :: "bytes \<Rightarrow> bytes option" where
  "To4 ip =
     (if length ip = 4 then Some ip
      else if length ip = 16 \<and> take 12 ip = replicate 10 0 @ [0xff, 0xff] then Some (drop 12 ip)
      else None)"

definition hexDigit :: "nat \<Rightarrow> char" where
  "hexDigit d = ''0123456789abcdef'' ! d"

definition hexByte :: "8 word \<Rightarrow> string" where
  "hexByte b = [hexDigit (unat b div 16), hexDigit (unat b mod 16)]"

definition To16 :: "bytes \<Rightarrow> bytes option" where
  "To16 ip = (if length ip = 4 then Some (replicate 10 0 @ [0xff, 0xff] @ ip)
     else if length ip = 16 then Some ip else None)"

definition maskBits :: "bytes \<Rightarrow> bool list" where
  "maskBits m = concat (map (\<lambda>b. map (\<lambda>i. bit b (7 - i)) [0 ..< 8]) m)"

text \<open>\<open>IPMask.Size\<close>: the number of leading ones, or 0 when a one follows a zero.\<close>

definition maskSize :: "bytes \<Rightarrow> nat" where
  "maskSize m = (let n = length (takeWhile id (maskBits m))
     in if list_all Not (drop n (maskBits m)) then n else 0)"

text \<open>\<open>net.CIDRMask\<close>; a mask that does not exist is empty.\<close>

definition maskByte :: "nat \<Rightarrow> 8 word" where
  "maskByte n = NOT (mask (8 - min n 8))"

definition CIDRMask :: "nat \<Rightarrow> nat \<Rightarrow> bytes" where
  "CIDRMask ones nbits = (if nbits \<noteq> 32 \<and> nbits \<noteq> 128 \<or> ones > nbits then []
     else map (\<lambda>i. maskByte (ones - 8 * i)) [0 ..< nbits div 8])"

section \<open>Parsing\<close>

definition v4InV6Prefix :: bytes where
  "v4InV6Prefix = replicate 10 0 @ [0xff, 0xff]"

text \<open>\<open>dtoi\<close> on a whole string.\<close>

definition dtoi :: "string \<Rightarrow> nat option" where
  "dtoi s = (if s = [] \<or> \<not> list_all isDigit s \<or> digitsValue s \<ge> 0xFFFFFF then None else Some (digitsValue s))"

definition parseIPv4 :: "string \<Rightarrow> bytes option" where
  "parseIPv4 s = (case map dtoi (splitOn (CHR ''.'') s) of
       [Some a, Some b, Some c, Some d] \<Rightarrow>
         if a \<le> 255 \<and> b \<le> 255 \<and> c \<le> 255 \<and> d \<le> 255 then Some (v4InV6Prefix @ map of_nat [a, b, c, d]) else None
     | _ \<Rightarrow> None)"

definition hexVal :: "char \<Rightarrow> nat option" where
  "hexVal c = (let n = of_char c :: nat in
     if 48 \<le> n \<and> n \<le> 57 then Some (n - 48)
     else if 97 \<le> n \<and> n \<le> 102 then Some (n - 87)
     else if 65 \<le> n \<and> n \<le> 70 then Some (n - 55) else None)"

definition isHex :: "char \<Rightarrow> bool" where
  "isHex c \<longleftrightarrow> hexVal c \<noteq> None"

definition hexValue :: "string \<Rightarrow> nat" where
  "hexValue ds = foldl (\<lambda>n c. n * 16 + (case hexVal c of Some d \<Rightarrow> d | None \<Rightarrow> 0)) 0 ds"

definition groupBytes :: "nat \<Rightarrow> bytes" where
  "groupBytes n = [of_nat (n div 256), of_nat n]"

text \<open>
  The loop of \<open>parseIPv6\<close>: the bytes so far, the position of the ellipsis and what is left of the
  text. It is left with the bytes, the ellipsis and the rest, or without an address.
\<close>

function parseGroups :: "bytes \<Rightarrow> nat option \<Rightarrow> string \<Rightarrow> (bytes \<times> nat option \<times> string) option" where
  "parseGroups ip ellipsis s = (if length ip \<ge> 16 then Some (ip, ellipsis, s) else
     let h = takeWhile isHex s; n = hexValue h; ip' = ip @ groupBytes n in
     if h = [] \<or> n > 0xFFFF then None else
     (case dropWhile isHex s of
        [] \<Rightarrow> Some (ip', ellipsis, [])
      | c # r \<Rightarrow>
          if c = CHR ''.'' then
            (if ellipsis = None \<and> length ip \<noteq> 12 \<or> length ip + 4 > 16 then None
             else (case parseIPv4 s of None \<Rightarrow> None | Some ip4 \<Rightarrow> Some (ip @ drop 12 ip4, ellipsis, [])))
          else if c \<noteq> CHR '':'' \<or> r = [] then None
          else if hd r = CHR '':'' then
            (if ellipsis \<noteq> None then None
             else if tl r = [] then Some (ip', Some (length ip'), [])
             else parseGroups ip' (Some (length ip')) (tl r))
          else parseGroups ip' ellipsis r))"
  by auto
termination
  by (relation "measure (\<lambda>(ip, _, _). 16 - length ip)") (auto simp: groupBytes_def)

declare parseGroups.simps [simp del]

definition expandEllipsis :: "bytes \<times> nat option \<times> string \<Rightarrow> bytes option" where
  "expandEllipsis x = (case x of (ip, ellipsis, rest) \<Rightarrow>
     if rest \<noteq> [] then None
     else if length ip < 16 then
       (case ellipsis of None \<Rightarrow> None
        | Some e \<Rightarrow> Some (take e ip @ replicate (16 - length ip) 0 @ drop e ip))
     else if ellipsis \<noteq> None then None else Some ip)"

definition parseIPv6 :: "string \<Rightarrow> bytes option" where
  "parseIPv6 s = (if take 2 s = ''::'' then
       (if drop 2 s = [] then Some (replicate 16 0)
        else Option.bind (parseGroups [] (Some 0) (drop 2 s)) expandEllipsis)
     else Option.bind (parseGroups [] None s) expandEllipsis)"

text \<open>\<open>ParseIP\<close>, with nil as \<open>None\<close>.\<close>

definition ParseIP :: "string \<Rightarrow> bytes option" where
  "ParseIP s = (case parseIPv4 s of Some ip \<Rightarrow> Some ip | None \<Rightarrow> parseIPv6 s)"

text \<open>\<open>IP.Mask\<close>\<close>

definition ipMask :: "bytes \<Rightarrow> bytes \<Rightarrow> bytes" where
  "ipMask ip m =
     (let m' = (if length m = 16 \<and> length ip = 4 \<and> take 12 m = replicate 12 0xff then drop 12 m else m);
          ip' = (if length m' = 4 \<and> length ip = 16 \<and> take 12 ip = v4InV6Prefix then drop 12 ip else ip)
      in if length ip' \<noteq> length m' then [] else map2 (\<lambda>a b. a AND b) ip' m')"

definition cidrOf :: "bytes \<Rightarrow> nat \<Rightarrow> nat \<Rightarrow> (bytes \<times> ipnet) option" where
  "cidrOf ip iplen n = (if n > 8 * iplen then None else
     let m = CIDRMask n (8 * iplen) in Some (ip, \<lparr>net_IP = ipMask ip m, net_Mask = m\<rparr>))"

definition ParseCIDR :: "string \<Rightarrow> (bytes \<times> ipnet) go" where
  "ParseCIDR s =
     (let addr = takeWhile (\<lambda>c. c \<noteq> CHR ''/'') s; rest = dropWhile (\<lambda>c. c \<noteq> CHR ''/'') s;
          e = Err (Errorf ''invalid CIDR address: %s'' [EStr s])
      in if rest = [] then e
         else (case dtoi (tl rest) of
             None \<Rightarrow> e
           | Some n \<Rightarrow>
               (case (case parseIPv4 addr of
                        Some ip \<Rightarrow> cidrOf ip 4 n
                      | None \<Rightarrow> Option.bind (parseIPv6 addr) (\<lambda>ip. cidrOf ip 16 n)) of
                  None \<Rightarrow> e | Some x \<Rightarrow> Ok x)))"

section \<open>Printing\<close>

fun hexDigits :: "nat \<Rightarrow> string" where
  "hexDigits n = (if n < 16 then [hexDigit n] else hexDigits (n div 16) @ [hexDigit (n mod 16)])"

declare hexDigits.simps [simp del]

fun ipGroups :: "bytes \<Rightarrow> nat list" where
  "ipGroups (a # b # p) = (unat a * 256 + unat b) # ipGroups p"
| "ipGroups _ = []"

definition zeroRun :: "nat list \<Rightarrow> nat \<Rightarrow> nat" where
  "zeroRun gs i = length (takeWhile (\<lambda>g. g = 0) (drop i gs))"

text \<open>The first of the longest runs of zeros: its position and its length.\<close>

definition longestRun :: "nat list \<Rightarrow> nat \<times> nat" where
  "longestRun gs = fold (\<lambda>i (e, l). if zeroRun gs i > l then (i, zeroRun gs i) else (e, l)) [0 ..< length gs] (0, 0)"

definition joinGroups :: "nat list \<Rightarrow> string" where
  "joinGroups gs = joinWith '':'' (map hexDigits gs)"

definition ipv6String :: "nat list \<Rightarrow> string" where
  "ipv6String gs = (case longestRun gs of (e, l) \<Rightarrow>
     if l \<le> 1 then joinGroups gs else joinGroups (take e gs) @ ''::'' @ joinGroups (drop (e + l) gs))"

definition ipv4String :: "bytes \<Rightarrow> string" where
  "ipv4String ip = joinWith ''.'' (map (\<lambda>b. itoa (uint b)) ip)"

text \<open>\<open>IP.String\<close>; nil is the empty address.\<close>

definition IPString :: "bytes option \<Rightarrow> string" where
  "IPString x = (case x of
       None \<Rightarrow> ''<nil>''
     | Some ip \<Rightarrow> if ip = [] then ''<nil>'' else
         (case To4 ip of
            Some p4 \<Rightarrow> ipv4String p4
          | None \<Rightarrow> if length ip \<noteq> 16 then ''?'' else ipv6String (ipGroups ip)))"

text \<open>\<open>simpleMaskLength\<close> and \<open>IPNet.String\<close>; a mask that is no prefix is printed in hexadecimal.\<close>

definition simpleMaskLength :: "bytes \<Rightarrow> nat option" where
  "simpleMaskLength m = (let n = length (takeWhile id (maskBits m))
     in if list_all Not (drop n (maskBits m)) then Some n else None)"

definition networkNumberAndMask :: "ipnet \<Rightarrow> (bytes \<times> bytes) option" where
  "networkNumberAndMask net =
     (let m = net_Mask net in
      case To4 (net_IP net) of
        Some ip \<Rightarrow> if length m = 4 then Some (ip, m) else if length m = 16 then Some (ip, drop 12 m) else None
      | None \<Rightarrow> if length (net_IP net) = 16 \<and> length m = 16 then Some (net_IP net, m) else None)"

definition IPNetString :: "ipnet \<Rightarrow> string" where
  "IPNetString net = (case networkNumberAndMask net of
       None \<Rightarrow> ''<nil>''
     | Some (nn, m) \<Rightarrow> IPString (Some nn) @ ''/'' @
         (case simpleMaskLength m of None \<Rightarrow> concat (map hexByte m) | Some l \<Rightarrow> itoa (int l)))"

section \<open>Masks of a given length\<close>

lemma bit_maskByte: "j < 8 \<Longrightarrow> bit (maskByte n) (7 - j) \<longleftrightarrow> j < n"
  by (auto simp: maskByte_def bit_simps)

lemma maskBits_CIDR: "maskBits (map (\<lambda>i. maskByte (n - 8 * i)) [0 ..< m]) = map (\<lambda>k. k < n) [0 ..< 8 * m]"
proof (induction m)
  case (Suc m)
  have "map (\<lambda>j. bit (maskByte (n - 8 * m)) (7 - j)) [0 ..< 8] = map (\<lambda>j. j < n - 8 * m) [0 ..< 8]"
    by (intro map_cong) (auto simp: bit_maskByte)
  also have "\<dots> = map (\<lambda>k. k < n) [8 * m ..< 8 * Suc m]"
    by (simp add: upt_rec numeral_eq_Suc) (auto simp: less_diff_conv)
  finally have "map (\<lambda>j. bit (maskByte (n - 8 * m)) (7 - j)) [0 ..< 8] = map (\<lambda>k. k < n) [8 * m ..< 8 * Suc m]" .
  moreover have "[0 ..< 8 * Suc m] = [0 ..< 8 * m] @ [8 * m ..< 8 * Suc m]"
    using upt_add_eq_append [of 0 "8 * m" 8] by (simp add: add.commute)
  ultimately show ?case using Suc by (simp add: maskBits_def del: mult_Suc_right)
qed (simp add: maskBits_def)

lemma map_less_upt: "n \<le> m \<Longrightarrow> map (\<lambda>k. k < n) [0 ..< m] = replicate n True @ replicate (m - n) False"
  by (rule nth_equalityI) (auto simp: nth_append)

lemma maskSize_CIDRMask:
  assumes "nbits = 32 \<or> nbits = 128" "n \<le> nbits"
  shows "maskSize (CIDRMask n nbits) = n"
proof -
  have b: "maskBits (CIDRMask n nbits) = map (\<lambda>k. k < n) [0 ..< nbits]"
    using assms maskBits_CIDR [of n "nbits div 8"] by (auto simp: CIDRMask_def)
  then show ?thesis
    using assms(2) by (simp add: maskSize_def map_less_upt takeWhile_append list_all_iff)
qed

section \<open>Hexadecimal groups\<close>

lemma hexVal_hexDigit: "d < 16 \<Longrightarrow> hexVal (hexDigit d) = Some d"
proof -
  have "list_all (\<lambda>d. hexVal (hexDigit d) = Some d) [0 ..< 16]" by code_simp
  then show "d < 16 \<Longrightarrow> hexVal (hexDigit d) = Some d" by (auto simp: list_all_iff)
qed

lemma isHex_hexDigit [simp]: "d < 16 \<Longrightarrow> isHex (hexDigit d)"
  by (simp add: isHex_def hexVal_hexDigit)

lemma isHex_not: "isHex c \<Longrightarrow> c \<notin> {CHR '':'', CHR ''.'', CHR ''/'', CHR '' ''}"
  by (auto simp: isHex_def hexVal_def)

lemma hexDigits_hex: "list_all isHex (hexDigits n) \<and> hexDigits n \<noteq> []"
proof (induction n rule: hexDigits.induct)
  case (1 n)
  then show ?case using hexDigits.simps [of n] by auto
qed

lemma hexValue_snoc: "hexValue (ds @ [c]) = hexValue ds * 16 + (case hexVal c of Some d \<Rightarrow> d | None \<Rightarrow> 0)"
  by (simp add: hexValue_def)

lemma hexValue_hexDigits: "hexValue (hexDigits n) = n"
proof (induction n rule: hexDigits.induct)
  case (1 n)
  show ?case
  proof (cases "n < 16")
    case True
    then show ?thesis by (subst hexDigits.simps) (simp add: hexValue_def hexVal_hexDigit)
  next
    case False
    with 1 show ?thesis by (subst hexDigits.simps) (simp add: hexValue_snoc hexVal_hexDigit)
  qed
qed

lemma hexDigits_prefix:
  assumes "rest = [] \<or> \<not> isHex (hd rest)"
  shows "takeWhile isHex (hexDigits n @ rest) = hexDigits n" "dropWhile isHex (hexDigits n @ rest) = rest"
  using hexDigits_hex [of n] assms
  by (auto simp: list_all_iff takeWhile_append dropWhile_append takeWhile_eq_Nil_iff dropWhile_eq_self_iff)

lemma hexDigits_whole: "takeWhile isHex (hexDigits n) = hexDigits n" "dropWhile isHex (hexDigits n) = []"
  using hexDigits_hex [of n] by (simp_all add: list_all_iff)

lemma parseGroups_last:
  "length ip < 16 \<Longrightarrow> n \<le> 0xFFFF \<Longrightarrow> parseGroups ip e (hexDigits n) = Some (ip @ groupBytes n, e, [])"
  using hexDigits_hex [of n] by (subst parseGroups.simps) (simp add: hexDigits_whole hexValue_hexDigits Let_def)

lemma not_isHex [simp]: "\<not> isHex (CHR '':'')" "\<not> isHex (CHR ''.'')" "\<not> isHex (CHR ''/'')"
  using isHex_not by auto

lemma parseGroups_next:
  "length ip < 16 \<Longrightarrow> n \<le> 0xFFFF \<Longrightarrow> r \<noteq> [] \<Longrightarrow> hd r \<noteq> CHR '':'' \<Longrightarrow>
   parseGroups ip e (hexDigits n @ CHR '':'' # r) = parseGroups (ip @ groupBytes n) e r"
  using hexDigits_prefix [of "CHR '':'' # r" n] hexDigits_hex [of n]
  by (subst parseGroups.simps) (simp add: hexValue_hexDigits Let_def)

lemma parseGroups_ellipsis:
  "length ip < 16 \<Longrightarrow> n \<le> 0xFFFF \<Longrightarrow>
   parseGroups ip None (hexDigits n @ CHR '':'' # CHR '':'' # r) =
     (if r = [] then Some (ip @ groupBytes n, Some (length ip + 2), [])
      else parseGroups (ip @ groupBytes n) (Some (length ip + 2)) r)"
  using hexDigits_prefix [of "CHR '':'' # CHR '':'' # r" n] hexDigits_hex [of n]
  by (subst parseGroups.simps) (simp add: hexValue_hexDigits groupBytes_def Let_def)

section \<open>Groups and their text\<close>

definition small :: "nat list \<Rightarrow> bool" where
  "small gs \<longleftrightarrow> list_all (\<lambda>g. g \<le> 0xFFFF) gs"

definition groupsBytes :: "nat list \<Rightarrow> bytes" where
  "groupsBytes gs = concat (map groupBytes gs)"

lemma groupsBytes_simps [simp]:
  "groupsBytes [] = []" "groupsBytes (g # gs) = groupBytes g @ groupsBytes gs"
  "groupsBytes (gs @ hs) = groupsBytes gs @ groupsBytes hs"
  by (simp_all add: groupsBytes_def)

lemma length_groupBytes [simp]: "length (groupBytes g) = 2"
  by (simp add: groupBytes_def)

lemma length_groupsBytes [simp]: "length (groupsBytes gs) = 2 * length gs"
  by (induction gs) simp_all

lemma joinGroups_simps:
  "joinGroups [g] = hexDigits g" "gs \<noteq> [] \<Longrightarrow> joinGroups (g # gs) = hexDigits g @ CHR '':'' # joinGroups gs"
  by (simp_all add: joinGroups_def neq_Nil_conv) (auto simp: neq_Nil_conv)

lemma joinGroups_hd: "gs \<noteq> [] \<Longrightarrow> joinGroups gs \<noteq> [] \<and> isHex (hd (joinGroups gs))"
proof (induction gs)
  case (Cons g gs)
  then show ?case using hexDigits_hex [of g]
    by (cases "gs = []") (auto simp: joinGroups_simps list_all_iff hd_append)
qed simp

lemma parseGroups_join:
  "gs \<noteq> [] \<Longrightarrow> small gs \<Longrightarrow> length ip + 2 * length gs \<le> 16 \<Longrightarrow>
   parseGroups ip e (joinGroups gs) = Some (ip @ groupsBytes gs, e, [])"
proof (induction gs arbitrary: ip)
  case (Cons g gs)
  show ?case
  proof (cases "gs = []")
    case False
    with joinGroups_hd [of gs] have "joinGroups gs \<noteq> []" "hd (joinGroups gs) \<noteq> CHR '':''" by auto
    with Cons False show ?thesis
      by (simp add: joinGroups_simps parseGroups_next small_def)
  qed (use Cons in \<open>simp add: joinGroups_simps parseGroups_last small_def\<close>)
qed simp

lemma parseGroups_join_ellipsis:
  assumes "gs \<noteq> []" "small gs" "small hs" "length ip + 2 * length gs + 2 * length hs < 16"
  shows "parseGroups ip None (joinGroups gs @ ''::'' @ joinGroups hs) =
    Some (ip @ groupsBytes gs @ groupsBytes hs, Some (length ip + 2 * length gs), [])"
  using assms
proof (induction gs arbitrary: ip)
  case (Cons g gs)
  show ?case
  proof (cases "gs = []")
    case True
    show ?thesis
    proof (cases "hs = []")
      case False
      with Cons True joinGroups_hd [of hs] show ?thesis
        by (simp add: joinGroups_simps parseGroups_ellipsis parseGroups_join small_def)
    qed (use Cons True in \<open>simp add: joinGroups_simps parseGroups_ellipsis small_def, simp add: joinGroups_def\<close>)
  next
    case False
    with joinGroups_hd [of gs] have "joinGroups gs \<noteq> []" "hd (joinGroups gs @ ''::'' @ joinGroups hs) \<noteq> CHR '':''" by auto
    with Cons False show ?thesis
      using parseGroups_next [of ip g "joinGroups gs @ ''::'' @ joinGroups hs" None]
      by (simp add: joinGroups_simps small_def)
  qed
qed simp

section \<open>Texts are parsed back\<close>

lemma zeroRun_zeros: "take (zeroRun gs i) (drop i gs) = replicate (zeroRun gs i) 0"
proof -
  have "takeWhile (\<lambda>g. g = 0) xs = replicate (length (takeWhile (\<lambda>g. g = 0) xs)) (0::nat)" for xs
    by (induction xs) auto
  then show ?thesis by (metis zeroRun_def takeWhile_eq_take)
qed

lemma zeroRun_bound: "i + zeroRun gs i \<le> length gs \<or> zeroRun gs i = 0"
  using length_takeWhile_le [of "\<lambda>g. g = 0" "drop i gs"] by (cases "i \<le> length gs") (auto simp: zeroRun_def)

lemma longestRun_zeros:
  assumes "longestRun gs = (e, l)"
  shows "take l (drop e gs) = replicate l 0 \<and> (e + l \<le> length gs \<or> l = 0)"
proof -
  define good where "good = (\<lambda>(e, l). take l (drop e gs) = replicate l 0 \<and> (e + l \<le> length gs \<or> l = 0))"
  define step where "step = (\<lambda>i (e, l). if zeroRun gs i > l then (i, zeroRun gs i) else (e, l))"
  have "good x \<Longrightarrow> good (step i x)" for i x
    using zeroRun_zeros [of gs i] zeroRun_bound [of i gs] by (cases x) (auto simp: good_def step_def)
  then have "good x \<Longrightarrow> good (fold step is x)" for "is" x
    by (induction "is" arbitrary: x) simp_all
  from this [of "(0, 0)" "[0 ..< length gs]"] assms show ?thesis
    by (simp add: good_def step_def longestRun_def)
qed

lemma ipGroups_small: "small (ipGroups ip)"
proof (induction ip rule: ipGroups.induct)
  case (1 a b p)
  have "unat a < 256" "unat b < 256" using unsigned_less [of a] unsigned_less [of b] by simp_all
  with 1 show ?case by (simp add: small_def)
qed (simp_all add: small_def)

lemma groupBytes_pair: "groupBytes (unat a * 256 + unat b) = [a, b]"
proof -
  have "unat b < 256" using unsigned_less [of b] by simp
  moreover have "(of_nat (unat a * 256 + unat b) :: 8 word) = of_nat (unat a) * 256 + b" by simp
  moreover have "(256 :: 8 word) = 0" by simp
  then have "a * 256 = 0" by (metis mult_zero_right)
  ultimately show ?thesis by (simp add: groupBytes_def)
qed

lemma groupsBytes_ipGroups: "even (length ip) \<Longrightarrow> groupsBytes (ipGroups ip) = ip"
  by (induction ip rule: ipGroups.induct) (simp_all add: groupBytes_pair)

lemma length_ipGroups: "length (ipGroups ip) = length ip div 2"
  by (induction ip rule: ipGroups.induct) simp_all

lemma groupsBytes_zeros: "groupsBytes (replicate n 0) = replicate (2 * n) 0"
  by (induction n) (simp_all add: groupBytes_def)

lemma small_take_drop: "small gs \<Longrightarrow> small (take n gs) \<and> small (drop n gs)"
  by (auto simp: small_def list_all_iff dest: in_set_takeD in_set_dropD)

lemma run_split:
  assumes "longestRun gs = (e, l)" "l > 1"
  shows "gs = take e gs @ replicate l 0 @ drop (e + l) gs" "e + l \<le> length gs"
proof -
  have "drop e gs = take l (drop e gs) @ drop (e + l) gs"
    using append_take_drop_id [of l "drop e gs"] by (simp add: add.commute del: append_take_drop_id)
  then show "gs = take e gs @ replicate l 0 @ drop (e + l) gs"
    using longestRun_zeros [OF assms(1)] append_take_drop_id [of e gs] by metis
qed (use longestRun_zeros [OF assms(1)] assms(2) in simp)

lemma parseIPv6_String:
  assumes "length gs = 8" "small gs"
  shows "parseIPv6 (ipv6String gs) = Some (groupsBytes gs)"
proof -
  obtain e l where r: "longestRun gs = (e, l)" by fastforce
  have start: "take 2 (joinGroups xs @ ys) \<noteq> ''::''" if "xs \<noteq> []" for xs ys
    using joinGroups_hd [OF that] by (cases "joinGroups xs") auto
  show ?thesis
  proof (cases "l \<le> 1")
    case True
    have "gs \<noteq> []" using assms(1) by auto
    with True r assms start [of gs "[]"] show ?thesis
      by (simp add: ipv6String_def parseIPv6_def parseGroups_join expandEllipsis_def)
  next
    case False
    then have split: "gs = take e gs @ replicate l 0 @ drop (e + l) gs" and le: "e + l \<le> length gs"
      using run_split [OF r] by simp_all
    have bytes: "groupsBytes gs = groupsBytes (take e gs) @ replicate (2 * l) 0 @ groupsBytes (drop (e + l) gs)"
      using arg_cong [OF split, of groupsBytes] by (simp add: groupsBytes_zeros)
    have s: "ipv6String gs = joinGroups (take e gs) @ ''::'' @ joinGroups (drop (e + l) gs)"
      using False r by (simp add: ipv6String_def)
    have sm: "small (take e gs)" "small (drop (e + l) gs)" using small_take_drop [OF assms(2)] by auto
    show ?thesis
    proof (cases "e = 0")
      case True
      show ?thesis
      proof (cases "drop l gs = []")
        case True
        with \<open>e = 0\<close> le assms(1) have "l = 8" by simp
        with s bytes \<open>e = 0\<close> assms(1) show ?thesis by (simp add: parseIPv6_def joinGroups_def)
      next
        case False
        with s bytes \<open>e = 0\<close> sm le assms(1) \<open>\<not> l \<le> 1\<close> joinGroups_hd [of "drop l gs"] show ?thesis
          by (simp add: parseIPv6_def joinGroups_def [of "[]"] parseGroups_join expandEllipsis_def)
      qed
    next
      case ne: False
      with assms(1) have "take e gs \<noteq> []" by auto
      then have p: "parseGroups [] None (ipv6String gs) =
          Some (groupsBytes (take e gs) @ groupsBytes (drop (e + l) gs), Some (2 * e), [])"
        using parseGroups_join_ellipsis [of "take e gs" "drop (e + l) gs" "[]"] sm le assms(1) False
        unfolding s by simp
      have "take 2 (ipv6String gs) \<noteq> ''::''" unfolding s by (rule start) fact
      moreover have "expandEllipsis (groupsBytes (take e gs) @ groupsBytes (drop (e + l) gs), Some (2 * e), []) =
          Some (groupsBytes gs)"
        using le assms(1) False unfolding bytes by (simp add: expandEllipsis_def, linarith)
      ultimately show ?thesis using p by (simp add: parseIPv6_def)
    qed
  qed
qed

definition plainText :: "string \<Rightarrow> bool" where
  "plainText s \<longleftrightarrow> list_all (\<lambda>c. isHex c \<or> c = CHR '':'' \<or> c = CHR ''.'') s"

lemma isDigit_isHex: "isDigit c \<Longrightarrow> isHex c"
  by (auto simp: isDigit_def isHex_def hexVal_def)

lemma plainText_clean: "plainText s \<Longrightarrow> CHR ''/'' \<notin> set s \<and> CHR '' '' \<notin> set s"
  using isHex_not by (auto simp: plainText_def list_all_iff)

lemma plainText_append [simp]: "plainText (s @ t) \<longleftrightarrow> plainText s \<and> plainText t"
  by (simp add: plainText_def)

lemma plainText_joinWith: "plainText sep \<Longrightarrow> (\<And>s. s \<in> set ss \<Longrightarrow> plainText s) \<Longrightarrow> plainText (joinWith sep ss)"
  by (induction sep ss rule: joinWith.induct) (auto simp: plainText_def)

lemma plainText_hexDigits: "plainText (hexDigits n)"
  using hexDigits_hex [of n] by (auto simp: plainText_def list_all_iff)

lemma plainText_joinGroups: "plainText (joinGroups gs)"
  unfolding joinGroups_def
  by (rule plainText_joinWith) (auto simp: plainText_hexDigits, simp add: plainText_def)

lemma plainText_ipv6: "plainText (ipv6String gs)"
  using plainText_joinGroups by (auto simp: ipv6String_def plainText_def split: prod.splits)

lemma itoa_byte: "itoa (uint (b :: 8 word)) = natDigits (unat b)"
  by (simp add: itoa_def)

lemma plainText_ipv4: "plainText (ipv4String ip)"
proof -
  have "plainText (natDigits n)" for n
    using natDigits_digits [of n] isDigit_isHex by (auto simp: plainText_def list_all_iff)
  then show ?thesis
    unfolding ipv4String_def by (intro plainText_joinWith) (auto simp: itoa_byte, simp add: plainText_def)
qed

lemma no_dots:
  assumes "gs \<noteq> []"
  shows "CHR ''.'' \<notin> set (ipv6String gs)"
proof -
  have "CHR ''.'' \<notin> set (hexDigits n)" for n
    using hexDigits_hex [of n] not_isHex(2) unfolding list_all_iff by blast
  then have "CHR ''.'' \<notin> set (joinGroups hs)" for hs
    by (induction hs rule: induct_list012) (auto simp: joinGroups_def)
  then show ?thesis by (simp add: ipv6String_def split: prod.split)
qed

lemma parseIPv4_String: "parseIPv4 (ipv4String [a, b, c, d]) = Some (v4InV6Prefix @ [a, b, c, d])"
proof -
  let ?ps = "map (\<lambda>b. itoa (uint b)) [a, b, c, d]"
  have dots: "CHR ''.'' \<notin> set (natDigits n)" for n
    using natDigits_digits [of n] isDigit_isHex not_isHex(2) unfolding list_all_iff by blast
  have "splitOn (CHR ''.'') (ipv4String [a, b, c, d]) = ?ps"
    unfolding ipv4String_def by (rule splitOn_joinWith) (auto simp: itoa_byte dots)
  moreover have byte: "unat (w :: 8 word) \<le> 255" for w using unsigned_less [of w, where 'a = nat] by simp
  moreover have "dtoi (itoa (uint (w :: 8 word))) = Some (unat w)" for w
    using natDigits_digits [of "unat w"] byte [of w] by (simp add: dtoi_def itoa_byte digitsValue_natDigits)
  ultimately show ?thesis by (simp add: parseIPv4_def)
qed

lemma parseIPv4_ipv6: "gs \<noteq> [] \<Longrightarrow> parseIPv4 (ipv6String gs) = None"
  using splitOn_no_sep [OF no_dots] by (simp add: parseIPv4_def split: option.split)

lemma dtoi_itoa: "n < 0xFFFFFF \<Longrightarrow> dtoi (itoa (int n)) = Some n"
  using natDigits_digits [of n] by (simp add: dtoi_def itoa_def digitsValue_natDigits)

lemma ParseCIDR_text:
  assumes "plainText addr" "n < 0xFFFFFF"
  shows "ParseCIDR (addr @ ''/'' @ itoa (int n)) =
    (case (case parseIPv4 addr of Some ip \<Rightarrow> cidrOf ip 4 n | None \<Rightarrow> Option.bind (parseIPv6 addr) (\<lambda>ip. cidrOf ip 16 n)) of
       None \<Rightarrow> Err (Errorf ''invalid CIDR address: %s'' [EStr (addr @ ''/'' @ itoa (int n))]) | Some x \<Rightarrow> Ok x)"
proof -
  have "takeWhile (\<lambda>c. c \<noteq> CHR ''/'') (addr @ CHR ''/'' # t) = addr"
    "dropWhile (\<lambda>c. c \<noteq> CHR ''/'') (addr @ CHR ''/'' # t) = CHR ''/'' # t" for t
    using plainText_clean [OF assms(1)] by (auto simp: takeWhile_append dropWhile_append)
  then show ?thesis using dtoi_itoa [OF assms(2)] by (auto simp: ParseCIDR_def Let_def split: option.splits)
qed

text \<open>The addresses that \<open>ParseCIDR\<close> returns: 16 bytes, with a mask of the length of their family.\<close>

definition wf_cidr :: "bytes \<Rightarrow> nat \<Rightarrow> bool" where
  "wf_cidr ip n \<longleftrightarrow> length ip = 16 \<and> n \<le> (if To4 ip \<noteq> None then 32 else 128)"

definition cidrBits :: "bytes \<Rightarrow> nat" where
  "cidrBits ip = (if To4 ip \<noteq> None then 32 else 128)"

lemma mapped_address:
  assumes "length ip = 16" "To4 ip = Some p4"
  obtains a b c d where "p4 = [a, b, c, d]" "ip = v4InV6Prefix @ [a, b, c, d]"
proof -
  have p: "take 12 ip = v4InV6Prefix" "p4 = drop 12 ip"
    using assms by (auto simp: To4_def v4InV6Prefix_def split: if_splits)
  then have "length p4 = Suc (Suc (Suc (Suc 0)))" using assms(1) by simp
  then obtain a b c d where "p4 = [a, b, c, d]" by (auto simp: length_Suc_conv)
  with p show ?thesis using that append_take_drop_id [of 12 ip] by metis
qed

lemma ParseCIDR_String:
  assumes "wf_cidr ip n"
  shows "ParseCIDR (IPString (Some ip) @ ''/'' @ itoa (int n)) =
    Ok (ip, \<lparr>net_IP = ipMask ip (CIDRMask n (cidrBits ip)), net_Mask = CIDRMask n (cidrBits ip)\<rparr>)"
proof (cases "To4 ip")
  case (Some p4)
  then obtain a b c d where "p4 = [a, b, c, d]" "ip = v4InV6Prefix @ [a, b, c, d]"
    using assms mapped_address by (metis wf_cidr_def)
  then show ?thesis using assms Some ParseCIDR_text [OF plainText_ipv4, of n "[a, b, c, d]"]
    by (auto simp: IPString_def parseIPv4_String cidrOf_def Let_def wf_cidr_def cidrBits_def)
next
  case None
  have ip: "length ip = 16" "n \<le> 128" "ip \<noteq> []" using assms None by (auto simp: wf_cidr_def)
  then have gs: "length (ipGroups ip) = 8" "ipGroups ip \<noteq> []"
    using length_ipGroups [of ip] by auto
  show ?thesis
    using None ip gs ParseCIDR_text [OF plainText_ipv6, of n "ipGroups ip"] parseIPv4_ipv6 [OF gs(2)]
      parseIPv6_String [OF gs(1) ipGroups_small] groupsBytes_ipGroups [of ip]
    by (simp add: IPString_def cidrOf_def Let_def cidrBits_def)
qed

end
