(* ===== verification/Ovs_State.thy ===== *)
theory Ovs_State
  imports Ovsdb_Client Net_IP
begin

text \<open>
  The state of the plugin process and its environment.

  The state (\<open>plugin\<close>) gathers what the program keeps: the driver's \<open>networks\<close> and its
  connection \<open>ovsdb\<close> (nil is \<open>None\<close>), the package variables \<open>ovsdbCache\<close> and \<open>contextCache\<close> of
  \<open>ovs/ovsdb.go\<close>, those of the vendored \<open>iptables\<close> package, and the world outside.

  The environment (\<open>env\<close>) gathers what the program calls and what is not its own logic: the
  kernel through \<open>netlink\<close> and \<open>net\<close>, the processes it starts, the files it writes. Each entry
  is an arbitrary function of the arguments and the world.
\<close>

section \<open>The world outside\<close>

record nl_link =
  nl_Name :: string
  nl_Index :: int
  nl_PeerName :: string

record 'w env = "'w rpc_env" +
  LinkAdd :: "nl_link \<Rightarrow> 'w \<Rightarrow> nl_link go \<times> 'w"
  LinkDel :: "nl_link \<Rightarrow> 'w \<Rightarrow> unit go \<times> 'w"
  LinkSetUp :: "nl_link \<Rightarrow> 'w \<Rightarrow> unit go \<times> 'w"
  LinkByName :: "string \<Rightarrow> 'w \<Rightarrow> nl_link go \<times> 'w"
  AddrList :: "nl_link \<Rightarrow> 'w \<Rightarrow> ipnet list go \<times> 'w"
  AddrAdd :: "nl_link \<Rightarrow> ipnet \<Rightarrow> 'w \<Rightarrow> unit go \<times> 'w"
  InterfaceByName :: "string \<Rightarrow> 'w \<Rightarrow> unit go \<times> 'w"
  InterfaceAddrs :: "string \<Rightarrow> 'w \<Rightarrow> string list go \<times> 'w"
  Sleep :: "nat \<Rightarrow> 'w \<Rightarrow> unit go \<times> 'w"
  LookPath :: "string \<Rightarrow> 'w \<Rightarrow> string go \<times> 'w"
  cmdRun :: "string \<Rightarrow> string list \<Rightarrow> 'w \<Rightarrow> unit go \<times> 'w"
  cmdCombinedOutput :: "string \<Rightarrow> string list \<Rightarrow> 'w \<Rightarrow> (string \<times> goerr option) go \<times> 'w"
  cmdOutput :: "string \<Rightarrow> string list \<Rightarrow> 'w \<Rightarrow> string go \<times> 'w"
  cmdStdoutPipe :: "string \<Rightarrow> 'w \<Rightarrow> unit go \<times> 'w"
  cmdStderrPipe :: "string \<Rightarrow> 'w \<Rightarrow> unit go \<times> 'w"
  cmdStart :: "string \<Rightarrow> 'w \<Rightarrow> unit go \<times> 'w"
  cmdReadStderr :: "string \<Rightarrow> 'w \<Rightarrow> string go \<times> 'w"
  cmdReadStdout :: "string \<Rightarrow> 'w \<Rightarrow> string go \<times> 'w"
  cmdWait :: "string \<Rightarrow> 'w \<Rightarrow> unit go \<times> 'w"
  Passthrough :: "string list \<Rightarrow> 'w \<Rightarrow> string go \<times> 'w"
  osCreate :: "string \<Rightarrow> 'w \<Rightarrow> unit go \<times> 'w"
  osWrite :: "string \<Rightarrow> string \<Rightarrow> 'w \<Rightarrow> unit go \<times> 'w"
  osRemove :: "string \<Rightarrow> 'w \<Rightarrow> unit go \<times> 'w"
  NewDockerClient :: "string \<Rightarrow> 'w \<Rightarrow> unit go \<times> 'w"

section \<open>The plugin process\<close>

record NetworkState =
  BridgeName :: string
  MTU :: int
  Mode :: string
  Gateway :: string
  GatewayMask :: string
  FlatBindInterface :: string
  NetworkType :: string
  NetworkName :: string

type_synonym table_cache = "(string, ovs_row) gomap"
type_synonym db_cache = "(string, table_cache) gomap"

record 'w plugin =
  networks :: "(string, NetworkState) gomap"
  ovsdb :: "OvsdbClient option"
  ovsdbCache :: db_cache
  contextCache :: "(string, string) gomap"
  iptablesPath :: string
  supportsXlock :: bool
  firewalldRunning :: bool
  world :: 'w

text \<open>A call of the environment changes the world and nothing else.\<close>

definition onWorld :: "('w, 'a) gom \<Rightarrow> ('w plugin, 'a) gom" where
  "onWorld f s = (fst (f (world s)), s\<lparr>world := snd (f (world s))\<rparr>)"

lemma onWorld_simps [simp]:
  "fst (onWorld f s) = fst (f (world s))"
  "snd (onWorld f s) = s\<lparr>world := snd (f (world s))\<rparr>"
  by (simp_all add: onWorld_def)

lemma onWorld_eq: "f (world s) = (r, w) \<Longrightarrow> onWorld f s = (r, s\<lparr>world := w\<rparr>)"
  by (simp add: onWorld_def)

text \<open>
  Two invariants that most calls keep: \<open>networks_are N\<close>, the driver's table of networks is \<open>N\<close>,
  and \<open>only_world s0\<close>, nothing but the world and the iptables variables differs from \<open>s0\<close>.
\<close>

definition networks_are :: "(string, NetworkState) gomap \<Rightarrow> 'w plugin \<Rightarrow> bool" where
  "networks_are N s \<longleftrightarrow> networks s = N"

definition db_state :: "'w plugin \<Rightarrow> (string, NetworkState) gomap \<times> OvsdbClient option \<times> db_cache
    \<times> (string, string) gomap" where
  "db_state s = (networks s, ovsdb s, ovsdbCache s, contextCache s)"

definition only_world :: "'w plugin \<Rightarrow> 'w plugin \<Rightarrow> bool" where
  "only_world s0 s \<longleftrightarrow> db_state s = db_state s0"

lemma keepsG_onWorld_networks [keeps_intros]: "keepsG (networks_are N) (onWorld f)"
  by (simp add: keepsG_def networks_are_def)

lemma keepsG_onWorld_only [keeps_intros]: "keepsG (only_world s0) (onWorld f)"
  by (simp add: keepsG_def only_world_def db_state_def)

lemma only_world_networks: "only_world s0 s \<Longrightarrow> networks s = networks s0"
  by (simp add: only_world_def db_state_def)

lemma only_world_refl [simp]: "only_world s s"
  by (simp add: only_world_def)

lemma only_world_snd: "keepsG (only_world s) m \<Longrightarrow> networks (snd (m s)) = networks s"
  by (rule only_world_networks) (rule keepsG_D, simp_all)

lemma keeps_networks:
  assumes "\<And>s0. keepsG (only_world s0) m" "m s = (r, s')"
  shows "networks s' = networks s"
  using only_world_snd [OF assms(1)] assms(2) by (metis snd_conv)

end
