(* ===== verification/Scripted_World.thy ===== *)
theory Scripted_World
  imports Ovs_State
begin

text \<open>
  A concrete environment, on which the properties of the development are evaluated: an OVSDB
  server that answers from a script and remembers what it was sent, a kernel with a list of
  links and of packet filter rules, commands that succeed. It is an instance of the parameter
  \<open>env\<close> and models no code of the repository.
\<close>

record lab =
  lab_replies :: "json go list"
  lab_sent :: "(string \<times> json) list"
  lab_up :: bool
  lab_dials :: nat
  lab_links :: "string list"
  lab_rules :: "string list list"

definition lab_ok :: "'a \<Rightarrow> lab \<Rightarrow> 'a go \<times> lab" where
  "lab_ok a w = (Ok a, w)"

fun lab_call :: "string \<Rightarrow> json \<Rightarrow> lab \<Rightarrow> json go \<times> lab" where
  "lab_call m args w = (case lab_replies w of
       [] \<Rightarrow> (Err (ErrNew ''connection is shut down''), w)
     | r # rs \<Rightarrow> (r, w\<lparr>lab_replies := rs, lab_sent := lab_sent w @ [(m, args)]\<rparr>))"

definition lab_dial :: "string \<Rightarrow> lab \<Rightarrow> unit go \<times> lab" where
  "lab_dial addr w = (if lab_up w then Ok () else Err (ErrNew ''connection refused''),
     w\<lparr>lab_dials := Suc (lab_dials w)\<rparr>)"

definition lab_link :: "string \<Rightarrow> lab \<Rightarrow> nl_link go \<times> lab" where
  "lab_link n w = (if n \<in> set (lab_links w) then Ok \<lparr>nl_Name = n, nl_Index = 1, nl_PeerName = ''''\<rparr>
     else Err (ErrNew ''Link not found''), w)"

text \<open>\<open>iptables\<close> with the two commands that \<open>natOut\<close> uses.\<close>

fun lab_iptables :: "string \<Rightarrow> string list \<Rightarrow> lab \<Rightarrow> (string \<times> goerr option) go \<times> lab" where
  "lab_iptables path (c # rule) w =
     (if c = ''-I'' then (Ok ('''', None), w\<lparr>lab_rules := rule # lab_rules w\<rparr>)
      else (Ok ('''', if rule \<in> set (lab_rules w) then None else Some (ErrNew ''exit status 1'')), w))"
| "lab_iptables path [] w = (Ok ('''', Some (ErrNew ''exit status 2'')), w)"

definition lab_env :: "lab env" where
  "lab_env =
     \<lparr>rpc_call = lab_call, net_dial = lab_dial,
      LinkAdd = (\<lambda>l. lab_ok l), LinkDel = (\<lambda>_. lab_ok ()), LinkSetUp = (\<lambda>_. lab_ok ()),
      LinkByName = lab_link,
      AddrList = (\<lambda>_. lab_ok [\<lparr>net_IP = [10, 1, 0, 1], net_Mask = [255, 255, 255, 0]\<rparr>]),
      AddrAdd = (\<lambda>_ _. lab_ok ()),
      InterfaceByName = (\<lambda>n w. (if n \<in> set (lab_links w) then Ok () else Err (ErrNew ''no such interface''), w)),
      InterfaceAddrs = (\<lambda>_. lab_ok [''10.1.0.1/24'']),
      Sleep = (\<lambda>_. lab_ok ()), LookPath = (\<lambda>p. lab_ok p), cmdRun = (\<lambda>_ _. lab_ok ()),
      cmdCombinedOutput = lab_iptables, cmdOutput = (\<lambda>_ _. lab_ok ''''),
      cmdStdoutPipe = (\<lambda>_. lab_ok ()), cmdStderrPipe = (\<lambda>_. lab_ok ()), cmdStart = (\<lambda>_. lab_ok ()),
      cmdReadStderr = (\<lambda>_. lab_ok ''''), cmdReadStdout = (\<lambda>_. lab_ok ''''), cmdWait = (\<lambda>_. lab_ok ()),
      Passthrough = (\<lambda>_. lab_ok ''''), osCreate = (\<lambda>_. lab_ok ()), osWrite = (\<lambda>_ _. lab_ok ()),
      osRemove = (\<lambda>_. lab_ok ()), NewDockerClient = (\<lambda>_. lab_ok ())\<rparr>"

definition lab_world :: "json go list \<Rightarrow> string list \<Rightarrow> lab" where
  "lab_world replies links = \<lparr>lab_replies = replies, lab_sent = [], lab_up = True, lab_dials = 0,
     lab_links = links, lab_rules = []\<rparr>"

text \<open>The part of the schema that the plugin uses, with or without the table \<open>BridgeOpt\<close>.\<close>

definition lab_table :: "string \<Rightarrow> string list \<Rightarrow> string \<times> TableSchema" where
  "lab_table t cols = (t, \<lparr>tbl_Columns = map (\<lambda>c. (c, \<lparr>col_Name = c, col_Type = GString ''string'',
     col_Ephemeral = False, col_Mutable = True\<rparr>)) cols, tbl_Indexes = []\<rparr>)"

definition lab_stock :: "(string, TableSchema) gomap" where
  "lab_stock = [lab_table ''Interface'' [''name'', ''type'', ''options''],
     lab_table ''Port'' [''name'', ''interfaces'', ''tag''],
     lab_table ''Bridge'' [''name'', ''stp_enable'', ''ports'', ''datapath_type''],
     lab_table ''Open_vSwitch'' [''bridges'']]"

definition lab_client :: "(string, TableSchema) gomap \<Rightarrow> OvsdbClient" where
  "lab_client tables = \<lparr>Schema = [(''Open_vSwitch'',
     \<lparr>db_Name = ''Open_vSwitch'', db_Version = ''7.3.0'', db_Tables = tables\<rparr>)], handlers = 1\<rparr>"

definition lab_full :: OvsdbClient where
  "lab_full = lab_client (lab_table ''BridgeOpt'' [''name'', ''service_type'', ''network_id''] # lab_stock)"

definition lab_plain :: OvsdbClient where
  "lab_plain = lab_client lab_stock"

definition lab_state :: "OvsdbClient \<Rightarrow> lab \<Rightarrow> lab plugin" where
  "lab_state ovs w = \<lparr>networks = [], ovsdb = Some ovs, ovsdbCache = [], contextCache = [],
     iptablesPath = ''/sbin/iptables'', supportsXlock = False, firewalldRunning = False, world = w\<rparr>"

lemmas lab_simps = lab_ok_def lab_dial_def lab_link_def lab_env_def lab_world_def lab_table_def
  lab_stock_def lab_client_def lab_full_def lab_plain_def lab_state_def

end
