(* ===== verification/Ovs_Cache.thy ===== *)
theory Ovs_Cache
  imports Scripted_World
begin

text \<open>
  The local copy of the database (\<open>ovs/ovsdb.go\<close>, with \<open>portUUIDForName\<close> of
  \<open>ovs/ovs_port.go\<close> and \<open>getBridgeUUIDForName\<close> of \<open>ovs/ovs_bridge.go\<close>): a map from table
  names to a map from row UUIDs to rows, filled by the monitor's first reply and by every
  update notification after it, and read by the operations that need a UUID.
\<close>

section \<open>Reading and writing the cache\<close>

definition getTableCache :: "db_cache \<Rightarrow> string \<Rightarrow> table_cache" where
  "getTableCache c tableName = (case go_lookup c tableName of None \<Rightarrow> [] | Some t \<Rightarrow> t)"

text \<open>The body of the inner loop of \<open>populateCache\<close>; the zero \<open>Row\<close> means that the row is gone.\<close>

definition cacheRow :: "string \<times> RowUpdate \<Rightarrow> table_cache \<Rightarrow> table_cache" where
  "cacheRow ur t = (case ur of (uuid, row) \<Rightarrow>
     if ru_New row \<noteq> emptyRow then go_update uuid (ru_New row) t else go_delete uuid t)"

text \<open>
  The body of the outer loop. The table's map is made if it is missing and then changed in
  place, so the outer map holds the changed one afterwards.
\<close>

definition cacheTable :: "string \<times> TableUpdate \<Rightarrow> db_cache \<Rightarrow> db_cache" where
  "cacheTable tu c = (case tu of (table, tableUpdate) \<Rightarrow>
     let c1 = (if has_key c table then c else go_update table [] c)
     in go_update table (fold cacheRow tableUpdate (getTableCache c1 table)) c1)"

definition populateCache :: "TableUpdates \<Rightarrow> db_cache \<Rightarrow> db_cache" where
  "populateCache updates c = fold cacheTable updates c"

definition getRootUUID :: "db_cache \<Rightarrow> string" where
  "getRootUUID c = (case getTableCache c ''Open_vSwitch'' of [] \<Rightarrow> '''' | (uuid, _) # _ \<Rightarrow> uuid)"

text \<open>The loop both name lookups are: the first row whose \<open>name\<close> equals the string.\<close>

fun uuidForName :: "table_cache \<Rightarrow> string \<Rightarrow> string" where
  "uuidForName [] name = ''''"
| "uuidForName ((key, val) # t) name =
     (if rowField val ''name'' = Some (GString name) then key else uuidForName t name)"

definition portUUIDForName :: "db_cache \<Rightarrow> string \<Rightarrow> string" where
  "portUUIDForName c portName = uuidForName (getTableCache c ''Port'') portName"

definition getBridgeUUIDForName :: "db_cache \<Rightarrow> string \<Rightarrow> string" where
  "getBridgeUUIDForName c name = uuidForName (getTableCache c ''Bridge'') name"

section \<open>The cache as a database\<close>

text \<open>What the cache says about a table and a UUID, and what one set of updates says.\<close>

definition cache_db :: "db_cache \<Rightarrow> string \<Rightarrow> string \<Rightarrow> ovs_row option" where
  "cache_db c table uuid = go_lookup (getTableCache c table) uuid"

definition update_for :: "TableUpdates \<Rightarrow> string \<Rightarrow> string \<Rightarrow> RowUpdate option" where
  "update_for us table uuid = (case go_lookup us table of None \<Rightarrow> None | Some tu \<Rightarrow> go_lookup tu uuid)"

definition new_row :: "RowUpdate \<Rightarrow> ovs_row option" where
  "new_row ru = (if ru_New ru = emptyRow then None else Some (ru_New ru))"

definition wf_updates :: "TableUpdates \<Rightarrow> bool" where
  "wf_updates us \<longleftrightarrow> wf_gomap us \<and> (\<forall>(table, tu) \<in> set us. wf_gomap tu)"

text \<open>
  The specification of an update: a row it mentions becomes what it says, every other row
  stays.
\<close>

definition apply_update ::
    "TableUpdates \<Rightarrow> (string \<Rightarrow> string \<Rightarrow> ovs_row option) \<Rightarrow> string \<Rightarrow> string \<Rightarrow> ovs_row option" where
  "apply_update us db table uuid =
     (case update_for us table uuid of None \<Rightarrow> db table uuid | Some ru \<Rightarrow> new_row ru)"

lemma getTableCache_update:
  "getTableCache (go_update table t c) table' = (if table' = table then t else getTableCache c table')"
  by (simp add: getTableCache_def)

lemma lookup_cacheRow:
  "go_lookup (cacheRow (uuid, ru) t) = (go_lookup t)(uuid := new_row ru)"
  by (simp add: cacheRow_def new_row_def)

lemma lookup_fold_cacheRow:
  "wf_gomap tu \<Longrightarrow> go_lookup (fold cacheRow tu t) uuid =
     (case go_lookup tu uuid of None \<Rightarrow> go_lookup t uuid | Some ru \<Rightarrow> new_row ru)"
proof (induction tu arbitrary: t)
  case (Cons p tu)
  obtain u ru where p: "p = (u, ru)" by fastforce
  with Cons.prems have "wf_gomap tu" and fresh: "go_lookup tu u = None"
    by (auto simp: wf_gomap_def go_lookup_def map_of_eq_None_iff)
  with Cons.IH [of "cacheRow (u, ru) t"] show ?case
    by (auto simp: p lookup_cacheRow split: option.splits)
qed simp

lemma getTableCache_cacheTable:
  "getTableCache (cacheTable (table, tu) c) table' =
     (if table' = table then fold cacheRow tu (getTableCache c table) else getTableCache c table')"
  by (auto simp: cacheTable_def getTableCache_update Let_def has_key_def getTableCache_def)

lemma cache_db_fold:
  "wf_updates us \<Longrightarrow> cache_db (fold cacheTable us c) = apply_update us (cache_db c)"
proof (induction us arbitrary: c)
  case Nil
  then show ?case by (simp add: fun_eq_iff apply_update_def update_for_def)
next
  case (Cons p us)
  obtain table tu where p: "p = (table, tu)" by fastforce
  with Cons.prems have wf: "wf_updates us" "wf_gomap tu" and fresh: "go_lookup us table = None"
    by (auto simp: wf_updates_def wf_gomap_def go_lookup_def map_of_eq_None_iff)
  have "cache_db (fold cacheTable us (cacheTable p c)) = apply_update us (cache_db (cacheTable p c))"
    using wf(1) by (rule Cons.IH)
  moreover have "apply_update us (cache_db (cacheTable p c)) = apply_update (p # us) (cache_db c)"
    using fresh wf(2)
    by (auto simp: fun_eq_iff apply_update_def update_for_def cache_db_def p
        getTableCache_cacheTable lookup_fold_cacheRow split: option.splits)
  ultimately show ?case by simp
qed

lemma cache_db_populateCache:
  "wf_updates us \<Longrightarrow> cache_db (populateCache us c) = apply_update us (cache_db c)"
  unfolding populateCache_def by (rule cache_db_fold)

section \<open>Well-formed caches\<close>

definition wf_cache :: "db_cache \<Rightarrow> bool" where
  "wf_cache c \<longleftrightarrow> wf_gomap c \<and> (\<forall>table. wf_gomap (getTableCache c table) \<and> '''' \<notin> fst ` set (getTableCache c table))"

definition real_uuids :: "TableUpdates \<Rightarrow> bool" where
  "real_uuids us \<longleftrightarrow> (\<forall>(table, tu) \<in> set us. '''' \<notin> fst ` set tu)"

lemma wf_cache_empty [simp]: "wf_cache []"
  by (simp add: wf_cache_def wf_gomap_def getTableCache_def)

lemma keys_go_update: "fst ` set (go_update k v m) = insert k (fst ` set m)"
  unfolding go_update_def by (simp add: dom_update)

lemma keys_go_delete: "fst ` set (go_delete k m) = fst ` set m - {k}"
  unfolding go_delete_def by (auto simp: AList.delete_eq)

lemma wf_cacheRow: "wf_gomap t \<Longrightarrow> wf_gomap (cacheRow ur t)"
  by (cases ur) (simp add: cacheRow_def gomap.invar_update gomap.invar_delete)

lemma keys_cacheRow: "fst ` set (cacheRow ur t) \<subseteq> insert (fst ur) (fst ` set t)"
  by (cases ur) (auto simp: cacheRow_def keys_go_update keys_go_delete)

lemma wf_fold_cacheRow: "wf_gomap t \<Longrightarrow> wf_gomap (fold cacheRow tu t)"
  by (induction tu arbitrary: t) (auto intro: wf_cacheRow)

lemma keys_fold_cacheRow: "fst ` set (fold cacheRow tu t) \<subseteq> fst ` set tu \<union> fst ` set t"
proof (induction tu arbitrary: t)
  case (Cons p tu)
  from Cons.IH [of "cacheRow p t"] keys_cacheRow [of p t] show ?case by auto
qed simp

lemma wf_cacheTable:
  assumes "wf_cache c" "'''' \<notin> fst ` set (snd p)"
  shows "wf_cache (cacheTable p c)"
proof -
  obtain table tu where p: "p = (table, tu)" by fastforce
  have "wf_gomap (cacheTable p c)"
    using assms(1) by (simp add: p cacheTable_def Let_def gomap.invar_update wf_cache_def)
  moreover have "wf_gomap (getTableCache (cacheTable p c) t) \<and> '''' \<notin> fst ` set (getTableCache (cacheTable p c) t)" for t
    using assms keys_fold_cacheRow [of tu "getTableCache c table"]
    by (auto simp: p getTableCache_cacheTable wf_cache_def wf_fold_cacheRow)
  ultimately show ?thesis by (simp add: wf_cache_def)
qed

lemma wf_populateCache:
  assumes "wf_cache c" "real_uuids us"
  shows "wf_cache (populateCache us c)"
  using assms unfolding populateCache_def
proof (induction us arbitrary: c)
  case (Cons p us)
  then have "wf_cache (cacheTable p c)"
    by (intro wf_cacheTable) (auto simp: real_uuids_def)
  with Cons show ?case by (simp add: real_uuids_def)
qed simp

section \<open>Looking a UUID up by name\<close>

definition named :: "ovs_row \<Rightarrow> string \<Rightarrow> bool" where
  "named row n \<longleftrightarrow> rowField row ''name'' = Some (GString n)"

text \<open>
  What the operations that delete a port or a bridge rely on: the UUID that a lookup returns is
  the one of a row with that name, and the empty string is returned only when there is none.
\<close>

locale name_index =
  fixes find_uuid :: "db_cache \<Rightarrow> string \<Rightarrow> string" and table :: string
  assumes find_sound: "wf_cache c \<Longrightarrow> find_uuid c n \<noteq> '''' \<Longrightarrow>
      \<exists>row. cache_db c table (find_uuid c n) = Some row \<and> named row n"
    and find_complete: "wf_cache c \<Longrightarrow> cache_db c table u = Some row \<Longrightarrow> named row n \<Longrightarrow>
      find_uuid c n \<noteq> ''''"
begin

lemma find_empty_iff:
  assumes "wf_cache c"
  shows "find_uuid c n = '''' \<longleftrightarrow> (\<forall>u row. cache_db c table u = Some row \<longrightarrow> \<not> named row n)"
  using assms find_sound find_complete by blast

lemma find_unique:
  assumes "wf_cache c" "cache_db c table u = Some row" "named row n"
    and "\<And>u' row'. cache_db c table u' = Some row' \<Longrightarrow> named row' n \<Longrightarrow> u' = u"
  shows "find_uuid c n = u"
  using assms find_sound find_complete by blast

lemma find_correct:
  assumes "wf_cache c"
    and "\<And>u u' row row'. cache_db c table u = Some row \<Longrightarrow> named row n \<Longrightarrow>
      cache_db c table u' = Some row' \<Longrightarrow> named row' n \<Longrightarrow> u' = u"
  shows "(find_uuid c n = '''' \<longleftrightarrow> (\<forall>u row. cache_db c table u = Some row \<longrightarrow> \<not> named row n)) \<and>
    (\<forall>u row. cache_db c table u = Some row \<longrightarrow> named row n \<longrightarrow> find_uuid c n = u)"
  using find_empty_iff [OF assms(1)] find_unique [OF assms(1)] assms(2) by blast

lemma find_order_independent:
  assumes "wf_cache c" "wf_cache c'" "cache_db c table = cache_db c' table"
    and "\<And>u u' row row'. cache_db c table u = Some row \<Longrightarrow> named row n \<Longrightarrow>
      cache_db c table u' = Some row' \<Longrightarrow> named row' n \<Longrightarrow> u' = u"
  shows "find_uuid c n = find_uuid c' n"
proof (cases "find_uuid c n = ''''")
  case True
  with assms(1-3) show ?thesis by (metis find_empty_iff)
next
  case False
  then obtain row where "cache_db c' table (find_uuid c n) = Some row" "named row n"
    using find_sound assms(1,3) by metis
  with assms show ?thesis by (metis find_unique)
qed

end

lemma uuidForName_sound:
  "uuidForName t n \<noteq> '''' \<Longrightarrow> \<exists>row. (uuidForName t n, row) \<in> set t \<and> named row n"
  by (induction t n rule: uuidForName.induct) (auto simp: named_def split: if_splits)

lemma uuidForName_complete:
  "(u, row) \<in> set t \<Longrightarrow> named row n \<Longrightarrow> '''' \<notin> fst ` set t \<Longrightarrow> uuidForName t n \<noteq> ''''"
  by (induction t n rule: uuidForName.induct) (auto simp: named_def)

lemma wf_cache_table:
  "wf_cache c \<Longrightarrow> wf_gomap (getTableCache c table) \<and> '''' \<notin> fst ` set (getTableCache c table)"
  by (simp add: wf_cache_def)

lemma table_index_sound:
  assumes "wf_cache c" "uuidForName (getTableCache c table) n \<noteq> ''''"
  shows "\<exists>row. cache_db c table (uuidForName (getTableCache c table) n) = Some row \<and> named row n"
  using uuidForName_sound [OF assms(2)] wf_cache_table [OF assms(1), of table]
  by (auto simp: cache_db_def intro: in_set_go_lookup)

lemma table_index_complete:
  assumes "wf_cache c" "cache_db c table u = Some row" "named row n"
  shows "uuidForName (getTableCache c table) n \<noteq> ''''"
  using assms wf_cache_table [OF assms(1), of table]
  by (intro uuidForName_complete) (auto simp: cache_db_def dest: go_lookup_in_set)

interpretation port_index: name_index portUUIDForName "''Port''"
  unfolding portUUIDForName_def by unfold_locales (auto dest: table_index_sound table_index_complete)

interpretation bridge_index: name_index getBridgeUUIDForName "''Bridge''"
  unfolding getBridgeUUIDForName_def
  by unfold_locales (auto dest: table_index_sound table_index_complete)

section \<open>The cache follows the server\<close>

type_synonym database = "string \<Rightarrow> string \<Rightarrow> ovs_row option"

text \<open>
  What RFC 7047 says of an update notification: every row that the transaction changed is
  mentioned, and a mentioned row carries its new contents, or nothing when it was deleted.
\<close>

definition describes :: "TableUpdates \<Rightarrow> database \<Rightarrow> database \<Rightarrow> bool" where
  "describes us db db' \<longleftrightarrow> wf_updates us \<and> real_uuids us \<and>
     (\<forall>t u. (db t u \<noteq> db' t u \<longrightarrow> update_for us t u \<noteq> None) \<and>
            (\<forall>ru. update_for us t u = Some ru \<longrightarrow> new_row ru = db' t u))"

lemma describes_apply: "describes us db db' \<Longrightarrow> apply_update us db = db'"
  by (force simp: describes_def apply_update_def fun_eq_iff split: option.splits)

text \<open>
  The server commits transactions and sends their notifications in order, after the reply to
  \<open>MonitorAll\<close>. The RPC client starts one goroutine per notification (\<open>rpc2/client.go\<close>,
  \<open>readRequest\<close>), and the reply is cached by the goroutine that asked for it, so they reach
  \<open>populateCache\<close> in any order. Which transactions the server may commit while others are
  still in flight is the parameter \<open>may\<close>.
\<close>

record monitored =
  server :: database
  inflight :: "TableUpdates list"
  local_cache :: db_cache

inductive monitor_step ::
    "(TableUpdates \<Rightarrow> TableUpdates list \<Rightarrow> bool) \<Rightarrow> monitored \<Rightarrow> monitored \<Rightarrow> bool" for may where
  commit: "describes us (server m) db' \<Longrightarrow> may us (inflight m) \<Longrightarrow>
    monitor_step may m (m\<lparr>server := db', inflight := inflight m @ [us]\<rparr>)"
| deliver: "inflight m = p @ us # q \<Longrightarrow>
    monitor_step may m (m\<lparr>inflight := p @ q, local_cache := populateCache us (local_cache m)\<rparr>)"

inductive monitor_reachable :: "(TableUpdates \<Rightarrow> TableUpdates list \<Rightarrow> bool) \<Rightarrow> monitored \<Rightarrow> bool" for may where
  start: "describes us (\<lambda>_ _. None) db \<Longrightarrow>
    monitor_reachable may \<lparr>server = db, inflight = [us], local_cache = []\<rparr>"
| step: "monitor_reachable may m \<Longrightarrow> monitor_step may m m' \<Longrightarrow> monitor_reachable may m'"

text \<open>Two updates that mention no row in common, and a server that waits for such conflicts.\<close>

definition apart :: "TableUpdates \<Rightarrow> TableUpdates \<Rightarrow> bool" where
  "apart us us' \<longleftrightarrow> (\<forall>t u. update_for us t u = None \<or> update_for us' t u = None)"

definition paced :: "TableUpdates \<Rightarrow> TableUpdates list \<Rightarrow> bool" where
  "paced us q \<longleftrightarrow> (\<forall>us' \<in> set q. apart us us')"

lemma apart_sym: "apart us us' \<Longrightarrow> apart us' us"
  unfolding apart_def by metis

lemma apart_commute:
  assumes "apart us us'"
  shows "apply_update us (apply_update us' db) = apply_update us' (apply_update us db)"
proof (intro ext)
  fix t u
  from assms have "update_for us t u = None \<or> update_for us' t u = None" unfolding apart_def by metis
  then show "apply_update us (apply_update us' db) t u = apply_update us' (apply_update us db) t u"
    by (auto simp: apply_update_def split: option.splits)
qed

lemma fold_apart:
  assumes "\<And>us'. us' \<in> set p \<Longrightarrow> apart us us'"
  shows "fold apply_update p (apply_update us db) = apply_update us (fold apply_update p db)"
  using assms
proof (induction p arbitrary: db)
  case (Cons a p)
  have "fold apply_update (a # p) (apply_update us db) = fold apply_update p (apply_update us (apply_update a db))"
    using Cons.prems [of a] by (simp add: apart_commute)
  with Cons show ?case by simp
qed simp

definition cache_inv :: "monitored \<Rightarrow> bool" where
  "cache_inv m \<longleftrightarrow> wf_cache (local_cache m) \<and> sorted_wrt apart (inflight m) \<and>
     list_all (\<lambda>us. wf_updates us \<and> real_uuids us) (inflight m) \<and>
     fold apply_update (inflight m) (cache_db (local_cache m)) = server m"

lemma cache_inv_step: "monitor_step paced m m' \<Longrightarrow> cache_inv m \<Longrightarrow> cache_inv m'"
proof (induction rule: monitor_step.induct)
  case (commit us m db')
  then have "apply_update us (server m) = db'" "wf_updates us" "real_uuids us"
    by (auto simp: describes_def intro: describes_apply)
  with commit show ?case by (auto simp: cache_inv_def paced_def sorted_wrt_append apart_sym)
next
  case (deliver m p us q)
  then have wf: "wf_updates us" "real_uuids us" and ap: "\<And>us'. us' \<in> set p \<Longrightarrow> apart us us'"
    by (auto simp: cache_inv_def sorted_wrt_append apart_sym)
  with deliver show ?case
    by (simp add: cache_inv_def cache_db_populateCache wf_populateCache fold_apart [OF ap] sorted_wrt_append)
qed

lemma cache_db_empty: "cache_db [] = (\<lambda>_ _. None)"
  by (simp add: fun_eq_iff cache_db_def getTableCache_def)

lemma cache_inv_reachable: "monitor_reachable paced m \<Longrightarrow> cache_inv m"
proof (induction rule: monitor_reachable.induct)
  case (start us db)
  then have "apply_update us (\<lambda>_ _. None) = db" "wf_updates us" "real_uuids us"
    by (auto simp: describes_def intro: describes_apply)
  then show ?case by (simp add: cache_inv_def cache_db_empty)
next
  case (step m m')
  then show ?case by (blast intro: cache_inv_step)
qed

section \<open>Properties\<close>

text \<open>An update that creates one port, and a cache that has received it.\<close>

definition lab_port_row :: ovs_row where
  "lab_port_row = \<lparr>Fields = Some [(''name'', GString ''ovs-veth0-4f9a8'')]\<rparr>"

definition lab_port_update :: TableUpdates where
  "lab_port_update = [(''Port'', [(''c0ffee'', \<lparr>ru_New = lab_port_row, ru_Old = emptyRow\<rparr>)])]"

definition lab_port_delete :: TableUpdates where
  "lab_port_delete = [(''Port'', [(''c0ffee'', \<lparr>ru_New = emptyRow, ru_Old = lab_port_row\<rparr>)])]"

definition lab_monitored :: monitored where
  "lab_monitored = \<lparr>server = apply_update lab_port_update (\<lambda>_ _. None), inflight = [],
     local_cache = populateCache lab_port_update []\<rparr>"

lemma lab_port_described: "describes lab_port_update (\<lambda>_ _. None) (apply_update lab_port_update (\<lambda>_ _. None))"
  by (auto simp: describes_def apply_update_def update_for_def lab_port_update_def wf_updates_def
      wf_gomap_def real_uuids_def split: option.splits if_splits)

lemma lab_monitored_reachable: "monitor_reachable may lab_monitored"
proof -
  have "monitor_reachable may \<lparr>server = apply_update lab_port_update (\<lambda>_ _. None),
      inflight = [lab_port_update], local_cache = []\<rparr>"
    by (rule monitor_reachable.start) (rule lab_port_described)
  then show ?thesis
    by (rule monitor_reachable.step)
      (use monitor_step.deliver [of "\<lparr>server = apply_update lab_port_update (\<lambda>_ _. None),
        inflight = [lab_port_update], local_cache = []\<rparr>" "[]" lab_port_update "[]" may]
       in \<open>simp add: lab_monitored_def\<close>)
qed

lemma lab_port_lookup:
  "apply_update lab_port_update (\<lambda>_ _. None) t u =
     (if t = ''Port'' \<and> u = ''c0ffee'' then Some lab_port_row else None)"
  by (simp add: apply_update_def update_for_def lab_port_update_def new_row_def lab_port_row_def emptyRow_def)

text \<open>C3. populateCache implements the specification of an update on the database that the cache
  stands for: a row it mentions becomes what the update says or disappears, every other row of
  every table stays; the cache stays well-formed.\<close>

theorem populateCache_refines:
  assumes "wf_cache c" "wf_updates us" "real_uuids us"
  shows "wf_cache (populateCache us c) \<and> cache_db (populateCache us c) = apply_update us (cache_db c)"
  using assms by (simp add: wf_populateCache cache_db_populateCache)

theorem populateCache_refines_witness:
  "cache_db (populateCache lab_port_update []) ''Port'' ''c0ffee'' = Some lab_port_row"
proof -
  have "cache_db (populateCache lab_port_update []) = apply_update lab_port_update (cache_db [])"
    using lab_port_described populateCache_refines [of "[]" lab_port_update] by (simp add: describes_def)
  then show ?thesis by (simp add: cache_db_empty lab_port_lookup)
qed

text \<open>C2. However commits of the server and deliveries of notifications interleave, and in whatever
  order the notifications are delivered, the cache lags behind the server by exactly the
  notifications still in flight, and is an exact copy when there are none, provided that no two
  notifications in flight touch the same row.\<close>

theorem cache_follows_server:
  assumes "monitor_reachable paced m"
  shows "fold apply_update (inflight m) (cache_db (local_cache m)) = server m \<and>
    (inflight m = [] \<longrightarrow> cache_db (local_cache m) = server m)"
  using cache_inv_reachable [OF assms] by (auto simp: cache_inv_def)

theorem cache_follows_server_witness:
  "cache_db (local_cache lab_monitored) = server lab_monitored \<and>
   server lab_monitored ''Port'' ''c0ffee'' = Some lab_port_row"
  using cache_follows_server [OF lab_monitored_reachable]
  by (simp add: lab_monitored_def lab_port_lookup)


text \<open>C5. Once the notifications are delivered, the lookup of a port or of a bridge by its name
  returns the UUID of the one row that has the name at the server, in whatever order the maps
  are walked, and the empty string exactly when no row has it.\<close>

theorem uuid_lookup_correct:
  assumes "monitor_reachable paced m" "inflight m = []"
    and "(find_uuid, table) \<in> {(portUUIDForName, ''Port''), (getBridgeUUIDForName, ''Bridge'')}"
    and "\<And>u u' row row'. server m table u = Some row \<Longrightarrow> named row n \<Longrightarrow>
      server m table u' = Some row' \<Longrightarrow> named row' n \<Longrightarrow> u' = u"
  shows "(find_uuid (local_cache m) n = '''' \<longleftrightarrow> (\<forall>u row. server m table u = Some row \<longrightarrow> \<not> named row n)) \<and>
    (\<forall>u row. server m table u = Some row \<longrightarrow> named row n \<longrightarrow> find_uuid (local_cache m) n = u)"
proof -
  have wf: "wf_cache (local_cache m)" and db: "cache_db (local_cache m) = server m"
    using cache_inv_reachable [OF assms(1)] assms(2) by (auto simp: cache_inv_def)
  note unique = assms(4) [folded db]
  from assms(3) consider "find_uuid = portUUIDForName" "table = ''Port''"
    | "find_uuid = getBridgeUUIDForName" "table = ''Bridge''" by blast
  then show ?thesis
  proof cases
    case 1
    show ?thesis unfolding 1 db [symmetric]
      using wf unique unfolding 1 by (rule port_index.find_correct)
  next
    case 2
    show ?thesis unfolding 2 db [symmetric]
      using wf unique unfolding 2 by (rule bridge_index.find_correct)
  qed
qed

theorem uuid_lookup_correct_witness:
  "portUUIDForName (local_cache lab_monitored) ''ovs-veth0-4f9a8'' = ''c0ffee''"
proof -
  have srv: "server lab_monitored t u = (if t = ''Port'' \<and> u = ''c0ffee'' then Some lab_port_row else None)" for t u
    by (simp add: lab_monitored_def lab_port_lookup)
  have "named lab_port_row ''ovs-veth0-4f9a8''"
    by (simp add: named_def rowField_def lab_port_row_def)
  moreover have "\<forall>u row. server lab_monitored ''Port'' u = Some row \<longrightarrow> named row ''ovs-veth0-4f9a8'' \<longrightarrow>
      portUUIDForName (local_cache lab_monitored) ''ovs-veth0-4f9a8'' = u"
    by (rule conjunct2 [OF uuid_lookup_correct [OF lab_monitored_reachable]])
      (simp_all add: srv lab_monitored_def [THEN arg_cong [where f = inflight]] split: if_splits)
  ultimately show ?thesis by (simp add: srv)
qed

end
