(* ===== verification/Ovs_Transact.thy ===== *)
theory Ovs_Transact
  imports Ovs_Cache
begin

text \<open>
  The transactions of the plugin: the queries of \<open>ovs/ovsdb.go\<close>, the port operations of
  \<open>ovs/ovs_port.go\<close> and the creation of bridges of \<open>ovs/ovs_bridge.go\<close>.

  Every one of them builds a list of operations, sends it with \<open>Transact\<close> and looks at the
  replies; the error of \<open>Transact\<close> itself is dropped (\<open>reply, _ :=\<close>), which leaves the nil
  slice of replies. How the replies are looked at is a contract of its own
  (\<open>reply_check\<close>), in a strict form that counts them and a lenient form that does not.
\<close>

section \<open>Sending and checking\<close>

definition ovsTransact ::
    "('w, 'z) env_scheme \<Rightarrow> Operation list \<Rightarrow> ('w plugin, OperationResult list) gom" where
  "ovsTransact env operations s = (case ovsdb s of
       None \<Rightarrow> (Panic NilDereference, s)
     | Some ovs \<Rightarrow>
         tryG (onWorld (Transact env ovs ''Open_vSwitch'' operations)) retG (\<lambda>_. retG []) s)"

text \<open>
  The loop over the replies: an entry with an error ends it, with one message while the index
  is below the number of operations and with another one beyond.
\<close>

fun scanReplies ::
    "(nat \<Rightarrow> OperationResult \<Rightarrow> goerr) \<Rightarrow> (OperationResult \<Rightarrow> goerr) \<Rightarrow> nat \<Rightarrow> nat \<Rightarrow>
     OperationResult list \<Rightarrow> unit go" where
  "scanReplies inOp beyond n i [] = Ok ()"
| "scanReplies inOp beyond n i (r # rs) =
     (if res_Error r \<noteq> '''' \<and> i < n then Err (inOp i r)
      else if res_Error r \<noteq> '''' then Err (beyond r)
      else scanReplies inOp beyond n (Suc i) rs)"

abbreviation tooFewReplies :: goerr where
  "tooFewReplies \<equiv> ErrNew ''Number of Replies should be atleast equal to number of Operations''"

locale reply_check =
  fixes check :: "OperationResult list \<Rightarrow> unit go" and enough :: "OperationResult list \<Rightarrow> bool"
  assumes check_Ok_iff: "check rs = Ok () \<longleftrightarrow> enough rs \<and> (\<forall>r \<in> set rs. res_Error r = '''')"
    and check_total: "check rs = Ok () \<or> is_Err (check rs)"
begin

lemma check_reports: "r \<in> set rs \<Longrightarrow> res_Error r \<noteq> '''' \<Longrightarrow> is_Err (check rs)"
  using check_Ok_iff check_total by blast

end

locale strict_reply_check = reply_check check "\<lambda>rs. n \<le> length rs"
  for check :: "OperationResult list \<Rightarrow> unit go" and n :: nat +
  assumes some_operation: "0 < n"
begin

lemma failed_transaction_reported: "is_Err (check [])"
  using check_Ok_iff [of "[]"] check_total [of "[]"] some_operation by auto

end

locale lenient_reply_check = reply_check check "\<lambda>rs. True"
  for check :: "OperationResult list \<Rightarrow> unit go"
begin

lemma failed_transaction_silent: "check [] = Ok ()"
  using check_Ok_iff [of "[]"] by simp

end

lemma scanReplies_Ok_iff:
  "scanReplies f g n i rs = Ok () \<longleftrightarrow> (\<forall>r \<in> set rs. res_Error r = '''')"
  by (induction rs arbitrary: i) auto

lemma scanReplies_is_Err_iff:
  "is_Err (scanReplies f g n i rs) \<longleftrightarrow> (\<exists>r \<in> set rs. res_Error r \<noteq> '''')"
  by (induction rs arbitrary: i) auto

section \<open>Building operations\<close>

definition selectOp :: "string \<Rightarrow> gov \<Rightarrow> Operation" where
  "selectOp table condition =
     zeroOperation\<lparr>op_Op := ''select'', op_Table := table, op_Where := [condition]\<rparr>"

definition insertOp :: "string \<Rightarrow> (string, gov) gomap \<Rightarrow> string \<Rightarrow> Operation" where
  "insertOp table row uuidName =
     zeroOperation\<lparr>op_Op := ''insert'', op_Table := table, op_Row := row, op_UUIDName := uuidName\<rparr>"

definition deleteOp :: "string \<Rightarrow> gov \<Rightarrow> Operation" where
  "deleteOp table condition =
     zeroOperation\<lparr>op_Op := ''delete'', op_Table := table, op_Where := [condition]\<rparr>"

definition mutateOp :: "string \<Rightarrow> gov \<Rightarrow> gov \<Rightarrow> Operation" where
  "mutateOp table mutation condition =
     zeroOperation\<lparr>op_Op := ''mutate'', op_Table := table, op_Mutations := [mutation],
       op_Where := [condition]\<rparr>"

text \<open>\<open>mutateSet, _ := NewOvsSet([]UUID{UUID{u}})\<close>\<close>

definition uuidSet :: "string \<Rightarrow> gov" where
  "uuidSet u = (case NewOvsSet (GSlice [GUUID u]) of Ok v \<Rightarrow> v | _ \<Rightarrow> GNil)"

lemmas op_builders = selectOp_def insertOp_def deleteOp_def mutateOp_def zeroOperation_def

section \<open>Queries\<close>

definition portExists :: "('w, 'z) env_scheme \<Rightarrow> string \<Rightarrow> ('w plugin, bool) gom" where
  "portExists env portName =
     (let operations = [selectOp ''Port'' (NewCondition ''name'' ''=='' (GString portName))]
      in bindG (ovsTransact env operations) (\<lambda>reply.
         if length reply < length operations
         then failG (ErrNew ''Number of Replies should be at least equal to number of Operations'')
         else if res_Error (reply ! 0) \<noteq> ''''
         then failG (Errorf ''Transaction Failed due to an error: %v'' [EStr (res_Error (reply ! 0))])
         else if length (res_Rows (reply ! 0)) = 0 then retG False
         else retG True))"

text \<open>The type assertion \<open>row[column].(string)\<close>, without the comma-ok form.\<close>

definition stringField :: "(string, gov) gomap \<Rightarrow> string \<Rightarrow> string go" where
  "stringField row column = (case go_lookup row column of
       Some (GString v) \<Rightarrow> Ok v
     | _ \<Rightarrow> Panic TypeAssertion)"

text \<open>The three lookups in the table \<open>BridgeOpt\<close> differ in two columns and one message.\<close>

definition selectBridgeOpt ::
    "('w, 'z) env_scheme \<Rightarrow> string \<Rightarrow> string \<Rightarrow> string \<Rightarrow> string \<Rightarrow> ('w plugin, string) gom" where
  "selectBridgeOpt env column value result notFound =
     (let operations = [selectOp ''BridgeOpt'' (NewCondition column ''=='' (GString value))]
      in bindG (ovsTransact env operations) (\<lambda>reply.
         if length reply < length operations
         then failG (ErrNew ''Number of Replies should be at least equal to number of Operations'')
         else if res_Error (reply ! 0) \<noteq> ''''
         then failG (Errorf ''Transaction Failed due to an error: %v'' [EStr (res_Error (reply ! 0))])
         else if length (res_Rows (reply ! 0)) \<le> 0 then failG (ErrNew notFound)
         else liftG (stringField (res_Rows (reply ! 0) ! 0) result)))"

definition getBridgeServiceType :: "('w, 'z) env_scheme \<Rightarrow> string \<Rightarrow> ('w plugin, string) gom" where
  "getBridgeServiceType env bridgeName =
     selectBridgeOpt env ''name'' bridgeName ''service_type'' ''no record with bridge name''"

definition getNetworkidByBridgeName :: "('w, 'z) env_scheme \<Rightarrow> string \<Rightarrow> ('w plugin, string) gom" where
  "getNetworkidByBridgeName env bridgeName =
     selectBridgeOpt env ''name'' bridgeName ''network_id'' ''no record with bridge name''"

definition getBridgeNameByNetworkId :: "('w, 'z) env_scheme \<Rightarrow> string \<Rightarrow> ('w plugin, string) gom" where
  "getBridgeNameByNetworkId env networkid =
     selectBridgeOpt env ''network_id'' networkid ''name'' ''no record with networkid''"

section \<open>Ports\<close>

text \<open>The three operations that add a port: its interface, the port, and the bridge's port set.\<close>

definition portOps :: "string \<Rightarrow> (string, gov) gomap \<Rightarrow> (string, gov) gomap \<Rightarrow> Operation list" where
  "portOps bridgeName intf port =
     [insertOp ''Interface'' intf ''intf'',
      insertOp ''Port'' port ''port'',
      mutateOp ''Bridge'' (NewMutation ''ports'' ''insert'' (uuidSet ''port''))
        (NewCondition ''name'' ''=='' (GString bridgeName))]"

definition addInternalPort_ops :: "string \<Rightarrow> string \<Rightarrow> 64 word \<Rightarrow> Operation list" where
  "addInternalPort_ops bridgeName portName tag =
     portOps bridgeName
       [(''name'', GString portName), (''type'', GString ''internal'')]
       ([(''name'', GString portName), (''interfaces'', GUUID ''intf'')] @
        (if tag \<noteq> 0 then [(''tag'', GUint tag)] else []))"

definition addInternalPort_check :: "OperationResult list \<Rightarrow> unit go" where
  "addInternalPort_check reply =
     (if length reply < 3 then Err tooFewReplies
      else scanReplies
        (\<lambda>i r. Errorf ''Transaction Failed due to an error : %v details: %v in %v''
          [EStr (res_Error r), EStr (res_Details r), EOp i])
        (\<lambda>r. Errorf ''Transaction Failed due to an error : %v'' [EStr (res_Error r)]) 3 0 reply)"

definition addInternalPort ::
    "('w, 'z) env_scheme \<Rightarrow> string \<Rightarrow> string \<Rightarrow> 64 word \<Rightarrow> ('w plugin, unit) gom" where
  "addInternalPort env bridgeName portName tag =
     bindG (ovsTransact env (addInternalPort_ops bridgeName portName tag)) (\<lambda>reply.
     liftG (addInternalPort_check reply))"

text \<open>The error of \<open>addInternalPort\<close> is dropped.\<close>

definition createOvsInternalPort ::
    "('w, 'z) env_scheme \<Rightarrow> string \<Rightarrow> string \<Rightarrow> 64 word \<Rightarrow> ('w plugin, string) gom" where
  "createOvsInternalPort env prefix bridge tag s =
     (if ovsdb s = None then failG (ErrNew ''OVS not connected'') s
      else tryG (addInternalPort env bridge prefix tag) (\<lambda>_. retG prefix) (\<lambda>_. retG prefix) s)"

definition deletePort_ops :: "string \<Rightarrow> string \<Rightarrow> string \<Rightarrow> Operation list" where
  "deletePort_ops bridgeName portName portUUID =
     [deleteOp ''Port'' (NewCondition ''name'' ''=='' (GString portName)),
      mutateOp ''Bridge'' (NewMutation ''ports'' ''delete'' (uuidSet portUUID))
        (NewCondition ''name'' ''=='' (GString bridgeName))]"

definition deletePort_check :: "OperationResult list \<Rightarrow> unit go" where
  "deletePort_check reply =
     (if length reply < 2 then Err tooFewReplies
      else scanReplies
        (\<lambda>i r. Errorf ''Transaction Failed due to an error: %s in %v'' [EStr (res_Error r), EOp i])
        (\<lambda>r. Errorf ''Transaction Failed due to an error %s'' [EStr (res_Error r)]) 2 0 reply)"

definition deletePort :: "('w, 'z) env_scheme \<Rightarrow> string \<Rightarrow> string \<Rightarrow> ('w plugin, unit) gom" where
  "deletePort env bridgeName portName =
     bindG (readG ovsdbCache) (\<lambda>cache.
       (let portUUID = portUUIDForName cache portName
        in if portUUID = ''''
           then failG (Errorf ''Unable to find a matching Port : [ %s ]'' [EStr portName])
           else bindG (ovsTransact env (deletePort_ops bridgeName portName portUUID)) (\<lambda>reply.
                liftG (deletePort_check reply))))"

definition addVxlanPort_ops :: "string \<Rightarrow> string \<Rightarrow> string \<Rightarrow> Operation list" where
  "addVxlanPort_ops bridgeName portName peerAddress =
     portOps bridgeName
       [(''name'', GString portName), (''type'', GString ''vxlan''),
        (''options'', (case NewOvsMap (GMap [(''remote_ip'', GString peerAddress)]) of
           Ok v \<Rightarrow> v | _ \<Rightarrow> GNil))]
       [(''name'', GString portName), (''interfaces'', GUUID ''intf'')]"

text \<open>The errors found in the replies are printed and nothing is returned.\<close>

definition addVxlanPort ::
    "('w, 'z) env_scheme \<Rightarrow> string \<Rightarrow> string \<Rightarrow> string \<Rightarrow> ('w plugin, unit) gom" where
  "addVxlanPort env bridgeName portName peerAddress =
     bindG (ovsTransact env (addVxlanPort_ops bridgeName portName peerAddress)) (\<lambda>reply. retG ())"

text \<open>\<open>addOvsVethPort\<close>: the tag is not used, and too few replies are logged only.\<close>

definition addOvsVethPort_ops :: "string \<Rightarrow> string \<Rightarrow> Operation list" where
  "addOvsVethPort_ops bridgeName portName =
     portOps bridgeName
       [(''name'', GString portName), (''type'', GString ''system'')]
       [(''name'', GString portName), (''interfaces'', GUUID ''intf'')]"

definition addOvsVethPort_check :: "OperationResult list \<Rightarrow> unit go" where
  "addOvsVethPort_check reply =
     scanReplies
       (\<lambda>i r. Errorf ''Transaction Failed due to an error ]''
         [EStr (res_Error r), EStr '' details:'', EStr (res_Details r), EStr '' in '', EOp i])
       (\<lambda>r. Errorf ''Transaction Failed due to an error :'' [EStr (res_Error r)]) 3 0 reply"

definition addOvsVethPort ::
    "('w, 'z) env_scheme \<Rightarrow> string \<Rightarrow> string \<Rightarrow> 64 word \<Rightarrow> ('w plugin, unit) gom" where
  "addOvsVethPort env bridgeName portName tag =
     bindG (ovsTransact env (addOvsVethPort_ops bridgeName portName)) (\<lambda>reply.
     liftG (addOvsVethPort_check reply))"

section \<open>Creation of a bridge\<close>

definition isGatewayType :: "string \<Rightarrow> bool" where
  "isGatewayType t \<longleftrightarrow> equalFold t ''pgw'' \<or> equalFold t ''sgw''"

definition createOvsdbBridge_ops :: "string \<Rightarrow> string \<Rightarrow> string \<Rightarrow> string \<Rightarrow> Operation list" where
  "createOvsdbBridge_ops bridgeName servicetype networkid rootUUID =
     [insertOp ''Interface'' [(''name'', GString bridgeName), (''type'', GString ''internal'')] ''intf'',
      insertOp ''Port'' [(''name'', GString bridgeName), (''interfaces'', GUUID ''intf'')] ''port'',
      insertOp ''Bridge''
        ([(''name'', GString bridgeName), (''stp_enable'', GBool False), (''ports'', GUUID ''port'')] @
         (if isGatewayType servicetype then [(''datapath_type'', GString ''netdev'')] else []))
        ''bridge'',
      insertOp ''BridgeOpt''
        [(''name'', GString bridgeName), (''service_type'', GString servicetype),
         (''network_id'', GString networkid)] '''',
      mutateOp ''Open_vSwitch'' (NewMutation ''bridges'' ''insert'' (uuidSet ''bridge''))
        (NewCondition ''_uuid'' ''=='' (GUUID rootUUID))]"

definition createOvsdbBridge_check :: "OperationResult list \<Rightarrow> unit go" where
  "createOvsdbBridge_check reply =
     (let msg = (\<lambda>r. ErrNew (''Transaction Failed due to an error :'' @ res_Error r @
                 '' details : '' @ res_Details r))
      in if length reply < 5 then Err tooFewReplies
         else scanReplies (\<lambda>i. msg) msg 5 0 reply)"

definition createOvsdbBridge ::
    "('w, 'z) env_scheme \<Rightarrow> string \<Rightarrow> string \<Rightarrow> string \<Rightarrow> ('w plugin, unit) gom" where
  "createOvsdbBridge env bridgeName servicetype networkid =
     bindG (readG (\<lambda>s. getRootUUID (ovsdbCache s))) (\<lambda>root.
     bindG (ovsTransact env (createOvsdbBridge_ops bridgeName servicetype networkid root)) (\<lambda>reply.
     liftG (createOvsdbBridge_check reply)))"

text \<open>The error is logged and nil is returned.\<close>

definition createBridgeIface ::
    "('w, 'z) env_scheme \<Rightarrow> string \<Rightarrow> string \<Rightarrow> string \<Rightarrow> ('w plugin, unit) gom" where
  "createBridgeIface env name servicetype networkid =
     tryG (createOvsdbBridge env name servicetype networkid) (\<lambda>_. retG ()) (\<lambda>_. retG ())"

definition addBridge ::
    "('w, 'z) env_scheme \<Rightarrow> string \<Rightarrow> string \<Rightarrow> string \<Rightarrow> ('w plugin, unit) gom" where
  "addBridge env bridgeName servicetype networkid s =
     (if ovsdb s = None then failG (ErrNew ''OVS not connected'') s
      else bindG (portExists env bridgeName) (\<lambda>exists.
        if \<not> exists then
          bindG (createBridgeIface env bridgeName servicetype networkid) (\<lambda>_.
          bindG (portExists env bridgeName) (\<lambda>exists'.
          if \<not> exists' then failG (ErrNew ''Error creating Bridge'') else retG ()))
        else retG ()) s)"

section \<open>The checks meet their contracts\<close>

interpretation internal_port: strict_reply_check addInternalPort_check 3
  by unfold_locales
    (auto simp: addInternalPort_check_def scanReplies_Ok_iff scanReplies_is_Err_iff)

interpretation delete_port: strict_reply_check deletePort_check 2
  by unfold_locales (auto simp: deletePort_check_def scanReplies_Ok_iff scanReplies_is_Err_iff)

interpretation create_bridge: strict_reply_check createOvsdbBridge_check 5
  by unfold_locales
    (auto simp: createOvsdbBridge_check_def Let_def scanReplies_Ok_iff scanReplies_is_Err_iff)

interpretation veth_port: lenient_reply_check addOvsVethPort_check
  by unfold_locales (auto simp: addOvsVethPort_check_def scanReplies_Ok_iff scanReplies_is_Err_iff)

section \<open>What the transactions leave alone\<close>

lemma keepsG_ovsTransact [keeps_intros]: "keepsG (only_world s0) (ovsTransact env ops)"
proof -
  have "keepsG (only_world s0) (tryG (onWorld (Transact env ovs db ops)) retG (\<lambda>_. retG []))" for ovs db
    by (intro keeps_intros)
  then show ?thesis
    by (auto simp: keepsG_def ovsTransact_def split: option.splits)
qed

lemma keepsG_portExists [keeps_intros]: "keepsG (only_world s0) (portExists env p)"
  unfolding portExists_def Let_def by (intro keeps_intros)

lemma keepsG_selectBridgeOpt [keeps_intros]: "keepsG (only_world s0) (selectBridgeOpt env c v r nf)"
  unfolding selectBridgeOpt_def Let_def by (intro keeps_intros)

lemma keepsG_bridgeOpt_queries [keeps_intros]:
  "keepsG (only_world s0) (getBridgeServiceType env b)"
  "keepsG (only_world s0) (getNetworkidByBridgeName env b)"
  "keepsG (only_world s0) (getBridgeNameByNetworkId env n)"
  unfolding getBridgeServiceType_def getNetworkidByBridgeName_def getBridgeNameByNetworkId_def
  by (intro keeps_intros)+

lemma keepsG_deletePort [keeps_intros]: "keepsG (only_world s0) (deletePort env b p)"
  unfolding deletePort_def Let_def by (intro keeps_intros)

lemma keepsG_addOvsVethPort [keeps_intros]: "keepsG (only_world s0) (addOvsVethPort env b p t)"
  unfolding addOvsVethPort_def by (intro keeps_intros)

lemma keepsG_createOvsdbBridge [keeps_intros]: "keepsG (only_world s0) (createOvsdbBridge env b t n)"
  unfolding createOvsdbBridge_def by (intro keeps_intros)

lemma keepsG_createBridgeIface [keeps_intros]: "keepsG (only_world s0) (createBridgeIface env b t n)"
  unfolding createBridgeIface_def by (intro keeps_intros)

lemma keepsG_addBridge [keeps_intros]: "keepsG (only_world s0) (addBridge env b t n)"
  unfolding addBridge_def by (intro keeps_intros keepsG_if_state)

section \<open>Transactions and the schema\<close>

definition has_columns :: "DatabaseSchema \<Rightarrow> string \<Rightarrow> string list \<Rightarrow> bool" where
  "has_columns db table cols \<longleftrightarrow> (case go_lookup (db_Tables db) table of
     None \<Rightarrow> False | Some t \<Rightarrow> list_all (has_key (tbl_Columns t)) cols)"

text \<open>The tables and columns the plugin writes; \<open>BridgeOpt\<close> is not part of the stock schema.\<close>

definition plugin_schema :: "DatabaseSchema \<Rightarrow> bool" where
  "plugin_schema db \<longleftrightarrow>
     has_columns db ''Interface'' [''name'', ''type'', ''options''] \<and>
     has_columns db ''Port'' [''name'', ''interfaces'', ''tag''] \<and>
     has_columns db ''Bridge'' [''name'', ''stp_enable'', ''ports'', ''datapath_type''] \<and>
     has_columns db ''BridgeOpt'' [''name'', ''service_type'', ''network_id''] \<and>
     has_columns db ''Open_vSwitch'' []"

lemma fitsSchema_columns:
  "has_columns db (op_Table p) cols \<Longrightarrow> operationColumns p \<subseteq> set cols \<Longrightarrow> fitsSchema db p"
  by (auto simp: has_columns_def fitsSchema_def has_key_def list_all_iff split: option.splits)

lemma op_columns [simp]:
  "operationColumns (selectOp t c) = {}"
  "operationColumns (insertOp t r u) = fst ` set r"
  "operationColumns (deleteOp t c) = {}"
  "operationColumns (mutateOp t m c) = {}"
  by (simp_all add: operationColumns_def op_builders)

lemma op_tables [simp]:
  "op_Table (selectOp t c) = t" "op_Table (insertOp t r u) = t"
  "op_Table (deleteOp t c) = t" "op_Table (mutateOp t m c) = t"
  by (simp_all add: op_builders)

lemma fitsSchema_insert:
  "has_columns db t cols \<Longrightarrow> fst ` set r \<subseteq> set cols \<Longrightarrow> fitsSchema db (insertOp t r u)"
  using fitsSchema_columns [of db "insertOp t r u" cols] by simp

lemma fitsSchema_no_row:
  "has_columns db t cols \<Longrightarrow> fitsSchema db (selectOp t c)"
  "has_columns db t cols \<Longrightarrow> fitsSchema db (deleteOp t c)"
  "has_columns db t cols \<Longrightarrow> fitsSchema db (mutateOp t m c)"
  using fitsSchema_columns [of db _ cols] by simp_all

lemma portOps_fit:
  assumes "plugin_schema db" "fst ` set intf \<subseteq> {''name'', ''type'', ''options''}"
    and "fst ` set port \<subseteq> {''name'', ''interfaces'', ''tag''}"
  shows "list_all (fitsSchema db) (portOps b intf port)"
proof -
  have "fitsSchema db (insertOp ''Interface'' intf ''intf'')"
    using assms by (intro fitsSchema_insert [where cols = "[''name'', ''type'', ''options'']"])
      (auto simp: plugin_schema_def)
  moreover have "fitsSchema db (insertOp ''Port'' port ''port'')"
    using assms by (intro fitsSchema_insert [where cols = "[''name'', ''interfaces'', ''tag'']"])
      (auto simp: plugin_schema_def)
  ultimately show ?thesis
    using assms(1) by (auto simp: portOps_def plugin_schema_def intro: fitsSchema_no_row)
qed

lemma createOvsdbBridge_ops_fit:
  assumes "plugin_schema db"
  shows "list_all (fitsSchema db) (createOvsdbBridge_ops b t n root)"
  using assms unfolding createOvsdbBridge_ops_def plugin_schema_def
  by (auto intro: fitsSchema_insert fitsSchema_no_row)

lemma deletePort_ops_fit:
  assumes "plugin_schema db"
  shows "list_all (fitsSchema db) (deletePort_ops b p u)"
  using assms unfolding deletePort_ops_def plugin_schema_def
  by (auto intro: fitsSchema_insert fitsSchema_no_row)

lemma ovsTransact_invalid:
  assumes "ovsdb s = Some ovs"
    and "\<not> (\<exists>db. go_lookup (Schema ovs) ''Open_vSwitch'' = Some db \<and> list_all (fitsSchema db) ops)"
  shows "ovsTransact env ops s = (Ok [], s)"
proof -
  from Transact_invalid [OF assms(2), of env "world s"]
  obtain e where "Transact env ovs ''Open_vSwitch'' ops (world s) = (Err e, world s)" ..
  then have "onWorld (Transact env ovs ''Open_vSwitch'' ops) s = (Err e, s)"
    by (simp add: onWorld_eq)
  with assms(1) show ?thesis by (simp add: ovsTransact_def retG_def)
qed

text \<open>What happens on a server whose schema has no table \<open>BridgeOpt\<close>.\<close>

definition without_BridgeOpt :: "OvsdbClient \<Rightarrow> bool" where
  "without_BridgeOpt ovs \<longleftrightarrow> (case go_lookup (Schema ovs) ''Open_vSwitch'' of
     None \<Rightarrow> True | Some db \<Rightarrow> go_lookup (db_Tables db) ''BridgeOpt'' = None)"

lemma no_BridgeOpt_no_transaction:
  assumes "ovsdb s = Some ovs" "without_BridgeOpt ovs" "p \<in> set ops" "op_Table p = ''BridgeOpt''"
  shows "ovsTransact env ops s = (Ok [], s)"
  using assms
  by (intro ovsTransact_invalid)
    (auto simp: without_BridgeOpt_def fitsSchema_def list_all_iff split: option.splits
      intro!: bexI [of _ p])

lemma createOvsdbBridge_without_BridgeOpt:
  assumes "ovsdb s = Some ovs" "without_BridgeOpt ovs"
  shows "createOvsdbBridge env b t n s = (Err tooFewReplies, s)"
proof -
  let ?root = "getRootUUID (ovsdbCache s)"
  have "ovsTransact env (createOvsdbBridge_ops b t n ?root) s = (Ok [], s)"
    using assms by (rule no_BridgeOpt_no_transaction) (auto simp: createOvsdbBridge_ops_def)
  then show ?thesis
    by (simp add: createOvsdbBridge_def readG_def createOvsdbBridge_check_def liftG_def)
qed

lemma selectBridgeOpt_without_BridgeOpt:
  assumes "ovsdb s = Some ovs" "without_BridgeOpt ovs"
  shows "\<exists>e. selectBridgeOpt env c v r nf s = (Err e, s)"
proof -
  have "ovsTransact env [selectOp ''BridgeOpt'' (NewCondition c ''=='' (GString v))] s = (Ok [], s)"
    using assms by (rule no_BridgeOpt_no_transaction) auto
  then show ?thesis by (simp add: selectBridgeOpt_def failG_def)
qed

section \<open>References between the rows of a transaction\<close>

text \<open>The named UUIDs in a value: those that \<open>MarshalJSON\<close> writes as \<open>named-uuid\<close>.\<close>

fun namedRefs :: "gov \<Rightarrow> string list" where
  "namedRefs (GUUID u) = (if validateUUID u = Ok () then [] else [u])"
| "namedRefs (GSlice vs) = concat (map namedRefs vs)"
| "namedRefs (GOvsSet vs) = concat (map namedRefs vs)"
| "namedRefs _ = []"

definition operationRefs :: "Operation \<Rightarrow> string list" where
  "operationRefs p = concat (map namedRefs (map snd (op_Row p) @ op_Mutations p @ op_Where p))"

text \<open>Every named UUID is the \<open>uuid-name\<close> of an earlier insertion, and no name is used twice.\<close>

fun closedRefs :: "string list \<Rightarrow> Operation list \<Rightarrow> bool" where
  "closedRefs seen [] = True"
| "closedRefs seen (p # ps) =
     (set (operationRefs p) \<subseteq> set seen \<and>
      (op_UUIDName p = '''' \<or> op_UUIDName p \<notin> set seen) \<and>
      closedRefs (if op_UUIDName p = '''' then seen else op_UUIDName p # seen) ps)"

lemma short_not_uuid: "length u \<noteq> 36 \<Longrightarrow> validateUUID u \<noteq> Ok ()"
  by (simp add: validateUUID_def)

lemmas refs_simps = operationRefs_def op_builders uuidSet_def NewOvsSet_def NewMutation_def
  NewCondition_def NewOvsMap_def short_not_uuid

lemma portOps_closed:
  assumes "set (concat (map (namedRefs \<circ> snd) intf)) = {}"
    and "set (concat (map (namedRefs \<circ> snd) port)) \<subseteq> {''intf''}"
  shows "closedRefs [] (portOps b intf port)"
  using assms by (auto simp: portOps_def refs_simps)

lemma createOvsdbBridge_ops_closed:
  "validateUUID root = Ok () \<Longrightarrow> closedRefs [] (createOvsdbBridge_ops b t n root)"
  by (simp add: createOvsdbBridge_ops_def refs_simps)

section \<open>addBridge\<close>

text \<open>Success is reported only when the server has said that the port exists.\<close>

lemma addBridge_Ok:
  assumes "addBridge env b t n s = (Ok (), s')"
  shows "\<exists>s1. portExists env b s1 = (Ok True, s')"
proof -
  have "bindG (portExists env b) (\<lambda>ex.
        if \<not> ex then bindG (createBridgeIface env b t n) (\<lambda>_.
          bindG (portExists env b) (\<lambda>ex'.
          if \<not> ex' then failG (ErrNew ''Error creating Bridge'') else retG ()))
        else retG ()) s = (Ok (), s')"
    using assms by (auto simp: addBridge_def failG_def split: if_splits)
  then show ?thesis
    by (auto simp: bindG_Ok_iff failG_def retG_def split: if_splits)
qed

end
