(* ===== verification/Ovs_Utils.thy ===== *)
theory Ovs_Utils
  imports Scripted_World
begin

text \<open>
  The helpers of \<open>ovs/utils.go\<close> and the link helpers of \<open>ovs/driver.go\<close>: addresses, network
  interfaces, shell commands and the \<open>linkerGateway\<close> service.
\<close>

section \<open>Addresses\<close>

text \<open>\<open>net.HardwareAddr.String\<close>\<close>

definition hwString :: "bytes \<Rightarrow> string" where
  "hwString hw = joinWith '':'' (map hexByte hw)"

definition makeMac :: "bytes \<Rightarrow> string" where
  "makeMac ip = hwString ([0x7a, 0x42] @ (case To4 ip of Some b \<Rightarrow> b | None \<Rightarrow> replicate 4 0))"

text \<open>The inner loop of \<open>ipIncrement\<close>: the last \<open>k\<close> of the positions up to 15 are cleared.\<close>

fun clearTail :: "nat \<Rightarrow> bytes \<Rightarrow> bytes go" where
  "clearTail 0 addr = Ok addr"
| "clearTail (Suc k) addr =
     (if 15 - k < length addr then clearTail k (addr[15 - k := 0]) else Panic IndexOutOfRange)"

text \<open>The outer loop, from position \<open>i - 1\<close> down to 0.\<close>

fun incrementFrom :: "nat \<Rightarrow> bytes \<Rightarrow> bytes go" where
  "incrementFrom 0 addr = Ok addr"
| "incrementFrom (Suc i) addr =
     (if i < length addr then
        (let b = addr ! i
         in if b < 255 then clearTail (15 - i) (addr[i := b + 1]) else incrementFrom i addr)
      else Panic IndexOutOfRange)"

definition ipIncrement :: "bytes \<Rightarrow> bytes go" where
  "ipIncrement networkAddr = incrementFrom 16 networkAddr"

section \<open>Interfaces\<close>

definition truncateID :: "string \<Rightarrow> string go" where
  "truncateID i = slicePrefix i 5"

definition vethPair :: "string \<Rightarrow> nl_link" where
  "vethPair suffix = \<lparr>nl_Name = ''ovs-veth0-'' @ suffix, nl_Index = 0, nl_PeerName = ''ethc'' @ suffix\<rparr>"

text \<open>The log call reads the name of the nil link that comes with the error.\<close>

definition interfaceUp :: "('w, 'z) env_scheme \<Rightarrow> string \<Rightarrow> ('w plugin, unit) gom" where
  "interfaceUp env name =
     tryG (onWorld (LinkByName env name)) (\<lambda>iface. onWorld (LinkSetUp env iface))
       (\<lambda>_. liftG (Panic NilDereference))"

definition ParseIPNet :: "string \<Rightarrow> ipnet go" where
  "ParseIPNet s =
     bind_go (ParseCIDR s) (\<lambda>(ip, ipNet). Ok \<lparr>net_IP = ip, net_Mask = net_Mask ipNet\<rparr>)"

definition getIfaceAddr :: "('w, 'z) env_scheme \<Rightarrow> string \<Rightarrow> ('w plugin, ipnet) gom" where
  "getIfaceAddr env name =
     bindG (onWorld (LinkByName env name)) (\<lambda>iface.
     bindG (onWorld (AddrList env iface)) (\<lambda>addrs.
       if length addrs = 0 then failG (Errorf ''Interface %s has no IP addresses'' [EStr name])
       else retG (addrs ! 0)))"

definition setInterfaceIP :: "('w, 'z) env_scheme \<Rightarrow> string \<Rightarrow> string \<Rightarrow> ('w plugin, unit) gom" where
  "setInterfaceIP env name rawIP =
     tryG (retryG 2 (onWorld (LinkByName env name)) (\<lambda>_. onWorld (Sleep env 2)) (ErrNew ''''))
       (\<lambda>iface. bindG (liftG (ParseIPNet rawIP)) (\<lambda>ipNet. onWorld (AddrAdd env iface ipNet)))
       (\<lambda>_. liftG (Fatal ''Abandoning retrieving the new OVS bridge link from netlink''))"

definition validateIface :: "('w, 'z) env_scheme \<Rightarrow> string \<Rightarrow> ('w plugin, bool) gom" where
  "validateIface env ifaceStr =
     tryG (onWorld (InterfaceByName env ifaceStr)) (\<lambda>_. retG True) (\<lambda>_. retG False)"

definition getIPByInterface :: "('w, 'z) env_scheme \<Rightarrow> string \<Rightarrow> ('w plugin, string) gom" where
  "getIPByInterface env iname =
     bindG (onWorld (InterfaceByName env iname)) (\<lambda>_.
     bindG (onWorld (InterfaceAddrs env iname)) (\<lambda>addrs.
       if length addrs > 0 then
         retG (IPString (case ParseCIDR (addrs ! 0) of Ok (ip, _) \<Rightarrow> Some ip | _ \<Rightarrow> None))
       else failG (ErrNew ''get ip by interface name error'')))"

section \<open>Commands and the gateway service\<close>

text \<open>The standard output, the standard error and the error of the call.\<close>

type_synonym cmd_result = "string \<times> string \<times> goerr option"

definition ExecCommandWithComplete ::
    "('w, 'z) env_scheme \<Rightarrow> string \<Rightarrow> ('w plugin, cmd_result) gom" where
  "ExecCommandWithComplete env input =
     tryG (onWorld (cmdStdoutPipe env input)) (\<lambda>_.
     tryG (onWorld (cmdStderrPipe env input)) (\<lambda>_.
     tryG (onWorld (cmdStart env input)) (\<lambda>_.
     tryG (onWorld (cmdReadStderr env input)) (\<lambda>bytesErr.
       (let reterrput = (if length bytesErr \<noteq> 0 then trimNewlines bytesErr else '''') in
     tryG (onWorld (cmdReadStdout env input)) (\<lambda>bytes.
       (let retoutput = (if length bytes \<noteq> 0 then trimNewlines bytes else '''') in
     tryG (onWorld (cmdWait env input))
       (\<lambda>_. retG (retoutput, reterrput, None))
       (\<lambda>e. retG (retoutput, reterrput, Some e))))
       (\<lambda>e. retG ('''', reterrput, Some e))))
       (\<lambda>e. retG ('''', '''', Some e)))
       (\<lambda>e. retG ('''', '''', Some e)))
       (\<lambda>e. retG ('''', '''', Some e)))
       (\<lambda>e. retG ('''', '''', Some e))"

definition serviceName :: string where
  "serviceName = ''/etc/systemd/system/linkerGateway.service''"

definition newline :: string where
  "newline = [CHR 0x0A]"

text \<open>The template \<open>systemDConfig\<close> with its one field filled in; it always parses.\<close>

definition systemDConfig :: "string \<Rightarrow> string" where
  "systemDConfig command =
     ''[Unit]'' @ newline @ ''Description=Linker pgateway or sgateway process'' @ newline @
     ''[Service]'' @ newline @ ''ExecStart='' @ command @ newline @
     ''[Install]'' @ newline @ ''WantedBy=multi-user.target'' @ newline"

definition StartOvsService :: "('w, 'z) env_scheme \<Rightarrow> string \<Rightarrow> ('w plugin, unit) gom" where
  "StartOvsService env input =
     bindG (onWorld (osCreate env serviceName)) (\<lambda>_.
     bindG (onWorld (osWrite env serviceName (systemDConfig input))) (\<lambda>_.
     bindG (onWorld (cmdRun env ''systemctl'' [''daemon-reload''])) (\<lambda>_.
     bindG (onWorld (cmdRun env ''systemctl'' [''start'', ''linkerGateway.service''])) (\<lambda>_.
     tryG (onWorld (cmdRun env ''systemctl'' [''enable'', ''linkerGateway.service'']))
       retG (\<lambda>_. retG ())))))"

definition stopOvsService :: "('w, 'z) env_scheme \<Rightarrow> ('w plugin, unit) gom" where
  "stopOvsService env =
     bindG (onWorld (cmdRun env ''systemctl'' [''stop'', ''linkerGateway.service''])) (\<lambda>_.
     bindG (tryG (onWorld (cmdRun env ''systemctl'' [''disable'', ''linkerGateway.service'']))
       retG (\<lambda>_. retG ())) (\<lambda>_.
     onWorld (osRemove env serviceName)))"

section \<open>What the helpers leave alone\<close>

lemma keepsG_utils [keeps_intros]:
  "keepsG (only_world s0) (interfaceUp env name)"
  "keepsG (only_world s0) (getIfaceAddr env name)"
  "keepsG (only_world s0) (setInterfaceIP env name rawIP)"
  "keepsG (only_world s0) (validateIface env name)"
  "keepsG (only_world s0) (getIPByInterface env name)"
  "keepsG (only_world s0) (StartOvsService env cmd)"
  "keepsG (only_world s0) (stopOvsService env)"
  unfolding interfaceUp_def getIfaceAddr_def setInterfaceIP_def validateIface_def
    getIPByInterface_def StartOvsService_def stopOvsService_def
  by (intro keeps_intros)+

lemma keepsG_ExecCommand [keeps_intros]:
  "keepsG (only_world s0) (ExecCommandWithComplete env input)"
  unfolding ExecCommandWithComplete_def Let_def by (intro keeps_intros)

section \<open>Correctness of ipIncrement\<close>

text \<open>The number that a big-endian byte string denotes.\<close>

definition beValue :: "bytes \<Rightarrow> nat" where
  "beValue bs = foldl (\<lambda>n b. n * 256 + unat b) 0 bs"

lemma foldl_be: "foldl (\<lambda>n b. n * 256 + unat b) m bs = m * 256 ^ length bs + beValue (bs :: bytes)"
proof (induction bs arbitrary: m)
  case (Cons b bs)
  have "beValue (b # bs) = unat b * 256 ^ length bs + beValue bs"
    using Cons [of "unat b"] by (simp add: beValue_def)
  with Cons [of "m * 256 + unat b"] show ?case by (simp add: algebra_simps)
qed (simp add: beValue_def)

lemma beValue_append: "beValue (as @ bs) = beValue as * 256 ^ length bs + beValue bs"
  using foldl_be [of "beValue as" bs] by (simp add: beValue_def)

lemma beValue_single [simp]: "beValue [b] = unat b"
  by (simp add: beValue_def)

lemma beValue_Nil [simp]: "beValue [] = 0"
  by (simp add: beValue_def)

lemma beValue_Cons: "beValue (b # bs) = unat b * 256 ^ length bs + beValue bs"
  using beValue_append [of "[b]" bs] by simp

lemma beValue_zeros: "beValue (replicate k 0) = 0"
proof (induction k)
  case (Suc k)
  then show ?case using beValue_append [of "[0]" "replicate k 0"] by simp
qed simp

lemma beValue_ones: "beValue (replicate k 255) + 1 = 256 ^ k"
proof (induction k)
  case (Suc k)
  then show ?case using beValue_append [of "[255]" "replicate k 255"] by simp
qed simp

lemma byte_bound: "unat (b :: 8 word) < 256"
  using unsigned_less [of b] by simp

lemma beValue_bound: "beValue bs < 256 ^ length bs"
proof (induction bs rule: rev_induct)
  case (snoc b bs)
  with byte_bound [of b] show ?case by (simp add: beValue_append)
qed simp

lemma take_Suc_update: "n < length xs \<Longrightarrow> take (Suc n) (xs[n := v]) = take n xs @ [v]"
  by (simp add: take_Suc_conv_app_nth)

lemma clearTail_eq:
  "length xs = 16 \<Longrightarrow> k \<le> 16 \<Longrightarrow> clearTail k xs = Ok (take (16 - k) xs @ replicate k 0)"
proof (induction k arbitrary: xs)
  case (Suc k)
  let ?ys = "xs[15 - k := 0]"
  have len: "length ?ys = 16" "16 - k = Suc (15 - k)" using Suc.prems by simp_all
  have "take (Suc (15 - k)) ?ys = take (15 - k) xs @ [0]"
    using Suc.prems by (intro take_Suc_update) simp
  with len have "take (16 - k) ?ys @ replicate k 0 = take (16 - Suc k) xs @ replicate (Suc k) 0"
    by (simp add: replicate_append_same [symmetric])
  with Suc.prems Suc.IH [OF len(1)] show ?case by simp
qed simp

lemma split_at_byte:
  assumes "length xs = 16" "i < 16" "drop (Suc i) xs = replicate (15 - i) (255 :: 8 word)"
  shows "xs = take i xs @ [xs ! i] @ replicate (15 - i) 255"
  using assms id_take_nth_drop [of i xs] by simp

lemma beValue_carry:
  assumes "b < (255 :: 8 word)"
  shows "beValue (p @ [b + 1] @ replicate k 0) = beValue (p @ [b] @ replicate k 255) + 1"
proof -
  have "unat (b + 1) = unat b + 1"
    using assms by (simp add: unat_word_ariths word_less_nat_alt)
  then show ?thesis
    using beValue_ones [of k] by (simp add: beValue_append beValue_Cons beValue_zeros algebra_simps)
qed

lemma incrementFrom_value:
  assumes "length xs = 16" "i \<le> 16" "drop i xs = replicate (16 - i) 255"
  shows "\<exists>ys. incrementFrom i xs = Ok ys \<and> length ys = 16 \<and>
    beValue ys = (if beValue xs = 256 ^ 16 - 1 then beValue xs else beValue xs + 1)"
  using assms(2,3)
proof (induction i)
  case 0
  with assms(1) have "beValue xs = 256 ^ 16 - 1"
    using beValue_ones [of 16] by simp
  with assms(1) show ?case by simp
next
  case (Suc i)
  then have i: "i < 16" "16 - Suc i = 15 - i" by simp_all
  let ?b = "xs ! i" and ?p = "take i xs"
  have xs: "xs = ?p @ [?b] @ replicate (15 - i) 255"
    using assms(1) i Suc.prems(2) by (intro split_at_byte) simp_all
  show ?case
  proof (cases "?b < 255")
    case True
    let ?ys = "?p @ [?b + 1] @ replicate (15 - i) 0"
    have "16 - (15 - i) = Suc i" using i(1) by simp
    then have "clearTail (15 - i) (xs[i := ?b + 1]) = Ok (take (Suc i) (xs[i := ?b + 1]) @ replicate (15 - i) 0)"
      using assms(1) clearTail_eq [of "xs[i := ?b + 1]" "15 - i"] by simp
    moreover have "take (Suc i) (xs[i := ?b + 1]) = ?p @ [?b + 1]"
      using i(1) assms(1) by (intro take_Suc_update) simp
    ultimately have inc: "incrementFrom (Suc i) xs = Ok ?ys"
      using True i(1) assms(1) by (simp add: Let_def)
    have val: "beValue ?ys = beValue xs + 1"
      using beValue_carry [OF True, of ?p "15 - i"] xs by simp
    moreover have "length ?ys = 16" using i(1) assms(1) by simp
    moreover from this have "beValue xs \<noteq> 256 ^ 16 - 1"
      using val beValue_bound [of ?ys] by auto
    ultimately show ?thesis using inc by simp
  next
    case False
    with byte_bound [of ?b] have b: "?b = 255"
      by (simp add: word_less_nat_alt word_unat_eq_iff)
    have "drop i xs = ?b # drop (Suc i) xs"
      using i(1) assms(1) by (simp add: Cons_nth_drop_Suc)
    with b i Suc.prems(2) have "drop i xs = replicate (Suc (15 - i)) 255" by simp
    moreover have "Suc (15 - i) = 16 - i" using i(1) by simp
    ultimately have "drop i xs = replicate (16 - i) 255" by metis
    with Suc.IH i(1) have IH: "\<exists>ys. incrementFrom i xs = Ok ys \<and> length ys = 16 \<and>
        beValue ys = (if beValue xs = 256 ^ 16 - 1 then beValue xs else beValue xs + 1)"
      by simp
    have "incrementFrom (Suc i) xs = incrementFrom i xs"
      using False i(1) assms(1) by (simp add: Let_def)
    with IH show ?thesis by simp
  qed
qed

lemma incrementFrom_short: "length xs < 16 \<Longrightarrow> ipIncrement xs = Panic IndexOutOfRange"
  by (simp add: ipIncrement_def numeral_eq_Suc)

section \<open>Hardware addresses\<close>

lemma hexByte_inj: "hexByte a = hexByte b \<Longrightarrow> a = b"
proof -
  have inj: "i < 16 \<Longrightarrow> j < 16 \<Longrightarrow> hexDigit i = hexDigit j \<Longrightarrow> i = j" for i j
  proof -
    have "distinct ''0123456789abcdef''" by simp
    then show "i < 16 \<Longrightarrow> j < 16 \<Longrightarrow> hexDigit i = hexDigit j \<Longrightarrow> i = j"
      by (simp add: hexDigit_def nth_eq_iff_index_eq)
  qed
  assume "hexByte a = hexByte b"
  moreover have "unat a div 16 < 16" "unat b div 16 < 16"
    using byte_bound [of a] byte_bound [of b] by linarith+
  ultimately have "unat a div 16 = unat b div 16" "unat a mod 16 = unat b mod 16"
    using inj by (simp_all add: hexByte_def)
  then have "unat a = unat b" by (metis div_mult_mod_eq)
  then show "a = b" by (simp add: word_unat_eq_iff)
qed

lemma colon_not_hex: "CHR '':'' \<notin> set (hexByte b)"
proof -
  have "hexDigit d \<noteq> CHR '':''" if "d < 16" for d
  proof -
    have "hexDigit d \<in> set ''0123456789abcdef''"
      using that unfolding hexDigit_def by (intro nth_mem) simp
    then show ?thesis by auto
  qed
  moreover have "unat b div 16 < 16" using byte_bound [of b] by linarith
  ultimately show ?thesis by (simp add: hexByte_def) (metis mod_less_divisor zero_less_numeral)
qed

lemma hwString_inj:
  assumes "xs \<noteq> []" "ys \<noteq> []" "hwString xs = hwString ys"
  shows "xs = ys"
proof -
  have "splitOn (CHR '':'') (hwString zs) = map hexByte zs" if "zs \<noteq> []" for zs
    using that colon_not_hex unfolding hwString_def by (intro splitOn_joinWith) auto
  with assms have "map hexByte xs = map hexByte ys" by metis
  then show ?thesis by (rule map_injective) (auto intro!: injI hexByte_inj)
qed

section \<open>Properties\<close>

text \<open>C40. ipIncrement of an address in its 16-byte form adds one to the number the bytes denote and
  stays at the largest address, which has no successor; a shorter slice, such as an IPv4 address
  in 4 bytes, makes it panic.\<close>

theorem ipIncrement_correct:
  "(length ip = 16 \<longrightarrow> (\<exists>ys. ipIncrement ip = Ok ys \<and> length ys = 16 \<and>
      beValue ys = min (beValue ip + 1) (256 ^ 16 - 1))) \<and>
   (length ip < 16 \<longrightarrow> ipIncrement ip = Panic IndexOutOfRange)"
proof -
  have "\<exists>ys. ipIncrement ip = Ok ys \<and> length ys = 16 \<and> beValue ys = min (beValue ip + 1) (256 ^ 16 - 1)"
    if len: "length ip = 16"
  proof -
    have "beValue ip < 256 ^ 16" using beValue_bound [of ip] len by simp
    then have "(if beValue ip = 256 ^ 16 - 1 then beValue ip else beValue ip + 1) = min (beValue ip + 1) (256 ^ 16 - 1)"
      by (auto simp: min_def)
    moreover have "\<exists>ys. incrementFrom 16 ip = Ok ys \<and> length ys = 16 \<and>
        beValue ys = (if beValue ip = 256 ^ 16 - 1 then beValue ip else beValue ip + 1)"
      using len by (intro incrementFrom_value) simp_all
    ultimately show ?thesis by (simp only: ipIncrement_def)
  qed
  then show ?thesis using incrementFrom_short by blast
qed

theorem ipIncrement_correct_witness:
  "\<exists>ys. ipIncrement (replicate 12 0 @ [10, 1, 0, 255]) = Ok ys \<and>
     beValue ys = beValue (replicate 12 0 @ [10, 1, 0, 255]) + 1"
proof -
  have "beValue (replicate 12 0 @ [10, 1, 0, 255]) = 167837951" by code_simp
  with ipIncrement_correct [of "replicate 12 0 @ [10, 1, 0, 255]"] show ?thesis by auto
qed

text \<open>makeMac gives every IPv4 address, in its 4-byte or its 16-byte form, a hardware address of
  its own: equal addresses in either form share it and distinct ones never do.\<close>

lemma makeMac_injective:
  assumes "To4 ip = Some a" "To4 ip' = Some a'"
  shows "makeMac ip = makeMac ip' \<longleftrightarrow> a = a'"
  using assms hwString_inj [of "[0x7a, 0x42] @ a" "[0x7a, 0x42] @ a'"] by (auto simp: makeMac_def)

end
