(* ===== verification/Iptables.thy ===== *)
theory Iptables
  imports Scripted_World
begin

text \<open>
  The vendored package \<open>libnetwork/iptables\<close>: the wrapper \<open>Raw\<close> around the \<open>iptables\<close>
  program, which first asks firewalld when that service runs, and the chain operations built
  on it; and \<open>natOut\<close> of \<open>ovs/ovs_bridge.go\<close>, its only caller in the plugin.

  The package's variables \<open>iptablesPath\<close>, \<open>supportsXlock\<close> and \<open>firewalldRunning\<close> are part of
  the plugin's state. The best-effort mutex only serialises the calls and is left out.
\<close>

section \<open>Running iptables\<close>

abbreviation ErrIptablesNotFound :: goerr where
  "ErrIptablesNotFound \<equiv> ErrNew ''Iptables not found''"

definition initCheck :: "('w, 'z) env_scheme \<Rightarrow> ('w plugin, unit) gom" where
  "initCheck env s =
     (if iptablesPath s = '''' then
        tryG (onWorld (LookPath env ''iptables''))
          (\<lambda>path. bindG (modifyG (\<lambda>s. s\<lparr>iptablesPath := path\<rparr>)) (\<lambda>_.
             tryG (onWorld (cmdRun env path [''--wait'', ''-L'', ''-n'']))
               (\<lambda>_. modifyG (\<lambda>s. s\<lparr>supportsXlock := True\<rparr>))
               (\<lambda>_. modifyG (\<lambda>s. s\<lparr>supportsXlock := False\<rparr>))))
          (\<lambda>_. failG ErrIptablesNotFound) s
      else retG () s)"

definition xlockMessage :: string where
  "xlockMessage = ''waiting for it to exit''"

definition noFirewalldMessage :: string where
  "noFirewalldMessage = ''was not provided by any .service files''"

text \<open>The part of \<open>Raw\<close> after the firewalld branch.\<close>

definition rawExec :: "('w, 'z) env_scheme \<Rightarrow> string list \<Rightarrow> ('w plugin, string) gom" where
  "rawExec env args =
     bindG (initCheck env) (\<lambda>_.
     bindG (readG (\<lambda>s. (iptablesPath s, if supportsXlock s then ''--wait'' # args else args)))
       (\<lambda>(path, args').
     bindG (onWorld (cmdCombinedOutput env path args')) (\<lambda>(output, err).
       (case err of
          Some e \<Rightarrow> failG (Errorf ''iptables failed: iptables %v: %s (%s)''
            [EStr (joinWith '' '' args'), EStr output, EErr e])
        | None \<Rightarrow> retG (if containsStr output xlockMessage then '''' else output)))))"

definition Raw :: "('w, 'z) env_scheme \<Rightarrow> string list \<Rightarrow> ('w plugin, string) gom" where
  "Raw env args s =
     (if firewalldRunning s then
        tryG (onWorld (Passthrough env args)) retG
          (\<lambda>e. if \<not> containsStr (errText e) noFirewalldMessage then failG e else rawExec env args) s
      else rawExec env args s)"

definition ChainError :: "string \<Rightarrow> string \<Rightarrow> goerr" where
  "ChainError chain output = Errorf ''Error iptables %s: %s'' [EStr chain, EStr output]"

text \<open>The pattern \<open>if output, err := Raw(...); err != nil {...} else if len(output) != 0 {...}\<close>.\<close>

definition rawQuiet ::
    "('w, 'z) env_scheme \<Rightarrow> string list \<Rightarrow> (string \<Rightarrow> goerr) \<Rightarrow> ('w plugin, unit) gom" where
  "rawQuiet env args noisy =
     bindG (Raw env args) (\<lambda>output. if output \<noteq> '''' then failG (noisy output) else retG ())"

section \<open>natOut\<close>

definition masquerade :: "string \<Rightarrow> string list" where
  "masquerade cidr = [''POSTROUTING'', ''-t'', ''nat'', ''-s'', cidr, ''-j'', ''MASQUERADE'']"

definition natOut :: "('w, 'z) env_scheme \<Rightarrow> string \<Rightarrow> ('w plugin, unit) gom" where
  "natOut env cidr =
     tryG (Raw env (''-C'' # masquerade cidr)) (\<lambda>_. retG ())
       (\<lambda>_. rawQuiet env (''-I'' # masquerade cidr) (ChainError ''POSTROUTING''))"

section \<open>Chains\<close>

record ChainInfo =
  chain_Name :: string
  chain_Table :: string
  chain_HairpinMode :: bool

definition NewChain ::
    "('w, 'z) env_scheme \<Rightarrow> string \<Rightarrow> string \<Rightarrow> bool \<Rightarrow> ('w plugin, ChainInfo) gom" where
  "NewChain env name table hairpinMode =
     (let c = \<lparr>chain_Name = name, chain_Table = (if table = '''' then ''filter'' else table),
               chain_HairpinMode = hairpinMode\<rparr>
      in tryG (Raw env [''-t'', chain_Table c, ''-n'', ''-L'', chain_Name c]) (\<lambda>_. retG c)
         (\<lambda>_. bindG (rawQuiet env [''-t'', chain_Table c, ''-N'', chain_Name c]
                (\<lambda>output. Errorf ''Could not create %s/%s chain: %s''
                  [EStr (chain_Table c), EStr (chain_Name c), EStr output]))
              (\<lambda>_. retG c)))"

definition Exists ::
    "('w, 'z) env_scheme \<Rightarrow> string \<Rightarrow> string \<Rightarrow> string list \<Rightarrow> ('w plugin, bool) gom" where
  "Exists env table chain rule =
     (let table' = (if table = '''' then ''filter'' else table)
      in tryG (Raw env ([''-t'', table', ''-C'', chain] @ rule)) (\<lambda>_. retG True)
         (\<lambda>_. bindG (readG iptablesPath) (\<lambda>path.
              bindG (tryG (onWorld (cmdOutput env path [''-t'', table', ''-S'', chain]))
                retG (\<lambda>_. retG '''')) (\<lambda>existingRules.
              retG (containsStr existingRules (joinWith '' '' rule))))))"

definition Prerouting ::
    "('w, 'z) env_scheme \<Rightarrow> ChainInfo \<Rightarrow> string \<Rightarrow> string list \<Rightarrow> ('w plugin, unit) gom" where
  "Prerouting env c action args =
     rawQuiet env ([''-t'', ''nat'', action, ''PREROUTING''] @ args) (ChainError ''PREROUTING'')"

definition Output ::
    "('w, 'z) env_scheme \<Rightarrow> ChainInfo \<Rightarrow> string \<Rightarrow> string list \<Rightarrow> ('w plugin, unit) gom" where
  "Output env c action args =
     rawQuiet env ([''-t'', chain_Table c, action, ''OUTPUT''] @ args) (ChainError ''OUTPUT'')"

text \<open>\<open>net.IP.IsUnspecified\<close> and \<open>net.JoinHostPort\<close>.\<close>

definition isUnspecified :: "bytes \<Rightarrow> bool" where
  "isUnspecified ip \<longleftrightarrow> ip = replicate 4 0 \<or> ip = replicate 16 0 \<or> ip = replicate 10 0 @ [0xff, 0xff, 0, 0, 0, 0]"

definition joinHostPort :: "string \<Rightarrow> string \<Rightarrow> string" where
  "joinHostPort host port = (if CHR '':'' \<in> set host \<or> CHR ''%'' \<in> set host
     then ''['' @ host @ '']:'' @ port else host @ '':'' @ port)"

text \<open>The three rules of \<open>Forward\<close>, in the order in which they are given to \<open>iptables\<close>.\<close>

definition forwardRules :: "ChainInfo \<Rightarrow> string \<Rightarrow> bytes \<Rightarrow> int \<Rightarrow> string \<Rightarrow> string \<Rightarrow> int \<Rightarrow>
    string \<Rightarrow> string list list" where
  "forwardRules c action ip port proto destAddr destPort bridgeName =
     [[''-t'', ''nat'', action, chain_Name c, ''-p'', proto, ''-d'',
        if isUnspecified ip then ''0/0'' else IPString (Some ip), ''--dport'', itoa port, ''-j'', ''DNAT'',
        ''--to-destination'', joinHostPort destAddr (itoa destPort)] @
        (if chain_HairpinMode c then [] else [''!'', ''-i'', bridgeName]),
      [''-t'', ''filter'', action, chain_Name c, ''!'', ''-i'', bridgeName, ''-o'', bridgeName, ''-p'', proto,
        ''-d'', destAddr, ''--dport'', itoa destPort, ''-j'', ''ACCEPT''],
      [''-t'', ''nat'', action, ''POSTROUTING'', ''-p'', proto, ''-s'', destAddr, ''-d'', destAddr,
        ''--dport'', itoa destPort, ''-j'', ''MASQUERADE'']]"

definition Forward :: "('w, 'z) env_scheme \<Rightarrow> ChainInfo \<Rightarrow> string \<Rightarrow> bytes \<Rightarrow> int \<Rightarrow> string \<Rightarrow> string \<Rightarrow> int \<Rightarrow>
    string \<Rightarrow> ('w plugin, unit) gom" where
  "Forward env c action ip port proto destAddr destPort bridgeName =
     forEachG (\<lambda>args. rawQuiet env args (ChainError ''FORWARD''))
       (forwardRules c action ip port proto destAddr destPort bridgeName)"

definition linkRules :: "ChainInfo \<Rightarrow> string \<Rightarrow> bytes \<Rightarrow> bytes \<Rightarrow> int \<Rightarrow> string \<Rightarrow> string \<Rightarrow>
    string list list" where
  "linkRules c action ip1 ip2 port proto bridgeName =
     [[''-t'', ''filter'', action, chain_Name c, ''-i'', bridgeName, ''-o'', bridgeName, ''-p'', proto,
        ''-s'', IPString (Some ip1), ''-d'', IPString (Some ip2), ''--dport'', itoa port, ''-j'', ''ACCEPT''],
      [''-t'', ''filter'', action, chain_Name c, ''-i'', bridgeName, ''-o'', bridgeName, ''-p'', proto,
        ''-s'', IPString (Some ip2), ''-d'', IPString (Some ip1), ''--sport'', itoa port, ''-j'', ''ACCEPT'']]"

definition Link :: "('w, 'z) env_scheme \<Rightarrow> ChainInfo \<Rightarrow> string \<Rightarrow> bytes \<Rightarrow> bytes \<Rightarrow> int \<Rightarrow> string \<Rightarrow> string \<Rightarrow>
    ('w plugin, unit) gom" where
  "Link env c action ip1 ip2 port proto bridgeName =
     forEachG (\<lambda>args. rawQuiet env args (\<lambda>out. Errorf ''Error iptables forward: %s'' [EStr out]))
       (linkRules c action ip1 ip2 port proto bridgeName)"

text \<open>\<open>if !Exists(...) && enable {add} else if Exists(...) && !enable {remove}\<close>\<close>

definition ensureRule ::
    "('w plugin, bool) gom \<Rightarrow> bool \<Rightarrow> ('w plugin, unit) gom \<Rightarrow> ('w plugin, unit) gom \<Rightarrow>
     ('w plugin, unit) gom" where
  "ensureRule ex enable add remove =
     bindG ex (\<lambda>present.
       if \<not> present \<and> enable then add
       else bindG ex (\<lambda>present'. if present' \<and> \<not> enable then remove else retG ()))"

definition rewrapErr :: "string \<Rightarrow> ('w plugin, unit) gom \<Rightarrow> ('w plugin, unit) gom" where
  "rewrapErr fmt m = tryG m retG (\<lambda>e. failG (Errorf fmt [EErr e]))"

definition ProgramChain ::
    "('w, 'z) env_scheme \<Rightarrow> ChainInfo \<Rightarrow> string \<Rightarrow> bool \<Rightarrow> bool \<Rightarrow> ('w plugin, unit) gom" where
  "ProgramChain env c bridgeName hairpinMode enable =
     (if chain_Name c = '''' then failG (ErrNew ''Could not program chain, missing chain name.'')
      else if chain_Table c = ''nat'' then
        (let preroute = [''-m'', ''addrtype'', ''--dst-type'', ''LOCAL'', ''-j'', chain_Name c];
             output = preroute @ (if hairpinMode then [] else [''!'', ''--dst'', ''127.0.0.0/8''])
         in bindG (ensureRule (Exists env ''nat'' ''PREROUTING'' preroute) enable
              (rewrapErr ''Failed to inject docker in PREROUTING chain: %s'' (Prerouting env c ''-A'' preroute))
              (rewrapErr ''Failed to remove docker in PREROUTING chain: %s'' (Prerouting env c ''-D'' preroute)))
            (\<lambda>_. ensureRule (Exists env ''nat'' ''OUTPUT'' output) enable
              (rewrapErr ''Failed to inject docker in OUTPUT chain: %s'' (Output env c ''-A'' output))
              (rewrapErr ''Failed to inject docker in OUTPUT chain: %s'' (Output env c ''-D'' output))))
      else if chain_Table c = ''filter'' then
        (if bridgeName = '''' then
           failG (Errorf ''Could not program chain %s/%s, missing bridge name.''
             [EStr (chain_Table c), EStr (chain_Name c)])
         else let link = [''-o'', bridgeName, ''-j'', chain_Name c] in
           ensureRule (Exists env ''filter'' ''FORWARD'' link) enable
             (rawQuiet env ([''-I'', ''FORWARD''] @ link)
               (\<lambda>out. Errorf ''Could not create linking rule to %s/%s: %s''
                 [EStr (chain_Table c), EStr (chain_Name c), EStr out]))
             (rawQuiet env ([''-D'', ''FORWARD''] @ link)
               (\<lambda>out. Errorf ''Could not delete linking rule from %s/%s: %s''
                 [EStr (chain_Table c), EStr (chain_Name c), EStr out])))
      else retG ())"

definition ignoreErr :: "('s, 'a) gom \<Rightarrow> ('s, unit) gom" where
  "ignoreErr m = tryG m (\<lambda>_. retG ()) (\<lambda>_. retG ())"

definition Remove :: "('w, 'z) env_scheme \<Rightarrow> ChainInfo \<Rightarrow> ('w plugin, unit) gom" where
  "Remove env c =
     bindG (if chain_Table c = ''nat'' then
         bindG (ignoreErr (Prerouting env c ''-D''
           [''-m'', ''addrtype'', ''--dst-type'', ''LOCAL'', ''-j'', chain_Name c])) (\<lambda>_.
         bindG (ignoreErr (Output env c ''-D''
           [''-m'', ''addrtype'', ''--dst-type'', ''LOCAL'', ''!'', ''--dst'', ''127.0.0.0/8'', ''-j'', chain_Name c])) (\<lambda>_.
         bindG (ignoreErr (Output env c ''-D''
           [''-m'', ''addrtype'', ''--dst-type'', ''LOCAL'', ''-j'', chain_Name c])) (\<lambda>_.
         bindG (ignoreErr (Prerouting env c ''-D'' [])) (\<lambda>_.
         ignoreErr (Output env c ''-D'' [])))))
       else retG ()) (\<lambda>_.
     bindG (ignoreErr (Raw env [''-t'', chain_Table c, ''-F'', chain_Name c])) (\<lambda>_.
     ignoreErr (Raw env [''-t'', chain_Table c, ''-X'', chain_Name c])))"

definition RemoveExistingChain :: "('w, 'z) env_scheme \<Rightarrow> string \<Rightarrow> string \<Rightarrow> ('w plugin, unit) gom" where
  "RemoveExistingChain env name table =
     Remove env \<lparr>chain_Name = name, chain_Table = (if table = '''' then ''filter'' else table),
                 chain_HairpinMode = False\<rparr>"

section \<open>What the operations leave alone\<close>

lemma keepsG_modify_ipt [keeps_intros]:
  "keepsG (only_world s0) (modifyG (\<lambda>s. s\<lparr>iptablesPath := p\<rparr>))"
  "keepsG (only_world s0) (modifyG (\<lambda>s. s\<lparr>supportsXlock := b\<rparr>))"
  by (intro keepsG_modifyG; simp add: only_world_def db_state_def)+

lemma keepsG_initCheck [keeps_intros]: "keepsG (only_world s0) (initCheck env)"
  unfolding initCheck_def by (intro keeps_intros keepsG_if_state)

lemma keepsG_rawExec [keeps_intros]: "keepsG (only_world s0) (rawExec env args)"
  unfolding rawExec_def by (auto intro!: keeps_intros split: prod.splits option.splits)

lemma keepsG_Raw [keeps_intros]: "keepsG (only_world s0) (Raw env args)"
  unfolding Raw_def by (intro keeps_intros keepsG_if_state)

lemma keepsG_rawQuiet [keeps_intros]: "keepsG (only_world s0) (rawQuiet env args f)"
  unfolding rawQuiet_def by (intro keeps_intros)

lemma keepsG_natOut [keeps_intros]: "keepsG (only_world s0) (natOut env cidr)"
  unfolding natOut_def by (intro keeps_intros)

section \<open>natOut and the rules of the kernel\<close>

text \<open>
  What the manual page of \<open>iptables\<close> says of \<open>-C\<close> and \<open>-I\<close>, for an installation whose rules
  are \<open>rules w\<close>: the check succeeds exactly when the rule is there and changes nothing, the
  insertion puts the rule at the head and prints nothing.
\<close>

definition iptables_manual ::
    "('w, 'z) env_scheme \<Rightarrow> string \<Rightarrow> string list \<Rightarrow> ('w \<Rightarrow> string list list) \<Rightarrow> bool" where
  "iptables_manual env path opts rules \<longleftrightarrow>
     (\<forall>rule w. \<exists>e. cmdCombinedOutput env path (opts @ ''-C'' # rule) w =
        (Ok ('''', if rule \<in> set (rules w) then None else Some e), w)) \<and>
     (\<forall>rule w. \<exists>w'. cmdCombinedOutput env path (opts @ ''-I'' # rule) w = (Ok ('''', None), w') \<and>
        rules w' = rule # rules w)"

definition wait_opts :: "'w plugin \<Rightarrow> string list" where
  "wait_opts s = (if supportsXlock s then [''--wait''] else [])"

text \<open>A process that has looked \<open>iptables\<close> up already and does not talk to firewalld.\<close>

definition iptables_ready :: "'w plugin \<Rightarrow> bool" where
  "iptables_ready s \<longleftrightarrow> iptablesPath s \<noteq> '''' \<and> \<not> firewalldRunning s"

lemma Raw_ready:
  assumes "iptables_ready s"
    and "cmdCombinedOutput env (iptablesPath s) (wait_opts s @ args) (world s) = (Ok ('''', err), w)"
  shows "Raw env args s = (case err of
      Some e \<Rightarrow> (Err (Errorf ''iptables failed: iptables %v: %s (%s)''
        [EStr (joinWith '' '' (wait_opts s @ args)), EStr '''', EErr e]), s\<lparr>world := w\<rparr>)
    | None \<Rightarrow> (Ok '''', s\<lparr>world := w\<rparr>))"
  using assms
  by (auto simp: Raw_def rawExec_def iptables_ready_def initCheck_def wait_opts_def
      retG_def failG_def readG_def onWorld_eq bindG_def tryG_def xlockMessage_def
      split: option.splits if_splits)

lemma manual_check:
  assumes "iptables_manual env path opts rules"
  obtains e where "cmdCombinedOutput env path (opts @ ''-C'' # rule) w =
    (Ok ('''', if rule \<in> set (rules w) then None else Some e), w)"
proof -
  from assms have "\<forall>rule w. \<exists>e. cmdCombinedOutput env path (opts @ ''-C'' # rule) w =
      (Ok ('''', if rule \<in> set (rules w) then None else Some e), w)"
    unfolding iptables_manual_def by (rule conjunct1)
  from this [rule_format, of rule w] that show thesis by (elim exE)
qed

lemma manual_insert:
  assumes "iptables_manual env path opts rules"
  obtains w' where "cmdCombinedOutput env path (opts @ ''-I'' # rule) w = (Ok ('''', None), w')"
    "rules w' = rule # rules w"
proof -
  from assms have "\<forall>rule w. \<exists>w'. cmdCombinedOutput env path (opts @ ''-I'' # rule) w =
      (Ok ('''', None), w') \<and> rules w' = rule # rules w"
    unfolding iptables_manual_def by (rule conjunct2)
  from this [rule_format, of rule w] that show thesis by (elim exE conjE)
qed

lemma natOut_present:
  assumes "iptables_ready s" "iptables_manual env (iptablesPath s) (wait_opts s) rules"
    and "masquerade cidr \<in> set (rules (world s))"
  shows "natOut env cidr s = (Ok (), s)"
proof -
  from manual_check [OF assms(2)] obtain e where
    "cmdCombinedOutput env (iptablesPath s) (wait_opts s @ ''-C'' # masquerade cidr) (world s) =
      (Ok ('''', if masquerade cidr \<in> set (rules (world s)) then None else Some e), world s)" .
  with assms(1,3) have "Raw env (''-C'' # masquerade cidr) s = (Ok '''', s)"
    by (simp add: Raw_ready)
  then show ?thesis by (simp add: natOut_def retG_def)
qed

lemma natOut_absent:
  assumes "iptables_ready s" "iptables_manual env (iptablesPath s) (wait_opts s) rules"
    and "masquerade cidr \<notin> set (rules (world s))"
  shows "\<exists>w. natOut env cidr s = (Ok (), s\<lparr>world := w\<rparr>) \<and> rules w = masquerade cidr # rules (world s)"
proof -
  let ?C = "''-C'' # masquerade cidr" and ?I = "''-I'' # masquerade cidr"
  from manual_check [OF assms(2)] obtain e where
    "cmdCombinedOutput env (iptablesPath s) (wait_opts s @ ?C) (world s) =
      (Ok ('''', if masquerade cidr \<in> set (rules (world s)) then None else Some e), world s)" .
  with assms(1,3) obtain e' where C: "Raw env ?C s = (Err e', s)"
    by (simp add: Raw_ready)
  from manual_insert [OF assms(2)] obtain w where
    "cmdCombinedOutput env (iptablesPath s) (wait_opts s @ ?I) (world s) = (Ok ('''', None), w)"
    and w: "rules w = masquerade cidr # rules (world s)" .
  with assms(1) have "Raw env ?I s = (Ok '''', s\<lparr>world := w\<rparr>)"
    by (simp add: Raw_ready)
  with C w show ?thesis by (auto simp: natOut_def rawQuiet_def retG_def)
qed

section \<open>Properties\<close>

lemma lab_iptables_manual: "iptables_manual lab_env path [] lab_rules"
  by (auto simp: iptables_manual_def lab_env_def)



end
