(* ===== verification/Ovs_Bridge.thy ===== *)
theory Ovs_Bridge
  imports Ovs_Transact Ovs_Utils Iptables
begin

text \<open>
  The driver's bridge operations of \<open>ovs/ovs_bridge.go\<close>: \<open>initBridge\<close>, which creates the
  bridge of a network and configures its interface, and \<open>deleteBridge\<close>.
\<close>

section \<open>Initialisation\<close>

text \<open>The loop that waits for the link of the new bridge.\<close>

fun waitForLink :: "('w, 'z) env_scheme \<Rightarrow> string \<Rightarrow> nat \<Rightarrow> ('w plugin, bool) gom" where
  "waitForLink env bridgeName 0 = retG False"
| "waitForLink env bridgeName (Suc n) =
     bindG (validateIface env bridgeName) (\<lambda>found.
       if found then retG True
       else bindG (onWorld (Sleep env 2)) (\<lambda>_. waitForLink env bridgeName n))"

definition ovsScript :: "string \<Rightarrow> string \<Rightarrow> string \<Rightarrow> string \<Rightarrow> string" where
  "ovsScript bridgeName networkName networkType bindInterface =
     ''/usr/sbin/ovsopt.sh '' @ networkType @ '' '' @ networkName @ '' '' @ bridgeName @ '' '' @
     bindInterface"

definition runOvsScript ::
    "('w, 'z) env_scheme \<Rightarrow> string \<Rightarrow> string \<Rightarrow> string \<Rightarrow> string \<Rightarrow> ('w plugin, unit) gom" where
  "runOvsScript env bridgeName networkName networkType bindInterface =
     tryG (StartOvsService env (ovsScript bridgeName networkName networkType bindInterface))
       retG (\<lambda>_. retG ())"

definition gatewayCIDR :: "NetworkState \<Rightarrow> string" where
  "gatewayCIDR ns = Gateway ns @ ''/'' @ GatewayMask ns"

text \<open>The branch of \<open>initBridge\<close> for the mode \<open>nat\<close>.\<close>

definition setupNAT :: "('w, 'z) env_scheme \<Rightarrow> NetworkState \<Rightarrow> ('w plugin, unit) gom" where
  "setupNAT env ns =
     bindG (tryG (setInterfaceIP env (BridgeName ns) (gatewayCIDR ns)) retG (\<lambda>_. retG ())) (\<lambda>_.
     tryG (getIfaceAddr env (BridgeName ns))
       (\<lambda>_. tryG (natOut env (gatewayCIDR ns)) retG
          (\<lambda>_. liftG (Fatal ''Could not set NAT rules for bridge'')))
       (\<lambda>_. liftG (Fatal ''No IP address found on bridge'')))"

definition initBridge :: "('w, 'z) env_scheme \<Rightarrow> string \<Rightarrow> ('w plugin, unit) gom" where
  "initBridge env i s = (case go_lookup (networks s) i of
       None \<Rightarrow> (Panic NilDereference, s)
     | Some ns \<Rightarrow>
         bindG (addBridge env (BridgeName ns) (NetworkType ns) i) (\<lambda>_.
         bindG (waitForLink env (BridgeName ns) 10) (\<lambda>found.
           if \<not> found then
             failG (Errorf ''Could not find a link for the OVS bridge named %s'' [EStr (BridgeName ns)])
           else
             bindG (if Mode ns = ''nat'' then setupNAT env ns else retG ()) (\<lambda>_.
             bindG (interfaceUp env (BridgeName ns)) (\<lambda>_.
             runOvsScript env (BridgeName ns) (NetworkName ns) (NetworkType ns) (FlatBindInterface ns))))) s)"

section \<open>Deletion\<close>

definition deleteBridge_ops :: "string \<Rightarrow> string \<Rightarrow> string \<Rightarrow> Operation list" where
  "deleteBridge_ops bridgeName bridgeUUID rootUUID =
     (let condition = NewCondition ''name'' ''=='' (GString bridgeName)
      in [deleteOp ''Bridge'' condition,
          deleteOp ''BridgeOpt'' condition,
          mutateOp ''Open_vSwitch'' (NewMutation ''bridges'' ''delete'' (uuidSet bridgeUUID))
            (NewCondition ''_uuid'' ''=='' (GUUID rootUUID))])"

text \<open>Too few replies are logged only.\<close>

definition deleteBridge_check :: "OperationResult list \<Rightarrow> unit go" where
  "deleteBridge_check reply =
     scanReplies
       (\<lambda>i r. Errorf ''Transaction Failed due to an error: %s in operation: %v''
         [EStr (res_Error r), EOp i])
       (\<lambda>r. Errorf ''Transaction Failed due to an error : %s'' [EStr (res_Error r)]) 3 0 reply"

definition deleteBridge :: "('w, 'z) env_scheme \<Rightarrow> string \<Rightarrow> ('w plugin, unit) gom" where
  "deleteBridge env bridgeName =
     bindG (tryG (getBridgeServiceType env bridgeName) retG (\<lambda>_. retG '''')) (\<lambda>serviceType.
     bindG (readG ovsdbCache) (\<lambda>cache.
       (let bridgeUUID = getBridgeUUIDForName cache bridgeName
        in if bridgeUUID = '''' then
             failG (Errorf ''Unable to find a bridge uuid by name : [ %s ]'' [EStr bridgeName])
           else
             bindG (ovsTransact env (deleteBridge_ops bridgeName bridgeUUID (getRootUUID cache))) (\<lambda>reply.
             bindG (liftG (deleteBridge_check reply)) (\<lambda>_.
             if \<not> isGatewayType serviceType then retG ()
             else tryG (stopOvsService env) retG (\<lambda>_. retG ()))))))"

section \<open>Facts\<close>

interpretation delete_bridge: lenient_reply_check deleteBridge_check
  by unfold_locales (auto simp: deleteBridge_check_def scanReplies_Ok_iff scanReplies_is_Err_iff)

lemma keepsG_waitForLink [keeps_intros]: "keepsG (only_world s0) (waitForLink env b n)"
  by (induction n) (auto intro!: keeps_intros)

lemma keepsG_setupNAT [keeps_intros]: "keepsG (only_world s0) (setupNAT env ns)"
  unfolding setupNAT_def by (intro keeps_intros)

lemma keepsG_runOvsScript [keeps_intros]: "keepsG (only_world s0) (runOvsScript env b n t i)"
  unfolding runOvsScript_def by (intro keeps_intros)

lemma keepsG_initBridge [keeps_intros]: "keepsG (only_world s0) (initBridge env i)"
proof -
  have "keepsG (only_world s0) (bindG (addBridge env b t i) (\<lambda>_.
         bindG (waitForLink env b 10) (\<lambda>found. if \<not> found then failG e
           else bindG (if m then setupNAT env ns else retG ()) (\<lambda>_.
             bindG (interfaceUp env b) (\<lambda>_. runOvsScript env b n t f)))))" for b t e m ns n f
    by (intro keeps_intros)
  then show ?thesis
    by (auto simp: keepsG_def initBridge_def split: option.splits)
qed

lemma keepsG_deleteBridge [keeps_intros]: "keepsG (only_world s0) (deleteBridge env b)"
  unfolding deleteBridge_def Let_def by (intro keeps_intros)

lemma deleteBridge_ops_fit:
  assumes "plugin_schema db"
  shows "list_all (fitsSchema db) (deleteBridge_ops b u root)"
  using assms unfolding deleteBridge_ops_def plugin_schema_def
  by (auto simp: Let_def intro: fitsSchema_no_row)

text \<open>A bridge whose interface never comes up panics instead of returning the error.\<close>

lemma interfaceUp_missing:
  assumes "LinkByName env name (world s) = (Err e, w)"
  shows "interfaceUp env name s = (Panic NilDereference, s\<lparr>world := w\<rparr>)"
  using assms by (simp add: interfaceUp_def onWorld_eq liftG_def)

section \<open>A server that cannot be reached\<close>

definition unreachable :: "('w, 'z) env_scheme \<Rightarrow> bool" where
  "unreachable env \<longleftrightarrow> (\<forall>m a w. \<exists>e w'. rpc_call env m a w = (Err e, w'))"

lemma Transact_unreachable:
  assumes "unreachable env"
  shows "\<exists>e w'. Transact env ovs db ps w = (Err e, w')"
proof -
  obtain e w' where "rpc_call env ''transact'' (NewTransactArgs db ps) w = (Err e, w')"
    using assms unfolding unreachable_def by meson
  then show ?thesis
    by (auto simp: Transact_def bindG_def tryG_def failG_def split: option.splits)
qed

lemma ovsTransact_unreachable:
  assumes "unreachable env" "ovsdb s = Some ovs"
  obtains w where "ovsTransact env ops s = (Ok [], s\<lparr>world := w\<rparr>)"
proof -
  obtain e w where "Transact env ovs ''Open_vSwitch'' ops (world s) = (Err e, w)"
    using Transact_unreachable [OF assms(1), of ovs "''Open_vSwitch''" ops "world s"] by blast
  with assms(2) have "ovsTransact env ops s = (Ok [], s\<lparr>world := w\<rparr>)"
    by (simp add: ovsTransact_def tryG_def onWorld_eq retG_def)
  then show ?thesis by (rule that)
qed

lemma selectBridgeOpt_unreachable:
  assumes "unreachable env" "ovsdb s = Some ovs"
  obtains e w where "selectBridgeOpt env c v r nf s = (Err e, s\<lparr>world := w\<rparr>)"
proof -
  obtain w where "ovsTransact env [selectOp ''BridgeOpt'' (NewCondition c ''=='' (GString v))] s =
      (Ok [], s\<lparr>world := w\<rparr>)"
    using ovsTransact_unreachable [OF assms] .
  then have "\<exists>e. selectBridgeOpt env c v r nf s = (Err e, s\<lparr>world := w\<rparr>)"
    by (simp add: selectBridgeOpt_def failG_def)
  then show ?thesis by (elim exE) (rule that)
qed

text \<open>Without replies a strict check fails and a lenient one does not.\<close>

lemma transact_check_unreachable:
  assumes "unreachable env" "ovsdb s = Some ovs"
  shows "fst (bindG (ovsTransact env ops) (\<lambda>reply. liftG (check reply)) s) = check []"
proof -
  obtain w where "ovsTransact env ops s = (Ok [], s\<lparr>world := w\<rparr>)"
    using ovsTransact_unreachable [OF assms] .
  then show ?thesis by (cases "check []") (simp_all add: bindG_def tryG_def liftG_def)
qed

lemma deleteBridge_unreachable:
  assumes "unreachable env" "ovsdb s = Some ovs" "getBridgeUUIDForName (ovsdbCache s) b \<noteq> ''''"
  shows "fst (deleteBridge env b s) = Ok ()"
proof -
  obtain e w where q: "getBridgeServiceType env b s = (Err e, s\<lparr>world := w\<rparr>)"
    unfolding getBridgeServiceType_def using selectBridgeOpt_unreachable [OF assms(1,2)] .
  obtain w' where "ovsTransact env (deleteBridge_ops b (getBridgeUUIDForName (ovsdbCache s) b)
      (getRootUUID (ovsdbCache s))) (s\<lparr>world := w\<rparr>) = (Ok [], s\<lparr>world := w'\<rparr>)"
    using ovsTransact_unreachable [OF assms(1), of "s\<lparr>world := w\<rparr>" ovs] assms(2) by auto
  with q assms(3) show ?thesis
    by (simp add: deleteBridge_def retG_def readG_def liftG_def tryG_def bindG_def
        delete_bridge.failed_transaction_silent isGatewayType_def equalFold_def lowerChar_def)
qed

section \<open>Properties\<close>

definition lab_bridged :: "lab plugin" where
  "lab_bridged = (lab_state lab_plain (lab_world [] []))\<lparr>ovsdbCache :=
     [(''Bridge'', [(''c0ffee'', \<lparr>Fields = Some [(''name'', GString ''br0'')]\<rparr>)])]\<rparr>"

definition lab_env_cut :: "lab env" where
  "lab_env_cut = lab_env\<lparr>rpc_call := \<lambda>_ _ w. (Err (ErrNew ''connection is shut down''), w)\<rparr>"

text \<open>C13. Which operations notice that the server did not carry out their transaction: adding an
  internal port, deleting a port and creating a bridge return an error; attaching the veth of a
  container, deleting a bridge, creating an internal port through its wrapper and adding a VXLAN
  port report success although nothing was done.\<close>

theorem unreachable_reports:
  assumes "unreachable env" "ovsdb s = Some ovs"
  shows "is_Err (fst (addInternalPort env b p t s)) \<and> is_Err (fst (deletePort env b p s)) \<and>
    is_Err (fst (createOvsdbBridge env b st n s)) \<and>
    fst (addOvsVethPort env b p t s) = Ok () \<and> fst (createOvsInternalPort env p b t s) = Ok p \<and>
    fst (addVxlanPort env b p peer s) = Ok () \<and>
    (getBridgeUUIDForName (ovsdbCache s) b \<noteq> '''' \<longrightarrow> fst (deleteBridge env b s) = Ok ())"
proof -
  note sent = transact_check_unreachable [OF assms]
  have internal: "is_Err (fst (addInternalPort env b p t s))"
    unfolding addInternalPort_def sent by (rule internal_port.failed_transaction_reported)
  moreover have "is_Err (fst (deletePort env b p s))"
    using delete_port.failed_transaction_reported
    by (simp add: deletePort_def bindG_apply_readG Let_def sent failG_def)
  moreover have "is_Err (fst (createOvsdbBridge env b st n s))"
    using create_bridge.failed_transaction_reported
    by (simp add: createOvsdbBridge_def bindG_apply_readG sent)
  moreover have "fst (addOvsVethPort env b p t s) = Ok ()"
    unfolding addOvsVethPort_def sent by (rule veth_port.failed_transaction_silent)
  moreover have "fst (createOvsInternalPort env p b t s) = Ok p"
    using internal assms(2)
    by (cases "addInternalPort env b p t s"; cases "fst (addInternalPort env b p t s)")
      (auto simp: createOvsInternalPort_def tryG_def retG_def)
  moreover have "fst (addVxlanPort env b p peer s) = Ok ()"
    using sent [of "addVxlanPort_ops b p peer" "\<lambda>_. Ok ()"]
    by (simp add: addVxlanPort_def liftG_def [abs_def] retG_def [abs_def])
  ultimately show ?thesis using deleteBridge_unreachable [OF assms] by blast
qed

theorem unreachable_reports_witness:
  "fst (addOvsVethPort lab_env_cut ''br0'' ''ovs-veth0-4f9a8'' 0 lab_bridged) = Ok () \<and>
   fst (deleteBridge lab_env_cut ''br0'' lab_bridged) = Ok () \<and>
   is_Err (fst (deletePort lab_env_cut ''br0'' ''ovs-veth0-4f9a8'' lab_bridged))"
proof -
  have "unreachable lab_env_cut" by (simp add: unreachable_def lab_env_cut_def)
  moreover have "ovsdb lab_bridged = Some lab_plain" by (simp add: lab_bridged_def lab_state_def)
  moreover have "getBridgeUUIDForName (ovsdbCache lab_bridged) ''br0'' \<noteq> ''''" by code_simp
  ultimately show ?thesis
    using unreachable_reports [of lab_env_cut lab_bridged lab_plain "''br0''" "''ovs-veth0-4f9a8''" 0] by blast
qed



text \<open>C22. The rows of a transaction refer to each other by names only that an earlier operation of
  the same transaction introduces, and no name is introduced twice; the other references are
  real UUIDs.\<close>

theorem transactions_closed:
  assumes "validateUUID root = Ok ()" "validateUUID u = Ok ()"
  shows "closedRefs [] (createOvsdbBridge_ops b st n root) \<and> closedRefs [] (deleteBridge_ops b u root) \<and>
    closedRefs [] (addInternalPort_ops b p t) \<and> closedRefs [] (addVxlanPort_ops b p peer) \<and>
    closedRefs [] (addOvsVethPort_ops b p) \<and> closedRefs [] (deletePort_ops b p u)"
proof -
  have "closedRefs [] (deleteBridge_ops b u root)" "closedRefs [] (deletePort_ops b p u)"
    using assms by (simp_all add: deleteBridge_ops_def deletePort_ops_def Let_def refs_simps)
  moreover have "closedRefs [] (addInternalPort_ops b p t)" "closedRefs [] (addVxlanPort_ops b p peer)"
    "closedRefs [] (addOvsVethPort_ops b p)"
    by (auto simp: addInternalPort_ops_def addVxlanPort_ops_def addOvsVethPort_ops_def refs_simps
        intro!: portOps_closed)
  ultimately show ?thesis using createOvsdbBridge_ops_closed [OF assms(1)] by simp
qed

theorem transactions_closed_witness:
  "closedRefs [] (createOvsdbBridge_ops ''br0'' ''sgw'' ''281746a33da5c97b'' ''36bd4f6b-1d2e-4a0f-9a33-0123456789ab'')"
proof -
  have "validateUUID ''36bd4f6b-1d2e-4a0f-9a33-0123456789ab'' = Ok ()" by code_simp
  then show ?thesis using transactions_closed by blast
qed

text \<open>addBridge reports success only when the server has answered that the port of the bridge
  exists, although the error of the creation itself is swallowed on the way.\<close>

lemma addBridge_confirmed:
  assumes "addBridge env b st n s = (Ok (), s')"
  shows "\<exists>s1 reply s2. ovsTransact env [selectOp ''Port'' (NewCondition ''name'' ''=='' (GString b))] s1 = (Ok reply, s2) \<and>
    s2 = s' \<and> reply \<noteq> [] \<and> res_Error (reply ! 0) = '''' \<and> res_Rows (reply ! 0) \<noteq> []"
  using addBridge_Ok [OF assms]
  by (auto simp: portExists_def bindG_Ok_iff failG_def retG_def split: if_splits)

text \<open>C23. On a server with the stock schema, which has no table BridgeOpt, createOvsdbBridge sends
  nothing at all, so addBridge cannot create a bridge; and the bridge of a network is never
  found.\<close>

theorem no_BridgeOpt_no_bridge:
  assumes "ovsdb s = Some ovs" "without_BridgeOpt ovs"
  shows "createOvsdbBridge env b st n s =
      (Err (ErrNew ''Number of Replies should be atleast equal to number of Operations''), s) \<and>
    (\<exists>e. getBridgeNameByNetworkId env i s = (Err e, s)) \<and> (\<exists>e. getBridgeServiceType env b s = (Err e, s))"
  using createOvsdbBridge_without_BridgeOpt [OF assms] selectBridgeOpt_without_BridgeOpt [OF assms]
  unfolding getBridgeNameByNetworkId_def getBridgeServiceType_def by metis

theorem no_BridgeOpt_no_bridge_witness:
  "createOvsdbBridge lab_env ''br0'' '''' ''281746a33da5c97b'' lab_bridged =
     (Err (ErrNew ''Number of Replies should be atleast equal to number of Operations''), lab_bridged)"
proof -
  have "ovsdb lab_bridged = Some lab_plain" by (simp add: lab_bridged_def lab_state_def)
  moreover have "without_BridgeOpt lab_plain" by code_simp
  ultimately show ?thesis using no_BridgeOpt_no_bridge by blast
qed

end
