(* ===== verification/Ovs_Monitor.thy ===== *)
theory Ovs_Monitor
  imports Ovs_Transact
begin

text \<open>
  The background half of \<open>ovs/ovsdb.go\<close>: filling the caches when the connection is set up,
  the notifications that keep them current, and the loop \<open>monitorBridges\<close> that reacts to
  changes of bridges.

  The notifier hands every update to \<open>monitorBridges\<close> over an unbuffered channel, so the loop
  sees the updates one by one, in the order in which their goroutines have reached the channel;
  \<open>monitorUpdate\<close> is one turn of it.
\<close>

section \<open>The context cache\<close>

definition contextKey :: string where
  "contextKey = ''container_id''"

definition contextValue :: string where
  "contextValue = ''container_data''"

text \<open>The assertion \<open>x.(string)\<close> on an entry of a map; a missing entry is nil.\<close>

definition assertString :: "gov option \<Rightarrow> string go" where
  "assertString v = (case v of Some (GString s) \<Rightarrow> Ok s | _ \<Rightarrow> Panic TypeAssertion)"

text \<open>
  The loop of \<open>populateContextCache\<close>. The assertion to \<open>OvsMap\<close> stands before the test that
  the column is there.
\<close>

fun contextRows :: "table_cache \<Rightarrow> (string, string) gomap \<Rightarrow> (string, string) gomap go" where
  "contextRows [] ctx = Ok ctx"
| "contextRows ((_, row) # rows) ctx =
     (case rowField row ''other_config'' of
        Some (GOvsMap otherConfig) \<Rightarrow>
          (case go_lookup otherConfig (GString contextKey) of
             None \<Rightarrow> contextRows rows ctx
           | Some containerID \<Rightarrow>
               bind_go (assertString (Some containerID)) (\<lambda>k.
               bind_go (assertString (go_lookup otherConfig (GString contextValue))) (\<lambda>v.
               contextRows rows (go_update k v ctx))))
      | _ \<Rightarrow> Panic TypeAssertion)"

definition populateContextCache :: "('w plugin, unit) gom" where
  "populateContextCache s =
     (if ovsdb s = None then (Ok (), s)
      else case contextRows (getTableCache (ovsdbCache s) ''Interface'') (contextCache s) of
          Ok ctx \<Rightarrow> (Ok (), s\<lparr>contextCache := ctx\<rparr>)
        | r \<Rightarrow> (map_go_res (\<lambda>_. ()) r, s))"

section \<open>Setting up\<close>

definition cacheUpdates :: "TableUpdates \<Rightarrow> ('w plugin, unit) gom" where
  "cacheUpdates us = modifyG (\<lambda>s. s\<lparr>ovsdbCache := populateCache us (ovsdbCache s)\<rparr>)"

text \<open>
  The loop that waits for the root row, one batch of notifications per second of sleep.
  \<open>None\<close>: the root row was not there after the batches given.
\<close>

fun waitForRoot :: "TableUpdates list list \<Rightarrow> db_cache \<Rightarrow> db_cache option" where
  "waitForRoot batches c =
     (if getRootUUID c \<noteq> '''' then Some c
      else case batches of
          [] \<Rightarrow> None
        | b # bs \<Rightarrow> waitForRoot bs (fold populateCache b c))"

declare waitForRoot.simps [simp del]

text \<open>
  \<open>initDBCache\<close> up to the waiting loop. The error of \<open>MonitorAll\<close> is logged and the nil reply
  is dereferenced right after.
\<close>

definition fillCaches :: "('w, 'z) env_scheme \<Rightarrow> ('w plugin, unit) gom" where
  "fillCaches env s = (case ovsdb s of
       None \<Rightarrow> (Panic NilDereference, s)
     | Some ovs \<Rightarrow>
         bindG (modifyG (\<lambda>s. s\<lparr>ovsdbCache := [], ovsdb := Some (Register ovs)\<rparr>)) (\<lambda>_.
         bindG (tryG (onWorld (MonitorAll env (Register ovs) ''Open_vSwitch'' (GString ''''))) retG
           (\<lambda>_. liftG (Panic NilDereference))) (\<lambda>initCache.
         bindG (cacheUpdates initCache) (\<lambda>_.
         bindG (modifyG (\<lambda>s. s\<lparr>contextCache := []\<rparr>)) (\<lambda>_.
         populateContextCache)))) s)"

text \<open>The whole of it; \<open>None\<close> while it still waits.\<close>

definition initDBCache ::
    "('w, 'z) env_scheme \<Rightarrow> TableUpdates list list \<Rightarrow> 'w plugin \<Rightarrow> (unit go \<times> 'w plugin) option" where
  "initDBCache env batches s = (case fillCaches env s of
       (Ok _, s') \<Rightarrow>
         map_option (\<lambda>c. (Ok (), s'\<lparr>ovsdbCache := c\<rparr>)) (waitForRoot batches (ovsdbCache s'))
     | (r, s') \<Rightarrow> Some (r, s'))"

section \<open>Reacting to changes\<close>

text \<open>The lookups that fall back to \<open>"none"\<close>.\<close>

definition orNone :: "('w plugin, string) gom \<Rightarrow> ('w plugin, string) gom" where
  "orNone m = tryG m retG (\<lambda>_. retG ''none'')"

definition monitorRow :: "('w, 'z) env_scheme \<Rightarrow> string \<times> RowUpdate \<Rightarrow> ('w plugin, unit) gom" where
  "monitorRow env ur = (case ur of (_, row) \<Rightarrow>
     if ru_New row \<noteq> emptyRow then
       (case rowField (ru_Old row) ''name'' of
          None \<Rightarrow> retG ()
        | Some v \<Rightarrow>
            bindG (liftG (assertString (Some v))) (\<lambda>name.
            bindG (orNone (getBridgeServiceType env name)) (\<lambda>servicetype.
            bindG (orNone (getNetworkidByBridgeName env name)) (\<lambda>networkid.
            tryG (createOvsdbBridge env name servicetype networkid) (\<lambda>_. retG ()) (\<lambda>_. retG ())))))
     else retG ())"

definition monitorUpdate :: "('w, 'z) env_scheme \<Rightarrow> TableUpdates \<Rightarrow> ('w plugin, unit) gom" where
  "monitorUpdate env currUpdate =
     forEachG (\<lambda>(table, tableUpdate).
       if table = ''Bridge'' then forEachG (monitorRow env) tableUpdate else retG ()) currUpdate"

text \<open>\<open>OvsdbNotifier.Update\<close>, with the turn of \<open>monitorBridges\<close> that receives what it sends.\<close>

definition notifierUpdate :: "('w, 'z) env_scheme \<Rightarrow> TableUpdates \<Rightarrow> ('w plugin, unit) gom" where
  "notifierUpdate env us = bindG (cacheUpdates us) (\<lambda>_. monitorUpdate env us)"

section \<open>Facts\<close>

lemma keepsG_monitorRow [keeps_intros]: "keepsG (only_world s0) (monitorRow env ur)"
  unfolding monitorRow_def orNone_def by (auto intro!: keeps_intros split: prod.splits option.splits)

lemma keepsG_monitorUpdate [keeps_intros]: "keepsG (only_world s0) (monitorUpdate env us)"
  unfolding monitorUpdate_def by (auto intro!: keeps_intros split: prod.splits)

text \<open>When a row needs no reaction: it is gone, or its name is as before.\<close>

definition quiet_row :: "RowUpdate \<Rightarrow> bool" where
  "quiet_row ru \<longleftrightarrow> ru_New ru = emptyRow \<or> rowField (ru_Old ru) ''name'' = None"

lemma monitorRow_quiet: "quiet_row ru \<Longrightarrow> monitorRow env (u, ru) s = (Ok (), s)"
  by (auto simp: monitorRow_def quiet_row_def retG_def)

lemma monitorUpdate_quiet:
  assumes "\<And>tu u ru. (''Bridge'', tu) \<in> set us \<Longrightarrow> (u, ru) \<in> set tu \<Longrightarrow> quiet_row ru"
  shows "monitorUpdate env us s = (Ok (), s)"
  unfolding monitorUpdate_def
proof (rule forEachG_ret)
  fix p assume p: "p \<in> set us"
  obtain table tu where [simp]: "p = (table, tu)" by fastforce
  have "forEachG (monitorRow env) tu s = (Ok (), s)" if "table = ''Bridge''"
    using assms p that by (intro forEachG_ret) (auto intro: monitorRow_quiet)
  then show "(case p of (table, tableUpdate) \<Rightarrow>
      if table = ''Bridge'' then forEachG (monitorRow env) tableUpdate else retG ()) s = (Ok (), s)"
    by (simp add: retG_def)
qed

text \<open>The waiting loop ends as soon as a batch leaves a row in the table \<open>Open_vSwitch\<close>.\<close>

lemma getRootUUID_iff:
  "wf_cache c \<Longrightarrow> getRootUUID c \<noteq> '''' \<longleftrightarrow> (\<exists>u row. cache_db c ''Open_vSwitch'' u = Some row)"
  using wf_cache_table [of c "''Open_vSwitch''"]
  by (cases "getTableCache c ''Open_vSwitch''") (force simp: getRootUUID_def cache_db_def)+

lemma waitForRoot_Some:
  "getRootUUID (fold populateCache (concat (take n batches)) c) \<noteq> '''' \<Longrightarrow> n \<le> length batches \<Longrightarrow>
   \<exists>c'. waitForRoot batches c = Some c'"
proof (induction n arbitrary: batches c)
  case 0
  then show ?case by (simp add: waitForRoot.simps)
next
  case (Suc n)
  then obtain b bs where b: "batches = b # bs" by (cases batches) auto
  show ?case
  proof (cases "getRootUUID c = ''''")
    case True
    with Suc.IH [of bs "fold populateCache b c"] Suc.prems b show ?thesis
      by (simp add: waitForRoot.simps [of "b # bs" c])
  qed (simp add: waitForRoot.simps)
qed

lemma waitForRoot_root: "waitForRoot batches c = Some c' \<Longrightarrow> getRootUUID c' \<noteq> ''''"
  by (induction batches c rule: waitForRoot.induct)
    (subst (asm) waitForRoot.simps, auto split: if_splits list.splits)

lemma waitForRoot_None:
  "waitForRoot batches c = None \<Longrightarrow> n \<le> length batches \<Longrightarrow>
   getRootUUID (fold populateCache (concat (take n batches)) c) = ''''"
  using waitForRoot_Some by (metis option.distinct(1))

section \<open>The context cache as a specification\<close>

text \<open>The pair that an interface contributes to the context cache.\<close>

definition contextEntry :: "ovs_row \<Rightarrow> (string \<times> string) option" where
  "contextEntry row = (case rowField row ''other_config'' of
       Some (GOvsMap m) \<Rightarrow>
         (case (go_lookup m (GString contextKey), go_lookup m (GString contextValue)) of
            (Some (GString k), Some (GString v)) \<Rightarrow> Some (k, v)
          | _ \<Rightarrow> None)
     | _ \<Rightarrow> None)"

text \<open>
  A row on which the loop does not panic: its \<open>other_config\<close> is a map, and if that names a
  container then with two strings.
\<close>

definition contextRow_ok :: "ovs_row \<Rightarrow> bool" where
  "contextRow_ok row = (case rowField row ''other_config'' of
       Some (GOvsMap m) \<Rightarrow> go_lookup m (GString contextKey) = None \<or> contextEntry row \<noteq> None
     | _ \<Rightarrow> False)"

definition contextPairs :: "table_cache \<Rightarrow> (string \<times> string) list" where
  "contextPairs t = List.map_filter (\<lambda>(_, row). contextEntry row) t"

lemma contextRows_step:
  "contextRow_ok row \<Longrightarrow> contextRows ((u, row) # rows) ctx =
     contextRows rows (case contextEntry row of None \<Rightarrow> ctx | Some (k, v) \<Rightarrow> go_update k v ctx)"
  by (auto simp: contextRow_ok_def contextEntry_def assertString_def split: option.splits gov.splits)

lemma contextRows_panic:
  "\<not> contextRow_ok row \<Longrightarrow> contextRows ((u, row) # rows) ctx = Panic TypeAssertion"
  by (auto simp: contextRow_ok_def contextEntry_def assertString_def split: option.splits gov.splits)

lemma contextRows_Ok:
  "list_all (\<lambda>(_, row). contextRow_ok row) t \<Longrightarrow>
   contextRows t ctx = Ok (fold (\<lambda>(k, v). go_update k v) (contextPairs t) ctx)"
proof (induction t arbitrary: ctx)
  case (Cons p t)
  then show ?case
    by (cases p) (auto simp: contextRows_step contextPairs_def List.map_filter_simps simp del: contextRows.simps
        split: option.splits)
qed (simp add: contextPairs_def List.map_filter_simps)

lemma contextRows_Panic:
  "\<not> list_all (\<lambda>(_, row). contextRow_ok row) t \<Longrightarrow> contextRows t ctx = Panic TypeAssertion"
proof (induction t arbitrary: ctx)
  case (Cons p t)
  obtain u row where p: "p = (u, row)" by fastforce
  show ?case
  proof (cases "contextRow_ok row")
    case True
    with Cons p show ?thesis by (simp add: contextRows_step del: contextRows.simps)
  next
    case False
    then show ?thesis by (simp add: p contextRows_panic del: contextRows.simps)
  qed
qed simp

section \<open>Properties\<close>

text \<open>populateContextCache adds the container of every interface that names one and changes
  nothing else, provided that every interface row has a map in other_config with string entries;
  on any other row it panics and the cache stays as it was.\<close>

lemma populateContextCache_spec:
  assumes "ovsdb s \<noteq> None"
  shows "populateContextCache s =
    (let t = getTableCache (ovsdbCache s) ''Interface''
     in if list_all (\<lambda>(_, row). contextRow_ok row) t
        then (Ok (), s\<lparr>contextCache := fold (\<lambda>(k, v). go_update k v) (contextPairs t) (contextCache s)\<rparr>)
        else (Panic TypeAssertion, s))"
  using assms by (auto simp: populateContextCache_def Let_def contextRows_Ok contextRows_Panic)

definition lab_interfaces :: "(gov \<times> gov) list \<Rightarrow> lab plugin" where
  "lab_interfaces cfg = (lab_state lab_full (lab_world [] []))\<lparr>ovsdbCache :=
     [(''Interface'', [(''c0ffee'', \<lparr>Fields = Some [(''other_config'', GOvsMap cfg)]\<rparr>)])]\<rparr>"


text \<open>A failed MonitorAll is logged and then dereferenced: initDBCache panics, and with it the
  start of the driver.\<close>

lemma initDBCache_panics:
  assumes "ovsdb s = Some ovs"
    and "MonitorAll env (Register ovs) ''Open_vSwitch'' (GString '''') (world s) = (Err e, w)"
  shows "initDBCache env batches s =
    Some (Panic NilDereference, s\<lparr>ovsdb := Some (Register ovs), ovsdbCache := [], world := w\<rparr>)"
  using assms
  by (simp add: initDBCache_def fillCaches_def bindG_def tryG_def modifyG_def onWorld_def liftG_def)

text \<open>A notification whose bridge rows are all deleted, unchanged in name or new makes the
  process update its cache and do nothing else.\<close>

lemma notifier_quiet:
  assumes "\<And>tu u ru. (''Bridge'', tu) \<in> set us \<Longrightarrow> (u, ru) \<in> set tu \<Longrightarrow> quiet_row ru"
  shows "notifierUpdate env us s = (Ok (), s\<lparr>ovsdbCache := populateCache us (ovsdbCache s)\<rparr>)"
  using monitorUpdate_quiet [OF assms]
  by (simp add: notifierUpdate_def cacheUpdates_def bindG_def tryG_def modifyG_def)

definition lab_new_bridge :: TableUpdates where
  "lab_new_bridge = [(''Bridge'', [(''c0ffee'', \<lparr>ru_New = \<lparr>Fields = Some [(''name'', GString ''br0'')]\<rparr>,
     ru_Old = emptyRow\<rparr>)])]"

end
