(* ===== verification/Ovs_Driver.thy ===== *)
theory Ovs_Driver
  imports Ovs_Bridge Ovs_Monitor
begin

text \<open>
  The driver (\<open>ovs/driver.go\<close>): the requests of \<open>dknet/api.go\<close>, the functions that read the
  options of a \<open>CreateNetworkRequest\<close>, and the operations of the network driver interface.
  Logging is left out throughout.
\<close>

section \<open>Requests\<close>

record IPAMData =
  ipam_AddressSpace :: string
  ipam_Pool :: string
  ipam_Gateway :: string
  ipam_AuxAddresses :: "(string, gov) gomap"

text \<open>\<open>cn_Options = None\<close> is the nil map, an entry \<open>None\<close> of the address lists a nil pointer.\<close>

record CreateNetworkRequest =
  cn_NetworkID :: string
  cn_Options :: "(string, gov) gomap option"
  cn_IPv4Data :: "IPAMData option list"
  cn_IPv6Data :: "IPAMData option list"

record JoinRequest =
  jr_NetworkID :: string
  jr_EndpointID :: string
  jr_SandboxKey :: string

record JoinResponse =
  js_Gateway :: string
  js_SrcName :: string
  js_DstPrefix :: string

record LeaveRequest =
  lr_NetworkID :: string
  lr_EndpointID :: string

section \<open>Options\<close>

definition mtuOption :: string where [option_keys]:
  "mtuOption = ''linker.net.ovs.bridge.mtu''"

definition modeOption :: string where [option_keys]:
  "modeOption = ''linker.net.ovs.bridge.mode''"

definition bridgeNameOption :: string where [option_keys]:
  "bridgeNameOption = ''linker.net.ovs.bridge.name''"

definition bindInterfaceOption :: string where [option_keys]:
  "bindInterfaceOption = ''linker.net.ovs.bridge.bind_interface''"

definition typeOption :: string where [option_keys]:
  "typeOption = ''linker.net.ovs.bridge.type''"

definition networkNameOption :: string where [option_keys]:
  "networkNameOption = ''linker.net.ovs.network.name''"

definition optionKey :: string where [option_keys]:
  "optionKey = ''com.docker.network.generic''"

text \<open>Reading \<open>r.Options[key]\<close> where \<open>r.Options\<close> may be nil.\<close>

definition requestOption :: "CreateNetworkRequest \<Rightarrow> string \<Rightarrow> gov option" where
  "requestOption r key = (case cn_Options r of None \<Rightarrow> None | Some m \<Rightarrow> go_lookup m key)"

definition getBridgeMTU :: "CreateNetworkRequest \<Rightarrow> int go" where
  "getBridgeMTU r = (case requestOption r mtuOption of
       Some (GInt mtu) \<Rightarrow> Ok mtu
     | _ \<Rightarrow> Ok 1500)"

definition validModes :: "string list" where
  "validModes = [''nat'', ''flat'']"

definition getBridgeMode :: "CreateNetworkRequest \<Rightarrow> string go" where
  "getBridgeMode r = (case requestOption r modeOption of
       Some (GString mode) \<Rightarrow>
         if mode \<notin> set validModes then Err (Errorf ''%s is not a valid mode'' [EStr mode])
         else Ok mode
     | _ \<Rightarrow> Ok ''nat'')"

text \<open>The gateway of the first entry of an address list, if there is one.\<close>

definition firstGateway :: "IPAMData option list \<Rightarrow> string \<Rightarrow> string" where
  "firstGateway d gatewayIP = (case d of
       Some ipam # _ \<Rightarrow> if ipam_Gateway ipam \<noteq> '''' then ipam_Gateway ipam else gatewayIP
     | _ \<Rightarrow> gatewayIP)"

definition getGatewayIP :: "CreateNetworkRequest \<Rightarrow> (string \<times> string) go" where
  "getGatewayIP r =
     (let gatewayIP = firstGateway (cn_IPv4Data r) (firstGateway (cn_IPv6Data r) '''')
      in if gatewayIP = '''' then Err (ErrNew ''No gateway IP found'')
         else let parts = splitOn (CHR ''/'') gatewayIP in
           bind_go (indexGo parts 0) (\<lambda>p0.
             if p0 = '''' then Err (ErrNew ''Cannot split gateway IP address'')
             else bind_go (indexGo parts 1) (\<lambda>p1.
               if p1 = '''' then Err (ErrNew ''Cannot split gateway IP address'')
               else Ok (p0, p1))))"

text \<open>
  The options under the key \<open>com.docker.network.generic\<close>: the value there, when not nil, is
  asserted to be a map without the comma-ok form; the entry itself is read with it.
\<close>

definition genericOption :: "CreateNetworkRequest \<Rightarrow> string \<Rightarrow> string go" where
  "genericOption r key = (case requestOption r optionKey of
       None \<Rightarrow> Ok ''''
     | Some GNil \<Rightarrow> Ok ''''
     | Some (GMap option) \<Rightarrow> (case go_lookup option key of Some (GString v) \<Rightarrow> Ok v | _ \<Rightarrow> Ok '''')
     | Some _ \<Rightarrow> Panic TypeAssertion)"

definition getBindInterface :: "CreateNetworkRequest \<Rightarrow> string go" where
  "getBindInterface r = genericOption r bindInterfaceOption"

definition getNetworkName :: "CreateNetworkRequest \<Rightarrow> string go" where
  "getNetworkName r = genericOption r networkNameOption"

definition getNetworkType :: "CreateNetworkRequest \<Rightarrow> string go" where
  "getNetworkType r = genericOption r typeOption"

definition getBridgeName :: "CreateNetworkRequest \<Rightarrow> string \<Rightarrow> string go" where
  "getBridgeName r networkname =
     bind_go (truncateID (cn_NetworkID r)) (\<lambda>networkid.
       Ok (case requestOption r bridgeNameOption of
           Some (GString name) \<Rightarrow> name
         | _ \<Rightarrow> if length networkname > 0 then networkname @ ''-'' @ networkid
                else ''ovsbr-'' @ networkid))"

definition checkExecutable :: "('w, 'z) env_scheme \<Rightarrow> string \<Rightarrow> string \<Rightarrow> ('w plugin, unit) gom" where
  "checkExecutable env networkType networkName =
     (if \<not> equalFold networkType ''sgw'' \<and> \<not> equalFold networkType ''pgw'' then retG ()
      else if length networkName \<le> 0
      then failG (ErrNew ''options must specify network name for sgw or pgw type'')
      else bindG (ExecCommandWithComplete env ''ps -ef | grep /usr/sbin/ovsopt.sh | grep -v grep | wc -l'')
        (\<lambda>_. retG ()))"

section \<open>Networks\<close>

text \<open>The part of \<open>CreateNetwork\<close> that reads the request, in the order of the source.\<close>

definition readRequest :: "CreateNetworkRequest \<Rightarrow> NetworkState go" where
  "readRequest r =
     bind_go (getBridgeMTU r) (\<lambda>mtu.
     bind_go (getBridgeMode r) (\<lambda>mode.
     bind_go (getGatewayIP r) (\<lambda>(gateway, mask).
     bind_go (getBindInterface r) (\<lambda>bindInterface.
     bind_go (getNetworkName r) (\<lambda>networkName.
     bind_go (getBridgeName r networkName) (\<lambda>bridgeName.
     bind_go (getNetworkType r) (\<lambda>networktype.
     Ok \<lparr>BridgeName = bridgeName, MTU = mtu, Mode = mode, Gateway = gateway, GatewayMask = mask,
         FlatBindInterface = bindInterface, NetworkType = networktype, NetworkName = networkName\<rparr>)))))))"

definition setNetwork :: "string \<Rightarrow> NetworkState \<Rightarrow> ('w plugin, unit) gom" where
  "setNetwork i ns = modifyG (\<lambda>s. s\<lparr>networks := go_update i ns (networks s)\<rparr>)"

definition dropNetwork :: "string \<Rightarrow> ('w plugin, unit) gom" where
  "dropNetwork i = modifyG (\<lambda>s. s\<lparr>networks := go_delete i (networks s)\<rparr>)"

definition CreateNetwork :: "('w, 'z) env_scheme \<Rightarrow> CreateNetworkRequest \<Rightarrow> ('w plugin, unit) gom" where
  "CreateNetwork env r =
     bindG (liftG (readRequest r)) (\<lambda>ns.
     bindG (checkExecutable env (NetworkType ns) (NetworkName ns)) (\<lambda>_.
     bindG (setNetwork (cn_NetworkID r) ns) (\<lambda>_.
     tryG (initBridge env (cn_NetworkID r)) retG
       (\<lambda>e. bindG (dropNetwork (cn_NetworkID r)) (\<lambda>_. failG e)))))"

definition DeleteNetwork :: "('w, 'z) env_scheme \<Rightarrow> string \<Rightarrow> ('w plugin, unit) gom" where
  "DeleteNetwork env networkID =
     bindG (getBridgeNameByNetworkId env networkID) (\<lambda>bridgeName.
     bindG (deleteBridge env bridgeName) (\<lambda>_. dropNetwork networkID))"

section \<open>Endpoints\<close>

definition CreateEndpoint :: "('w plugin, unit) gom" where
  "CreateEndpoint = retG ()"

definition DeleteEndpoint :: "('w plugin, unit) gom" where
  "DeleteEndpoint = retG ()"

definition EndpointInfo :: "('w plugin, (string, string) gomap) gom" where
  "EndpointInfo = retG []"

definition Join :: "('w, 'z) env_scheme \<Rightarrow> JoinRequest \<Rightarrow> ('w plugin, JoinResponse) gom" where
  "Join env r =
     bindG (liftG (truncateID (jr_EndpointID r))) (\<lambda>suffix.
     bindG (onWorld (LinkAdd env (vethPair suffix))) (\<lambda>localVethPair.
     bindG (onWorld (LinkSetUp env localVethPair)) (\<lambda>_.
     bindG (getBridgeNameByNetworkId env (jr_NetworkID r)) (\<lambda>bridgeName.
     bindG (addOvsVethPort env bridgeName (nl_Name (vethPair suffix)) 0) (\<lambda>_.
     bindG (getIPByInterface env bridgeName) (\<lambda>gatewayIP.
     retG \<lparr>js_Gateway = gatewayIP, js_SrcName = nl_PeerName (vethPair suffix), js_DstPrefix = ''eth''\<rparr>))))))"

text \<open>The port name of \<open>Leave\<close> goes through \<open>fmt.Sprintf\<close> as the format string.\<close>

definition leavePortID :: "string \<Rightarrow> string" where
  "leavePortID suffix = sprintfStrings (''ovs-veth0-'' @ suffix) []"

definition Leave :: "('w, 'z) env_scheme \<Rightarrow> LeaveRequest \<Rightarrow> ('w plugin, unit) gom" where
  "Leave env r =
     bindG (liftG (truncateID (lr_EndpointID r))) (\<lambda>suffix.
     bindG (tryG (onWorld (LinkDel env (vethPair suffix))) retG (\<lambda>_. retG ())) (\<lambda>_.
     bindG (getBridgeNameByNetworkId env (lr_NetworkID r)) (\<lambda>bridgeName.
     deletePort env bridgeName (leavePortID suffix))))"

section \<open>Start of the driver\<close>

definition connectOvsdb :: "('w, 'z) env_scheme \<Rightarrow> ('w plugin, OvsdbClient) gom" where
  "connectOvsdb env =
     retryG 3 (onWorld (Connect env ''127.0.0.1'' 6640)) (\<lambda>_. onWorld (Sleep env 5)) (ErrNew '''')"

text \<open>\<open>None\<close>: the driver still waits for the root row of the database.\<close>

definition NewDriver ::
    "('w, 'z) env_scheme \<Rightarrow> TableUpdates list list \<Rightarrow> 'w plugin \<Rightarrow> (unit go \<times> 'w plugin) option" where
  "NewDriver env batches s =
     (case onWorld (NewDockerClient env ''unix:///var/run/docker.sock'') s of
        (Err e, s1) \<Rightarrow> Some (Err (Errorf ''could not connect to docker: %s'' [EErr e]), s1)
      | (Ok _, s1) \<Rightarrow>
          (case connectOvsdb env s1 of
             (Err _, s2) \<Rightarrow> Some (Err (ErrNew ''could not connect to open vswitch''), s2)
           | (Ok ovs, s2) \<Rightarrow> initDBCache env batches (s2\<lparr>ovsdb := Some ovs, networks := []\<rparr>)
           | (Panic p, s2) \<Rightarrow> Some (Panic p, s2)
           | (Fatal m, s2) \<Rightarrow> Some (Fatal m, s2))
      | (Panic p, s1) \<Rightarrow> Some (Panic p, s1)
      | (Fatal m, s1) \<Rightarrow> Some (Fatal m, s1))"

section \<open>What the operations leave alone\<close>

lemma checkExecutable_keeps [keeps_intros]: "keepsG (only_world s0) (checkExecutable env t n)"
  unfolding checkExecutable_def by (intro keeps_intros)

lemma Join_keeps [keeps_intros]: "keepsG (only_world s0) (Join env r)"
  unfolding Join_def by (intro keeps_intros)

lemma Leave_keeps [keeps_intros]: "keepsG (only_world s0) (Leave env r)"
  unfolding Leave_def by (intro keeps_intros)

lemma keepsG_networks:
  assumes "\<And>s0. keepsG (only_world s0) m"
  shows "keepsG (\<lambda>s. P (networks s)) m"
  using only_world_snd [OF assms] by (simp add: keepsG_def)

section \<open>Well-formed networks\<close>

definition valid_network :: "NetworkState \<Rightarrow> bool" where
  "valid_network ns \<longleftrightarrow>
     Mode ns \<in> set validModes \<and>
     Gateway ns \<noteq> '''' \<and> CHR ''/'' \<notin> set (Gateway ns) \<and>
     GatewayMask ns \<noteq> '''' \<and> CHR ''/'' \<notin> set (GatewayMask ns) \<and>
     (isGatewayType (NetworkType ns) \<longrightarrow> NetworkName ns \<noteq> '''')"

definition networks_valid :: "'w plugin \<Rightarrow> bool" where
  "networks_valid s \<longleftrightarrow> wf_gomap (networks s) \<and>
     (\<forall>i ns. go_lookup (networks s) i = Some ns \<longrightarrow> valid_network ns)"

lemma getBridgeMode_Ok: "getBridgeMode r = Ok m \<Longrightarrow> m \<in> set validModes"
  by (auto simp: getBridgeMode_def validModes_def split: option.splits gov.splits if_splits)

lemma getGatewayIP_Ok:
  assumes "getGatewayIP r = Ok (g, m)"
  shows "g \<noteq> '''' \<and> CHR ''/'' \<notin> set g \<and> m \<noteq> '''' \<and> CHR ''/'' \<notin> set m"
proof -
  let ?parts = "splitOn (CHR ''/'') (firstGateway (cn_IPv4Data r) (firstGateway (cn_IPv6Data r) ''''))"
  from assms have "1 < length ?parts" "g = ?parts ! 0" "m = ?parts ! 1" "g \<noteq> ''''" "m \<noteq> ''''"
    by (auto simp: getGatewayIP_def Let_def bind_go_Ok_iff indexGo_def split: if_splits)
  moreover from this have "g \<in> set ?parts" "m \<in> set ?parts" by auto
  ultimately show ?thesis using splitOn_parts_clean by blast
qed

lemma readRequest_Ok:
  assumes "readRequest r = Ok ns"
  shows "getBridgeMode r = Ok (Mode ns)" "getGatewayIP r = Ok (Gateway ns, GatewayMask ns)"
    "getNetworkName r = Ok (NetworkName ns)" "getNetworkType r = Ok (NetworkType ns)"
    "getBridgeName r (NetworkName ns) = Ok (BridgeName ns)"
    "getBridgeMTU r = Ok (MTU ns)" "getBindInterface r = Ok (FlatBindInterface ns)"
  using assms by (auto simp: readRequest_def bind_go_Ok_iff)

lemma checkExecutable_Ok:
  "checkExecutable env t n s = (Ok (), s') \<Longrightarrow> isGatewayType t \<Longrightarrow> n \<noteq> ''''"
  by (auto simp: checkExecutable_def isGatewayType_def failG_def split: if_splits)

lemma valid_readRequest:
  assumes "readRequest r = Ok ns" "checkExecutable env (NetworkType ns) (NetworkName ns) s = (Ok (), s')"
  shows "valid_network ns"
  using readRequest_Ok [OF assms(1)] getBridgeMode_Ok [of r] getGatewayIP_Ok [of r]
    checkExecutable_Ok [OF assms(2)]
  by (simp add: valid_network_def)

section \<open>The phases of CreateNetwork\<close>

lemma liftG_apply: "liftG x s = (x, s)"
  by (simp add: liftG_def)

lemma CreateNetwork_rejected:
  "\<not> is_Ok (readRequest r) \<Longrightarrow> CreateNetwork env r s = (map_go_res (\<lambda>_. ()) (readRequest r), s)"
  by (cases "readRequest r") (simp_all add: CreateNetwork_def liftG_def bindG_def tryG_def failG_def)

text \<open>
  What happens to the table of networks when the request was read and accepted: the entry is
  written before the bridge is initialised, and removed only when that returns an error.
\<close>

lemma CreateNetwork_accepted:
  assumes "readRequest r = Ok ns"
    and check: "checkExecutable env (NetworkType ns) (NetworkName ns) s = (Ok (), s1)"
    and init: "initBridge env (cn_NetworkID r) (s1\<lparr>networks := go_update (cn_NetworkID r) ns (networks s)\<rparr>)
      = (res, s2)"
  shows "CreateNetwork env r s = (res, if is_Err res
      then s2\<lparr>networks := go_delete (cn_NetworkID r) (go_update (cn_NetworkID r) ns (networks s))\<rparr> else s2)"
    and "networks s2 = go_update (cn_NetworkID r) ns (networks s)"
proof -
  let ?t = "s1\<lparr>networks := go_update (cn_NetworkID r) ns (networks s)\<rparr>"
  have n1: "networks s1 = networks s"
    using keeps_networks [OF checkExecutable_keeps check] .
  show n2: "networks s2 = go_update (cn_NetworkID r) ns (networks s)"
    using keeps_networks [OF keepsG_initBridge init] by simp
  show "CreateNetwork env r s = (res, if is_Err res
      then s2\<lparr>networks := go_delete (cn_NetworkID r) (go_update (cn_NetworkID r) ns (networks s))\<rparr> else s2)"
    using assms n1 n2
    by (cases res) (simp_all add: CreateNetwork_def bindG_def tryG_def liftG_def setNetwork_def
        dropNetwork_def modifyG_def failG_def retG_def)
qed

lemma CreateNetwork_refused:
  assumes "readRequest r = Ok ns"
    and "checkExecutable env (NetworkType ns) (NetworkName ns) s = (res, s1)" "\<not> is_Ok res"
  shows "CreateNetwork env r s = (res, s1)" "networks s1 = networks s"
proof -
  show "networks s1 = networks s"
    using keeps_networks [OF checkExecutable_keeps assms(2)] .
  show "CreateNetwork env r s = (res, s1)"
    using assms by (cases res) (simp_all add: CreateNetwork_def bindG_def tryG_def liftG_def failG_def)
qed

text \<open>The three ways a call of \<open>CreateNetwork\<close> can go.\<close>

lemma CreateNetwork_cases [consumes 1, case_names rejected refused accepted]:
  assumes "CreateNetwork env r s = (res, s')"
  obtains "\<not> is_Ok (readRequest r)" "res = map_go_res (\<lambda>_. ()) (readRequest r)" "s' = s"
  | ns where "readRequest r = Ok ns" "\<not> is_Ok res" "networks s' = networks s"
      "checkExecutable env (NetworkType ns) (NetworkName ns) s = (res, s')"
  | ns s1 s2 where "readRequest r = Ok ns" "valid_network ns"
      "checkExecutable env (NetworkType ns) (NetworkName ns) s = (Ok (), s1)"
      "initBridge env (cn_NetworkID r) (s1\<lparr>networks := go_update (cn_NetworkID r) ns (networks s)\<rparr>)
        = (res, s2)"
      "networks s2 = go_update (cn_NetworkID r) ns (networks s)"
      "s' = (if is_Err res then s2\<lparr>networks := go_delete (cn_NetworkID r) (networks s2)\<rparr> else s2)"
proof (cases "readRequest r")
  case (Ok ns)
  obtain c s1 where c: "checkExecutable env (NetworkType ns) (NetworkName ns) s = (c, s1)" by fastforce
  show ?thesis
  proof (cases "is_Ok c")
    case True
    with c have c': "checkExecutable env (NetworkType ns) (NetworkName ns) s = (Ok (), s1)"
      by (simp add: is_Ok_iff)
    obtain res' s2 where i: "initBridge env (cn_NetworkID r)
        (s1\<lparr>networks := go_update (cn_NetworkID r) ns (networks s)\<rparr>) = (res', s2)" by fastforce
    from CreateNetwork_accepted [OF Ok c' i] assms have "res = res'"
      and "s' = (if is_Err res then s2\<lparr>networks := go_delete (cn_NetworkID r) (networks s2)\<rparr> else s2)"
      by auto
    with that(3) [OF Ok valid_readRequest [OF Ok c'] c'] i CreateNetwork_accepted(2) [OF Ok c' i]
    show ?thesis by simp
  next
    case False
    with CreateNetwork_refused [OF Ok c] assms c Ok show ?thesis by (intro that(2)) simp_all
  qed
qed (use assms CreateNetwork_rejected [of r env s] in \<open>auto intro!: that(1)\<close>)

lemma initBridge_Ok:
  assumes "initBridge env i s = (Ok (), s')"
  obtains ns s1 s2 where "go_lookup (networks s) i = Some ns"
    "addBridge env (BridgeName ns) (NetworkType ns) i s = (Ok (), s1)"
    "waitForLink env (BridgeName ns) 10 s1 = (Ok True, s2)"
  using assms
  by (auto simp: initBridge_def bindG_Ok_iff failG_def split: option.splits if_splits)

lemma CreateNetwork_keeps: "keepsG networks_valid (CreateNetwork env r)"
  unfolding keepsG_def
proof (intro allI impI)
  fix s :: "'a plugin" assume inv: "networks_valid s"
  obtain res s' where c: "CreateNetwork env r s = (res, s')" by fastforce
  then show "networks_valid (snd (CreateNetwork env r s))"
  proof (cases rule: CreateNetwork_cases)
    case (accepted ns s1 s2)
    then show ?thesis using inv c
      by (auto simp: networks_valid_def gomap.invar_update gomap.invar_delete split: if_splits)
  qed (use inv c in \<open>auto simp: networks_valid_def\<close>)
qed

lemma DeleteNetwork_phases:
  "DeleteNetwork env i s = (case bindG (getBridgeNameByNetworkId env i) (deleteBridge env) s of
      (Ok _, s') \<Rightarrow> (Ok (), s'\<lparr>networks := go_delete i (networks s')\<rparr>)
    | r \<Rightarrow> r)"
  by (auto simp: DeleteNetwork_def bindG_def tryG_def failG_def dropNetwork_def modifyG_def
      split: go.splits prod.splits)

lemma DeleteNetwork_keeps: "keepsG networks_valid (DeleteNetwork env i)"
proof -
  have "keepsG (\<lambda>s. P (networks s)) (bindG (getBridgeNameByNetworkId env i) (deleteBridge env))" for P
    by (rule keepsG_networks) (intro keeps_intros)
  from this [of "\<lambda>n. wf_gomap n \<and> (\<forall>i ns. go_lookup n i = Some ns \<longrightarrow> valid_network ns)"]
  show ?thesis unfolding keepsG_def networks_valid_def
    by (auto simp: DeleteNetwork_phases gomap.invar_delete split: go.splits prod.splits if_splits)
qed

lemma itoa_6640: "itoa 6640 = ''6640''"
  by (simp add: itoa_def natDigits.simps digitChar_def char_of_eq_iff)

text \<open>The gateway that a request names: the first entry for IPv4, else the first for IPv6.\<close>

definition requestGateway :: "CreateNetworkRequest \<Rightarrow> string" where
  "requestGateway r = firstGateway (cn_IPv4Data r) (firstGateway (cn_IPv6Data r) '''')"

definition beforeSlash :: "string \<Rightarrow> string" where
  "beforeSlash s = takeWhile (\<lambda>c. c \<noteq> CHR ''/'') s"

lemma splitOn_hd: "splitOn c s ! 0 = takeWhile (\<lambda>x. x \<noteq> c) s"
proof (induction s)
  case (Cons x s)
  then show ?case by (cases "splitOn c s") auto
qed simp

lemma splitOn_takeWhile:
  assumes "c \<in> set s"
  shows "splitOn c s = takeWhile (\<lambda>x. x \<noteq> c) s # splitOn c (tl (dropWhile (\<lambda>x. x \<noteq> c) s))"
proof -
  from assms obtain b where "dropWhile (\<lambda>x. x \<noteq> c) s = c # b"
    by (metis (mono_tags, lifting) dropWhile_eq_Nil_conv hd_dropWhile list.collapse)
  with splitOn_append_sep [of c "takeWhile (\<lambda>x. x \<noteq> c) s" b] set_takeWhileD [of c "\<lambda>x. x \<noteq> c" s]
  show ?thesis by (metis (mono_tags, lifting) list.sel(3) takeWhile_dropWhile_id)
qed

section \<open>Requests on the scripted world\<close>

definition lab_request :: CreateNetworkRequest where
  "lab_request = \<lparr>cn_NetworkID = ''281746a33da5c97b'', cn_Options = None,
     cn_IPv4Data = [Some \<lparr>ipam_AddressSpace = '''', ipam_Pool = ''10.1.0.0/24'',
       ipam_Gateway = ''10.1.0.1/24'', ipam_AuxAddresses = []\<rparr>], cn_IPv6Data = []\<rparr>"

definition lab_flat :: CreateNetworkRequest where
  "lab_flat = lab_request\<lparr>cn_Options := Some [(modeOption, GString ''flat'')]\<rparr>"

definition lab_network :: NetworkState where
  "lab_network = \<lparr>BridgeName = ''ovsbr-28174'', MTU = 1500, Mode = ''flat'', Gateway = ''10.1.0.1'',
     GatewayMask = ''24'', FlatBindInterface = '''', NetworkType = '''', NetworkName = ''''\<rparr>"

text \<open>The reply to a query that found one row, and a process whose server gives it once.\<close>

definition lab_rows :: "json go" where
  "lab_rows = Ok (JArr [JObj [(''rows'', JArr [JObj [(''name'', JString ''ovsbr-28174'')]])]])"

definition lab_ready :: "lab plugin" where
  "lab_ready = lab_state lab_full (lab_world [lab_rows] [''ovsbr-28174''])"

definition lab_dead :: "lab plugin" where
  "lab_dead = lab_state lab_full (lab_world [] [])"

text \<open>A kernel that has lost the link between two calls.\<close>

definition lab_env_nolink :: "lab env" where
  "lab_env_nolink = lab_env\<lparr>LinkByName := \<lambda>_ w. (Err (ErrNew ''Link not found''), w)\<rparr>"

text \<open>A host on which nothing listens on the database port.\<close>

definition lab_env_refusing :: "lab env" where
  "lab_env_refusing = lab_env\<lparr>net_dial := \<lambda>_ w.
     (Err (ErrNew ''connection refused''), w\<lparr>lab_dials := Suc (lab_dials w)\<rparr>)\<rparr>"

section \<open>Properties\<close>



text \<open>C7. When CreateNetwork returns an error, either the request was refused and no entry
  changed, or the bridge could not be set up and the entry of this network is gone,
  including an entry that an earlier request had made; the other entries stay.\<close>

theorem CreateNetwork_error:
  assumes "CreateNetwork env r s = (Err e, s')"
  shows "readRequest r = Err e \<and> s' = s \<or>
    (\<exists>ns. readRequest r = Ok ns \<and> networks s' = networks s \<and>
       checkExecutable env (NetworkType ns) (NetworkName ns) s = (Err e, s')) \<or>
    (\<exists>ns. readRequest r = Ok ns \<and> valid_network ns \<and>
       go_lookup (networks s') = (go_lookup (networks s))(cn_NetworkID r := None))"
  using assms
proof (cases rule: CreateNetwork_cases)
  case rejected
  then show ?thesis by (cases "readRequest r") simp_all
qed auto

theorem CreateNetwork_error_witness:
  "\<exists>e. fst (CreateNetwork lab_env lab_request lab_dead) = Err e \<and>
    networks (snd (CreateNetwork lab_env lab_request lab_dead)) = []"
proof -
  have run: "fst (CreateNetwork lab_env lab_request lab_dead) =
      Err (ErrNew ''Number of Replies should be at least equal to number of Operations'')" by code_simp
  have none: "networks lab_dead = []" by (simp add: lab_dead_def lab_state_def)
  have "go_lookup m = (go_lookup [])(k := None) \<Longrightarrow> m = []" for m :: "(string, NetworkState) gomap" and k
    by (cases m) (auto simp: fun_eq_iff split: if_splits)
  with CreateNetwork_error [OF fst_call [OF run]] run none show ?thesis by auto
qed

text \<open>A panic while the bridge is set up leaves the new entry behind: the network counts as
  existing although the request was never answered.\<close>

lemma CreateNetwork_panic:
  assumes "CreateNetwork env r s = (Panic p, s')" "readRequest r = Ok ns"
    and "checkExecutable env (NetworkType ns) (NetworkName ns) s = (Ok (), s1)"
  shows "go_lookup (networks s') = (go_lookup (networks s))(cn_NetworkID r \<mapsto> ns)"
  using assms(1)
proof (cases rule: CreateNetwork_cases)
  case rejected
  with assms(2) show ?thesis by simp
next
  case (refused ns')
  with assms(2,3) show ?thesis by simp
next
  case (accepted ns' t1 t2)
  with assms(2) show ?thesis by simp
qed

text \<open>C12. DeleteNetwork removes the entry of the network exactly when it succeeds, whatever
  the server and the system answer.\<close>

theorem DeleteNetwork_networks:
  "networks (snd (DeleteNetwork env i s)) =
     (if is_Ok (fst (DeleteNetwork env i s)) then go_delete i (networks s) else networks s)"
proof -
  let ?m = "bindG (getBridgeNameByNetworkId env i) (deleteBridge env)"
  obtain r s' where m: "?m s = (r, s')" by fastforce
  have "keepsG (only_world s0) ?m" for s0 by (intro keeps_intros)
  from keeps_networks [OF this m] have "networks s' = networks s" .
  with m show ?thesis by (cases r) (simp_all add: DeleteNetwork_phases)
qed

text \<open>C38. How the gateway of a request is split: a reference definition on the text.\<close>

theorem getGatewayIP_spec:
  "getGatewayIP r =
     (let g = requestGateway r; a = beforeSlash g;
          m = beforeSlash (tl (dropWhile (\<lambda>c. c \<noteq> CHR ''/'') g))
      in if g = '''' then Err (ErrNew ''No gateway IP found'')
         else if CHR ''/'' \<notin> set g then Panic IndexOutOfRange
         else if a = '''' \<or> m = '''' then Err (ErrNew ''Cannot split gateway IP address'')
         else Ok (a, m))"
proof (cases "CHR ''/'' \<in> set (requestGateway r)")
  case True
  let ?rest = "tl (dropWhile (\<lambda>c. c \<noteq> CHR ''/'') (requestGateway r))"
  have "requestGateway r \<noteq> ''''" using True by auto
  moreover have "length (splitOn (CHR ''/'') ?rest) > 0" by simp
  ultimately show ?thesis
    using True splitOn_takeWhile [OF True] splitOn_hd [of "CHR ''/''" ?rest]
    by (simp add: getGatewayIP_def requestGateway_def [symmetric] Let_def indexGo_def beforeSlash_def)
next
  case False
  then show ?thesis
    by (simp add: getGatewayIP_def requestGateway_def [symmetric] Let_def indexGo_def splitOn_no_sep)
qed

text \<open>The address that is put on the bridge and into the NAT rule is the gateway the request
  named, when that is an address, one slash and a mask.\<close>

lemma gatewayCIDR_roundtrip:
  assumes "readRequest r = Ok ns" "requestGateway r = a @ ''/'' @ m" "CHR ''/'' \<notin> set a"
    and "CHR ''/'' \<notin> set m"
  shows "gatewayCIDR ns = requestGateway r"
proof -
  have "splitOn (CHR ''/'') (requestGateway r) = [a, m]"
    using assms(2-4) by (simp add: splitOn_append_sep splitOn_no_sep)
  then have "getGatewayIP r = Ok (Gateway ns, GatewayMask ns) \<Longrightarrow> Gateway ns = a \<and> GatewayMask ns = m"
    by (auto simp: getGatewayIP_def requestGateway_def [symmetric] Let_def indexGo_def split: if_splits)
  with readRequest_Ok(2) [OF assms(1)] assms(2) show ?thesis by (simp add: gatewayCIDR_def)
qed

text \<open>Join and Leave agree on the name of the port of an endpoint, the name fills the 15
  bytes the kernel allows exactly, and two endpoints share it only when their truncated IDs
  are equal.\<close>

lemma endpoint_port_name:
  assumes "5 \<le> length eid" "CHR ''%'' \<notin> set (take 5 eid)"
  shows "\<exists>suffix. truncateID eid = Ok suffix \<and>
    leavePortID suffix = nl_Name (vethPair suffix) \<and>
    length (nl_Name (vethPair suffix)) = 15 \<and>
    nl_Name (vethPair suffix) \<noteq> nl_PeerName (vethPair suffix) \<and>
    (\<forall>eid' suffix'. truncateID eid' = Ok suffix' \<longrightarrow>
       (nl_Name (vethPair suffix') = nl_Name (vethPair suffix) \<longleftrightarrow> take 5 eid' = take 5 eid))"
  using assms
  by (auto simp: truncateID_def slicePrefix_def leavePortID_def vethPair_def sprintf_plain split: if_splits)

text \<open>An identifier of fewer than five bytes makes the request panic before anything was done,
  in CreateNetwork (with an accepted gateway and no panicking option), Join and Leave alike.\<close>

lemma short_id_panics:
  "(length (jr_EndpointID jr) < 5 \<longrightarrow> Join env jr s = (Panic IndexOutOfRange, s)) \<and>
   (length (lr_EndpointID lr) < 5 \<longrightarrow> Leave env lr s = (Panic IndexOutOfRange, s)) \<and>
   (length (cn_NetworkID r) < 5 \<longrightarrow> \<not> is_Ok (readRequest r) \<and>
      CreateNetwork env r s = (map_go_res (\<lambda>_. ()) (readRequest r), s))"
proof -
  have "\<not> is_Ok (readRequest r)" if "length (cn_NetworkID r) < 5"
    using that readRequest_Ok(5) [of r]
    by (auto simp: is_Ok_iff getBridgeName_def truncateID_def slicePrefix_def)
  then show ?thesis
    by (auto simp: CreateNetwork_rejected Join_def Leave_def truncateID_def slicePrefix_def
        liftG_def bindG_def tryG_def)
qed

text \<open>When nothing listens on the database port, NewDriver dials three times and gives up
  with an error; it neither blocks nor touches the tables of the process.\<close>

lemma NewDriver_gives_up:
  assumes "NewDockerClient env ''unix:///var/run/docker.sock'' (world s) = (Ok (), w0)"
    and dial: "\<And>w. \<exists>e. net_dial env ''127.0.0.1:6640'' w = (Err e, down w)"
    and sleep: "\<And>w. Sleep env 5 w = (Ok (), w)"
  shows "NewDriver env batches s =
    Some (Err (ErrNew ''could not connect to open vswitch''), s\<lparr>world := down (down (down w0))\<rparr>)"
proof -
  let ?f = "\<lambda>t :: 'a plugin. t\<lparr>world := down (world t)\<rparr>"
  have c: "\<exists>e. onWorld (Connect env ''127.0.0.1'' 6640) t = (Err e, ?f t)" for t
  proof -
    obtain e where "net_dial env ''127.0.0.1:6640'' (world t) = (Err e, down (world t))"
      using dial [of "world t"] by (elim exE) (rule that)
    then have "Connect env ''127.0.0.1'' 6640 (world t) = (Err e, down (world t))"
      by (simp add: Connect_def bindG_def tryG_def failG_def itoa_6640)
    then show ?thesis by (intro exI onWorld_eq)
  qed
  have z: "onWorld (Sleep env 5) t = (Ok (), t)" for t :: "'a plugin"
    using onWorld_eq [where f = "Sleep env 5" and s = t, OF sleep] by simp
  obtain e' where "connectOvsdb env (s\<lparr>world := w0\<rparr>) = (Err e', (?f ^^ 3) (s\<lparr>world := w0\<rparr>))"
    unfolding connectOvsdb_def
    using retryG_fails [where m = "onWorld (Connect env ''127.0.0.1'' 6640)" and f = ?f
        and h = "\<lambda>_. onWorld (Sleep env 5)" and n = 3 and e = "ErrNew ''''" and s = "s\<lparr>world := w0\<rparr>", OF c z]
    by blast
  moreover have "(?f ^^ 3) (s\<lparr>world := w0\<rparr>) = s\<lparr>world := down (down (down w0))\<rparr>"
    by (simp add: numeral_3_eq_3)
  moreover have "onWorld (NewDockerClient env ''unix:///var/run/docker.sock'') s = (Ok (), s\<lparr>world := w0\<rparr>)"
    using assms(1) by (rule onWorld_eq)
  ultimately show ?thesis by (simp add: NewDriver_def)
qed



end
