(* ===== verification/Dknet_Handler.thy ===== *)
theory Dknet_Handler
  imports Ovs_Driver
begin

text \<open>
  The plugin's HTTP side (\<open>dknet/api.go\<close>): decoding of the requests of the Docker daemon, the
  table of paths, the responses. The handler is written against the interface
  \<open>dknet.Driver\<close> (\<open>driver_ops\<close>, with the locale \<open>network_driver\<close> for what it may rely on);
  \<open>ovs_driver\<close> is the driver of this repository.

  A panic in a handler is recovered by \<open>net/http\<close>, which closes the connection without a
  response; \<open>log.Fatalf\<close> ends the process.
\<close>

section \<open>Decoding requests\<close>

definition decOptions :: "json option \<Rightarrow> (string, gov) gomap option go" where
  "decOptions j = (case j of
       None \<Rightarrow> Ok None
     | Some JNull \<Rightarrow> Ok None
     | Some (JObj kvs) \<Rightarrow>
         (case unmarshal_any (JObj kvs) of GMap m \<Rightarrow> Ok (Some m) | _ \<Rightarrow> decodeError)
     | Some _ \<Rightarrow> decodeError)"

definition decIPAM :: "json \<Rightarrow> IPAMData option go" where
  "decIPAM j = (if j = JNull then Ok None else if \<not> isStructJson j then decodeError else
     bind_go (decString (jsonMember j ''AddressSpace'')) (\<lambda>a.
     bind_go (decString (jsonMember j ''Pool'')) (\<lambda>p.
     bind_go (decString (jsonMember j ''Gateway'')) (\<lambda>g.
     bind_go (decOptions (jsonMember j ''AuxAddresses'')) (\<lambda>x.
     Ok (Some \<lparr>ipam_AddressSpace = a, ipam_Pool = p, ipam_Gateway = g,
       ipam_AuxAddresses = (case x of None \<Rightarrow> [] | Some m \<Rightarrow> m)\<rparr>))))))"

definition decodeCreateNetwork :: "json \<Rightarrow> CreateNetworkRequest go" where
  "decodeCreateNetwork j = (if \<not> isStructJson j then decodeError else
     bind_go (decString (jsonMember j ''NetworkID'')) (\<lambda>n.
     bind_go (decOptions (jsonMember j ''Options'')) (\<lambda>opts.
     bind_go (decList decIPAM (jsonMember j ''IPv4Data'')) (\<lambda>v4.
     bind_go (decList decIPAM (jsonMember j ''IPv6Data'')) (\<lambda>v6.
     Ok \<lparr>cn_NetworkID = n, cn_Options = opts, cn_IPv4Data = v4, cn_IPv6Data = v6\<rparr>)))))"

definition decodeDeleteNetwork :: "json \<Rightarrow> string go" where
  "decodeDeleteNetwork j =
     (if \<not> isStructJson j then decodeError else decString (jsonMember j ''NetworkID''))"

text \<open>The fields of the endpoint requests that the handler passes on.\<close>

record EndpointRequest =
  er_NetworkID :: string
  er_EndpointID :: string

definition decEndpointInterface :: "json option \<Rightarrow> unit go" where
  "decEndpointInterface j = (case j of None \<Rightarrow> Ok () | Some i \<Rightarrow>
     if \<not> isStructJson i then decodeError else
     bind_go (decString (jsonMember i ''Address'')) (\<lambda>_.
     bind_go (decString (jsonMember i ''AddressIPv6'')) (\<lambda>_.
     bind_go (decString (jsonMember i ''MacAddress'')) (\<lambda>_. Ok ()))))"

definition decodeCreateEndpoint :: "json \<Rightarrow> EndpointRequest go" where
  "decodeCreateEndpoint j = (if \<not> isStructJson j then decodeError else
     bind_go (decString (jsonMember j ''NetworkID'')) (\<lambda>n.
     bind_go (decString (jsonMember j ''EndpointID'')) (\<lambda>e.
     bind_go (decEndpointInterface (jsonMember j ''Interface'')) (\<lambda>_.
     bind_go (decOptions (jsonMember j ''Options'')) (\<lambda>_.
     Ok \<lparr>er_NetworkID = n, er_EndpointID = e\<rparr>)))))"

definition decodeDeleteEndpoint :: "json \<Rightarrow> EndpointRequest go" where
  "decodeDeleteEndpoint j = (if \<not> isStructJson j then decodeError else
     bind_go (decString (jsonMember j ''NetworkID'')) (\<lambda>n.
     bind_go (decString (jsonMember j ''EndpointID'')) (\<lambda>e.
     Ok \<lparr>er_NetworkID = n, er_EndpointID = e\<rparr>)))"

text \<open>The endpoint's field of an \<open>InfoRequest\<close> is spelt \<open>EnpointID\<close>.\<close>

definition decodeInfo :: "json \<Rightarrow> EndpointRequest go" where
  "decodeInfo j = (if \<not> isStructJson j then decodeError else
     bind_go (decString (jsonMember j ''NetworkID'')) (\<lambda>n.
     bind_go (decString (jsonMember j ''EnpointID'')) (\<lambda>e.
     Ok \<lparr>er_NetworkID = n, er_EndpointID = e\<rparr>)))"

definition decodeJoin :: "json \<Rightarrow> JoinRequest go" where
  "decodeJoin j = (if \<not> isStructJson j then decodeError else
     bind_go (decString (jsonMember j ''NetworkID'')) (\<lambda>n.
     bind_go (decString (jsonMember j ''EndpointID'')) (\<lambda>e.
     bind_go (decString (jsonMember j ''SandboxKey'')) (\<lambda>k.
     bind_go (decOptions (jsonMember j ''Options'')) (\<lambda>_.
     Ok \<lparr>jr_NetworkID = n, jr_EndpointID = e, jr_SandboxKey = k\<rparr>)))))"

definition decodeLeave :: "json \<Rightarrow> LeaveRequest go" where
  "decodeLeave j = (if \<not> isStructJson j then decodeError else
     bind_go (decString (jsonMember j ''NetworkID'')) (\<lambda>n.
     bind_go (decString (jsonMember j ''EndpointID'')) (\<lambda>e.
     bind_go (decOptions (jsonMember j ''Options'')) (\<lambda>_.
     Ok \<lparr>lr_NetworkID = n, lr_EndpointID = e\<rparr>))))"

section \<open>Responses\<close>

record http_response =
  status :: nat
  content_type :: string
  body :: json

datatype http_result = Response http_response | ConnectionClosed | ProcessExit

definition contentTypeV1_1 :: string where
  "contentTypeV1_1 = ''application/vnd.docker.plugins.v1.1+json''"

definition badRequestResponse :: http_response where
  "badRequestResponse = \<lparr>status = 400, content_type = contentTypeV1_1,
     body = JObj [(''Err'', JString ''Failed to decode request'')]\<rparr>"

definition errorResponse :: "goerr \<Rightarrow> http_response" where
  "errorResponse err = \<lparr>status = 500, content_type = contentTypeV1_1,
     body = JObj [(''Err'', JString (errText err))]\<rparr>"

definition objectResponse :: "json \<Rightarrow> http_response" where
  "objectResponse obj = \<lparr>status = 200, content_type = contentTypeV1_1, body = obj\<rparr>"

definition successResponse :: http_response where
  "successResponse = \<lparr>status = 200, content_type = contentTypeV1_1, body = JObj []\<rparr>"

definition marshalJoinResponse :: "JoinResponse \<Rightarrow> json" where
  "marshalJoinResponse r = JObj [(''Gateway'', JString (js_Gateway r)),
     (''InterfaceName'', JObj [(''SrcName'', JString (js_SrcName r)),
        (''DstPrefix'', JString (js_DstPrefix r))]),
     (''StaticRoutes'', JNull)]"

definition marshalInfoResponse :: "(string, string) gomap \<Rightarrow> json" where
  "marshalInfoResponse v = JObj [(''Value'', JObj (map (\<lambda>(k, x). (k, JString x)) v))]"

section \<open>The handler\<close>

record 's driver_ops =
  drvCreateNetwork :: "CreateNetworkRequest \<Rightarrow> ('s, unit) gom"
  drvDeleteNetwork :: "string \<Rightarrow> ('s, unit) gom"
  drvCreateEndpoint :: "EndpointRequest \<Rightarrow> ('s, unit) gom"
  drvDeleteEndpoint :: "EndpointRequest \<Rightarrow> ('s, unit) gom"
  drvEndpointInfo :: "EndpointRequest \<Rightarrow> ('s, (string, string) gomap) gom"
  drvJoin :: "JoinRequest \<Rightarrow> ('s, JoinResponse) gom"
  drvLeave :: "LeaveRequest \<Rightarrow> ('s, unit) gom"

text \<open>
  The body of one \<open>HandleFunc\<close>: decode, call the driver, answer. An undecodable body
  (\<open>None\<close>) and a body of the wrong shape are a bad request.
\<close>

definition handle ::
    "(json \<Rightarrow> 'r go) \<Rightarrow> ('r \<Rightarrow> ('s, 'a) gom) \<Rightarrow> ('a \<Rightarrow> http_response) \<Rightarrow> json option \<Rightarrow> 's \<Rightarrow>
     http_result \<times> 's" where
  "handle dec call answer j s =
     (case (case j of None \<Rightarrow> decodeError | Some v \<Rightarrow> dec v) of
        Ok req \<Rightarrow>
          (case call req s of
             (Ok a, s') \<Rightarrow> (Response (answer a), s')
           | (Err e, s') \<Rightarrow> (Response (errorResponse e), s')
           | (Panic _, s') \<Rightarrow> (ConnectionClosed, s')
           | (Fatal _, s') \<Rightarrow> (ProcessExit, s'))
      | _ \<Rightarrow> (Response badRequestResponse, s))"

definition activatePath :: string where [option_keys]:
  "activatePath = ''/Plugin.Activate''"
definition capabilitiesPath :: string where [option_keys]:
  "capabilitiesPath = ''/NetworkDriver.GetCapabilities''"
definition createNetworkPath :: string where [option_keys]:
  "createNetworkPath = ''/NetworkDriver.CreateNetwork''"
definition deleteNetworkPath :: string where [option_keys]:
  "deleteNetworkPath = ''/NetworkDriver.DeleteNetwork''"
definition createEndpointPath :: string where [option_keys]:
  "createEndpointPath = ''/NetworkDriver.CreateEndpoint''"
definition endpointInfoPath :: string where [option_keys]:
  "endpointInfoPath = ''/NetworkDriver.EndpointOperInfo''"
definition deleteEndpointPath :: string where [option_keys]:
  "deleteEndpointPath = ''/NetworkDriver.DeleteEndpoint''"
definition joinPath :: string where [option_keys]:
  "joinPath = ''/NetworkDriver.Join''"
definition leavePath :: string where [option_keys]:
  "leavePath = ''/NetworkDriver.Leave''"

definition notFound :: http_response where
  "notFound = \<lparr>status = 404, content_type = ''text/plain; charset=utf-8'', body = JString ''404 page not found''\<rparr>"

text \<open>The table that \<open>initMux\<close> fills, as the multiplexer reads it.\<close>

definition serveHTTP :: "'s driver_ops \<Rightarrow> string \<Rightarrow> json option \<Rightarrow> 's \<Rightarrow> http_result \<times> 's" where
  "serveHTTP d path j s =
     (if path = activatePath then
        (Response \<lparr>status = 200, content_type = contentTypeV1_1,
           body = JObj [(''Implements'', JArr [JString ''NetworkDriver''])]\<rparr>, s)
      else if path = capabilitiesPath then
        (Response \<lparr>status = 200, content_type = ''text/plain; charset=utf-8'',
           body = JObj [(''Scope'', JString ''local'')]\<rparr>, s)
      else if path = createNetworkPath then
        handle decodeCreateNetwork (drvCreateNetwork d) (\<lambda>_. successResponse) j s
      else if path = deleteNetworkPath then
        handle decodeDeleteNetwork (drvDeleteNetwork d) (\<lambda>_. successResponse) j s
      else if path = createEndpointPath then
        handle decodeCreateEndpoint (drvCreateEndpoint d) (\<lambda>_. successResponse) j s
      else if path = deleteEndpointPath then
        handle decodeDeleteEndpoint (drvDeleteEndpoint d) (\<lambda>_. successResponse) j s
      else if path = endpointInfoPath then
        handle decodeInfo (drvEndpointInfo d) (\<lambda>v. objectResponse (marshalInfoResponse v)) j s
      else if path = joinPath then
        handle decodeJoin (drvJoin d) (\<lambda>r. objectResponse (marshalJoinResponse r)) j s
      else if path = leavePath then
        handle decodeLeave (drvLeave d) (\<lambda>_. successResponse) j s
      else (Response notFound, s))"

definition ovs_driver :: "('w, 'z) env_scheme \<Rightarrow> 'w plugin driver_ops" where
  "ovs_driver env = \<lparr>drvCreateNetwork = CreateNetwork env, drvDeleteNetwork = DeleteNetwork env,
     drvCreateEndpoint = (\<lambda>_. CreateEndpoint), drvDeleteEndpoint = (\<lambda>_. DeleteEndpoint),
     drvEndpointInfo = (\<lambda>_. EndpointInfo), drvJoin = Join env, drvLeave = Leave env\<rparr>"

section \<open>The driver interface\<close>

text \<open>
  What the handler may rely on: whatever a request that it can decode does, the driver's
  invariant survives.
\<close>

locale network_driver =
  fixes d :: "'s driver_ops" and inv :: "'s \<Rightarrow> bool"
  assumes create_network: "decodeCreateNetwork j = Ok r \<Longrightarrow> keepsG inv (drvCreateNetwork d r)"
    and delete_network: "keepsG inv (drvDeleteNetwork d i)"
    and create_endpoint: "keepsG inv (drvCreateEndpoint d e)"
    and delete_endpoint: "keepsG inv (drvDeleteEndpoint d e)"
    and endpoint_info: "keepsG inv (drvEndpointInfo d e)"
    and join: "keepsG inv (drvJoin d jr)"
    and leave: "keepsG inv (drvLeave d lr)"
begin

lemma handle_inv:
  assumes "\<And>v r. dec v = Ok r \<Longrightarrow> keepsG inv (call r)" "inv s"
  shows "inv (snd (handle dec call answer j s))"
proof (cases "case j of None \<Rightarrow> decodeError | Some v \<Rightarrow> dec v")
  case (Ok req)
  then obtain v where "dec v = Ok req" by (auto simp: decodeError_def split: option.splits)
  then have "keepsG inv (call req)" by (rule assms(1))
  from this assms(2) have "inv (snd (call req s))" by (rule keepsG_D)
  with Ok show ?thesis
    by (cases "call req s"; cases "fst (call req s)") (auto simp: handle_def)
qed (use assms(2) in \<open>auto simp: handle_def\<close>)

lemma serveHTTP_inv:
  assumes "inv s"
  shows "inv (snd (serveHTTP d path j s))"
proof -
  note handled = handle_inv [OF _ assms]
  have "inv (snd (handle decodeCreateNetwork (drvCreateNetwork d) a j s))" for a
    by (rule handled) (rule create_network)
  moreover have "inv (snd (handle decodeDeleteNetwork (drvDeleteNetwork d) a j s))" for a
    by (rule handled) (rule delete_network)
  moreover have "inv (snd (handle decodeCreateEndpoint (drvCreateEndpoint d) a j s))" for a
    by (rule handled) (rule create_endpoint)
  moreover have "inv (snd (handle decodeDeleteEndpoint (drvDeleteEndpoint d) a j s))" for a
    by (rule handled) (rule delete_endpoint)
  moreover have "inv (snd (handle decodeInfo (drvEndpointInfo d) a j s))" for a
    by (rule handled) (rule endpoint_info)
  moreover have "inv (snd (handle decodeJoin (drvJoin d) a j s))" for a
    by (rule handled) (rule join)
  moreover have "inv (snd (handle decodeLeave (drvLeave d) a j s))" for a
    by (rule handled) (rule leave)
  ultimately show ?thesis using assms by (simp add: serveHTTP_def)
qed

end

section \<open>Requests that come over HTTP\<close>

text \<open>An option of a decoded request is a decoded JSON value; in particular never an \<open>int\<close>.\<close>

lemma lookup_unmarshal_object:
  "go_lookup (go_of_list (map (\<lambda>(k, j). (k, unmarshal_any j)) kvs)) k = Some v \<Longrightarrow> \<exists>j. v = unmarshal_any j"
  by (auto simp: go_of_list_def go_lookup_fold_update map_add_def split: option.splits dest!: map_of_SomeD)

lemma decOptions_entry:
  "decOptions j = Ok (Some m) \<Longrightarrow> go_lookup m k = Some v \<Longrightarrow> \<exists>j'. v = unmarshal_any j'"
  by (auto simp: decOptions_def decodeError_def dest: lookup_unmarshal_object
      split: option.splits json.splits)

lemma decoded_requestOption:
  assumes "decodeCreateNetwork j = Ok r" "requestOption r k = Some v"
  shows "\<exists>j'. v = unmarshal_any j'"
proof -
  from assms(1) have "decOptions (jsonMember j ''Options'') = Ok (cn_Options r)"
    by (auto simp: decodeCreateNetwork_def decodeError_def bind_go_Ok_iff split: if_splits)
  with assms(2) show ?thesis
    by (auto simp: requestOption_def dest: decOptions_entry split: option.splits)
qed

lemma decoded_MTU:
  assumes "decodeCreateNetwork j = Ok r"
  shows "getBridgeMTU r = Ok 1500"
proof (cases "requestOption r mtuOption")
  case (Some v)
  with assms obtain j' where "v = unmarshal_any j'" using decoded_requestOption by blast
  with Some show ?thesis by (cases j') (simp_all add: getBridgeMTU_def)
qed (simp add: getBridgeMTU_def)

definition default_MTU :: "'w plugin \<Rightarrow> bool" where
  "default_MTU s \<longleftrightarrow> (\<forall>i ns. go_lookup (networks s) i = Some ns \<longrightarrow> MTU ns = 1500)"

definition networks_served :: "'w plugin \<Rightarrow> bool" where
  "networks_served s \<longleftrightarrow> networks_valid s \<and> default_MTU s"

lemma CreateNetwork_default_MTU:
  assumes "decodeCreateNetwork j = Ok r"
  shows "keepsG default_MTU (CreateNetwork env r)"
  unfolding keepsG_def
proof (intro allI impI)
  fix s :: "'a plugin" assume inv: "default_MTU s"
  obtain res s' where c: "CreateNetwork env r s = (res, s')" by fastforce
  then show "default_MTU (snd (CreateNetwork env r s))"
  proof (cases rule: CreateNetwork_cases)
    case (accepted ns s1 s2)
    have "MTU ns = 1500"
      using readRequest_Ok(6) [OF accepted(1)] decoded_MTU [OF assms] by simp
    with accepted show ?thesis using inv c
      by (auto simp: default_MTU_def split: if_splits)
  qed (use inv c in \<open>auto simp: default_MTU_def\<close>)
qed

lemma DeleteNetwork_default_MTU: "keepsG default_MTU (DeleteNetwork env i)"
proof -
  have "keepsG (\<lambda>s. P (networks s)) (bindG (getBridgeNameByNetworkId env i) (deleteBridge env))" for P
    by (rule keepsG_networks) (intro keeps_intros)
  from this [of "\<lambda>n. \<forall>i ns. go_lookup n i = Some ns \<longrightarrow> MTU ns = 1500"]
  show ?thesis unfolding keepsG_def default_MTU_def
    by (auto simp: DeleteNetwork_phases split: go.splits prod.splits if_splits)
qed

lemma keepsG_conj: "keepsG I m \<Longrightarrow> keepsG J m \<Longrightarrow> keepsG (\<lambda>s. I s \<and> J s) m"
  by (simp add: keepsG_def)

lemma networks_served_keeps:
  assumes "\<And>s0. keepsG (only_world s0) m"
  shows "keepsG networks_served m"
  using only_world_snd [OF assms] by (simp add: keepsG_def networks_served_def networks_valid_def default_MTU_def)

interpretation ovs_drv: network_driver "ovs_driver env" networks_served
proof unfold_locales
  show "keepsG networks_served (drvCreateNetwork (ovs_driver env) r)" if "decodeCreateNetwork j = Ok r" for j r
    using keepsG_conj [OF CreateNetwork_keeps CreateNetwork_default_MTU [OF that]]
    by (simp add: ovs_driver_def networks_served_def [abs_def])
  show "keepsG networks_served (drvDeleteNetwork (ovs_driver env) i)" for i
    using keepsG_conj [OF DeleteNetwork_keeps DeleteNetwork_default_MTU]
    by (simp add: ovs_driver_def networks_served_def [abs_def])
qed (auto simp: ovs_driver_def CreateEndpoint_def DeleteEndpoint_def EndpointInfo_def
    intro!: networks_served_keeps keeps_intros)

section \<open>The life of the plugin\<close>

text \<open>
  What can happen to the process once it serves: a request of the Docker daemon (unless it ends
  the process), a notification of the database, and anything outside.
\<close>

inductive plugin_step :: "('w, 'z) env_scheme \<Rightarrow> 'w plugin \<Rightarrow> 'w plugin \<Rightarrow> bool"
  for env :: "('w, 'z) env_scheme" where
  request: "serveHTTP (ovs_driver env) path j s = (res, s') \<Longrightarrow> res \<noteq> ProcessExit \<Longrightarrow> plugin_step env s s'"
| notification: "update_notification params = Ok us \<Longrightarrow> notifierUpdate env us s = (Ok (), s') \<Longrightarrow>
    plugin_step env s s'"
| outside: "plugin_step env s (s\<lparr>world := w\<rparr>)"

inductive plugin_reachable :: "('w, 'z) env_scheme \<Rightarrow> 'w plugin \<Rightarrow> bool"
  for env :: "('w, 'z) env_scheme" where
  start: "NewDriver env batches s0 = Some (Ok (), s) \<Longrightarrow> plugin_reachable env s"
| step: "plugin_reachable env s \<Longrightarrow> plugin_step env s s' \<Longrightarrow> plugin_reachable env s'"

lemma networks_notifierUpdate: "networks (snd (notifierUpdate env us s)) = networks s"
proof -
  let ?s = "s\<lparr>ovsdbCache := populateCache us (ovsdbCache s)\<rparr>"
  have "networks (snd (monitorUpdate env us ?s)) = networks ?s"
    by (rule only_world_snd) (rule keepsG_monitorUpdate)
  then show ?thesis by (simp add: notifierUpdate_def cacheUpdates_def bindG_def tryG_def modifyG_def)
qed

lemma networks_populateContextCache: "populateContextCache s = (r, t) \<Longrightarrow> networks t = networks s"
  by (auto simp: populateContextCache_def split: go.splits if_splits)

lemma networks_initDBCache:
  assumes "initDBCache env batches s = Some (Ok (), s')"
  shows "networks s' = networks s"
proof -
  obtain t where t: "fillCaches env s = (Ok (), t)" "networks s' = networks t"
    using assms by (auto simp: initDBCache_def split: prod.splits go.splits)
  from t(1) have "networks t = networks s"
    by (auto simp: fillCaches_def bindG_Ok_iff modifyG_def cacheUpdates_def tryG_def retG_def onWorld_def
        liftG_def dest!: networks_populateContextCache split: option.splits go.splits)
  with t(2) show ?thesis by simp
qed

lemma networks_NewDriver: "NewDriver env batches s0 = Some (Ok (), s) \<Longrightarrow> networks s = []"
  by (auto simp: NewDriver_def dest: networks_initDBCache split: prod.splits go.splits)

lemma networks_served_step: "plugin_step env s s' \<Longrightarrow> networks_served s \<Longrightarrow> networks_served s'"
proof (induction rule: plugin_step.induct)
  case (request path j s res s')
  then show ?case using ovs_drv.serveHTTP_inv [of s env path j] by simp
next
  case (notification params us s s')
  then have "networks s' = networks s" using networks_notifierUpdate [of env us s] by simp
  with notification show ?case by (simp add: networks_served_def networks_valid_def default_MTU_def)
qed (simp add: networks_served_def networks_valid_def default_MTU_def)

lemma networks_served_reachable: "plugin_reachable env s \<Longrightarrow> networks_served s"
proof (induction rule: plugin_reachable.induct)
  case (start batches s0 s)
  then show ?case
    by (simp add: networks_served_def networks_valid_def default_MTU_def wf_gomap_def networks_NewDriver)
qed (rule networks_served_step)

lemma handle_Response:
  assumes "handle dec call answer j s = (Response p, s')"
  shows "p = badRequestResponse \<and> s' = s \<or> (\<exists>e. p = errorResponse e) \<or>
    (\<exists>v req a. j = Some v \<and> dec v = Ok req \<and> call req s = (Ok a, s') \<and> p = answer a)"
  using assms by (auto simp: handle_def decodeError_def split: option.splits go.splits prod.splits)

lemma handle_status:
  assumes "handle dec call answer j s = (Response p, s')" "\<And>a. status (answer a) = 200"
  shows "status p \<in> {200, 400, 500} \<and> (status p = 400 \<longrightarrow> s' = s)"
  using handle_Response [OF assms(1)] assms(2)
  by (auto simp: badRequestResponse_def errorResponse_def)

lemma answers_200 [simp]: "status successResponse = 200" "status (objectResponse j) = 200"
  by (simp_all add: successResponse_def objectResponse_def)

text \<open>A process of the scripted world before it has connected to its server.\<close>

definition lab_boot :: "lab plugin" where
  "lab_boot = lab_state lab_full (lab_world
     [Ok (JArr [JString ''Open_vSwitch'']),
      Ok (JObj [(''name'', JString ''Open_vSwitch''),
        (''tables'', JObj [(''Port'', JObj [(''columns'', JObj [])])])]),
      Ok (JObj [(''Open_vSwitch'', JObj [(''c0ffee'', JObj [(''new'', JObj [])])])]), lab_rows]
     [''ovsbr-28174''])"

definition lab_body :: json where
  "lab_body = JObj [(''NetworkID'', JString ''281746a33da5c97b''),
     (''Options'', JObj [(''linker.net.ovs.bridge.mtu'', JNum ''9000'')]),
     (''IPv4Data'', JArr [JObj [(''Gateway'', JString ''10.1.0.1/24'')]])]"

definition lab_booted :: "lab plugin" where
  "lab_booted = (case NewDriver lab_env [] lab_boot of Some (_, s) \<Rightarrow> s | None \<Rightarrow> lab_boot)"

definition lab_served :: "lab plugin" where
  "lab_served = snd (serveHTTP (ovs_driver lab_env) createNetworkPath (Some lab_body) lab_booted)"

section \<open>Properties\<close>

text \<open>C1. In every state that the plugin can reach, through any requests, notifications and
  changes of the world, each network of the driver's table has a valid mode, a gateway and a
  mask, a network name if it is a gateway network, and the MTU 1500.\<close>

theorem reachable_networks_valid:
  assumes "plugin_reachable env s" "go_lookup (networks s) i = Some ns"
  shows "valid_network ns \<and> MTU ns = 1500 \<and> wf_gomap (networks s)"
  using networks_served_reachable [OF assms(1)] assms(2)
  by (auto simp: networks_served_def networks_valid_def default_MTU_def)

theorem reachable_networks_valid_witness:
  "\<exists>ns. go_lookup (networks lab_served) ''281746a33da5c97b'' = Some ns \<and> valid_network ns \<and> MTU ns = 1500"
proof -
  have "fst (the (NewDriver lab_env [] lab_boot)) = Ok ()" "NewDriver lab_env [] lab_boot \<noteq> None"
    by code_simp+
  then have "NewDriver lab_env [] lab_boot = Some (Ok (), lab_booted)"
    by (auto simp: lab_booted_def)
  then have "plugin_reachable lab_env lab_booted" by (rule plugin_reachable.start)
  moreover have "plugin_step lab_env lab_booted lab_served"
  proof (rule plugin_step.request)
    show "serveHTTP (ovs_driver lab_env) createNetworkPath (Some lab_body) lab_booted =
        (fst (serveHTTP (ovs_driver lab_env) createNetworkPath (Some lab_body) lab_booted), lab_served)"
      by (simp add: lab_served_def)
    show "fst (serveHTTP (ovs_driver lab_env) createNetworkPath (Some lab_body) lab_booted) \<noteq> ProcessExit"
      by code_simp
  qed
  ultimately have "plugin_reachable lab_env lab_served" by (rule plugin_reachable.step)
  moreover have "go_lookup (networks lab_served) ''281746a33da5c97b'' \<noteq> None" by code_simp
  ultimately show ?thesis using reachable_networks_valid by blast
qed

text \<open>The MTU option of a request that arrives over HTTP is never used, whatever number it
  holds: a JSON number is decoded to a float64, and the option is asserted to be an int.\<close>

lemma mtu_option_ignored:
  assumes "decodeCreateNetwork v = Ok r"
  shows "getBridgeMTU r = Ok 1500"
  using assms by (rule decoded_MTU)

text \<open>Every response has one of four statuses, and a request that is answered with 400 or
  404 has changed nothing, neither in the process nor outside.\<close>

lemma serveHTTP_statuses:
  assumes "serveHTTP (ovs_driver env) path j s = (Response p, s')"
  shows "status p \<in> {200, 400, 404, 500} \<and> (status p = 400 \<or> status p = 404 \<longrightarrow> s' = s)"
  using assms unfolding serveHTTP_def
  by (auto simp: notFound_def dest!: handle_status split: if_splits)

text \<open>C8. A CreateNetwork request that is answered with status 200 was decoded, its network was
  valid, and the table now holds it under its ID.\<close>

theorem create_network_answered:
  assumes "serveHTTP (ovs_driver env) createNetworkPath (Some v) s = (Response p, s')" "status p = 200"
  shows "\<exists>r ns. decodeCreateNetwork v = Ok r \<and> readRequest r = Ok ns \<and> valid_network ns \<and>
    networks s' = go_update (cn_NetworkID r) ns (networks s)"
proof -
  have "createNetworkPath \<noteq> activatePath" "createNetworkPath \<noteq> capabilitiesPath"
    by (simp_all add: option_keys)
  with assms(1) have "handle decodeCreateNetwork (CreateNetwork env) (\<lambda>_. successResponse) (Some v) s = (Response p, s')"
    by (simp add: serveHTTP_def ovs_driver_def)
  from handle_Response [OF this] assms(2) obtain r where r: "decodeCreateNetwork v = Ok r"
    and c: "CreateNetwork env r s = (Ok (), s')"
    by (auto simp: badRequestResponse_def errorResponse_def)
  from c show ?thesis
  proof (cases rule: CreateNetwork_cases)
    case rejected
    then show ?thesis by (cases "readRequest r") simp_all
  qed (use r in auto)
qed

theorem create_network_answered_witness:
  "\<exists>p ns. fst (serveHTTP (ovs_driver lab_env) createNetworkPath (Some lab_body) lab_booted) = Response p \<and>
     status p = 200 \<and> networks lab_served = [(''281746a33da5c97b'', ns)]"
proof -
  let ?run = "serveHTTP (ovs_driver lab_env) createNetworkPath (Some lab_body) lab_booted"
  have run: "fst ?run = Response successResponse" by code_simp
  have empty: "networks lab_booted = []" by code_simp
  have ident: "map_go_res cn_NetworkID (decodeCreateNetwork lab_body) = Ok ''281746a33da5c97b''" by code_simp
  from create_network_answered [OF fst_call [OF run]] obtain r ns where
    "decodeCreateNetwork lab_body = Ok r" "networks lab_served = go_update (cn_NetworkID r) ns []"
    by (auto simp: lab_served_def empty)
  with ident run show ?thesis by (auto simp: go_update_def)
qed

end
