(* ===== verification/User_Groups.thy ===== *)
theory User_Groups
  imports Go_Prelude
begin

text \<open>
  The lookup of users and groups in \<open>/etc/passwd\<close> and \<open>/etc/group\<close> by which the plugin finds
  the owner of its socket (\<open>runc/libcontainer/user/user.go\<close>). The readers are their contents;
  \<open>None\<close> is the nil reader.
\<close>

section \<open>Lines\<close>

text \<open>
  \<open>bufio.Scanner\<close> with its default split function: lines end at a newline, one carriage return
  before it is dropped, nothing follows the last newline. A line of 65536 bytes or more ends the
  scan; the parsers look at the scanner's error only while it still delivers lines, so they do
  not see it.
\<close>

definition dropCR :: "string \<Rightarrow> string" where
  "dropCR s = (if s \<noteq> [] \<and> last s = CHR 0x0D then butlast s else s)"

definition splitLines :: "string \<Rightarrow> string list" where
  "splitLines s = (let ls = splitOn (CHR 0x0A) s in if last ls = [] then butlast ls else ls)"

definition scanLines :: "string \<Rightarrow> string list" where
  "scanLines s = map dropCR (takeWhile (\<lambda>l. length l < 65536) (splitLines s))"

section \<open>Entries\<close>

record User =
  u_Name :: string
  u_Pass :: string
  u_Uid :: int
  u_Gid :: int
  u_Gecos :: string
  u_Home :: string
  u_Shell :: string

record Group =
  g_Name :: string
  g_Pass :: string
  g_Gid :: int
  g_List :: "string list"

text \<open>
  \<open>parseLine\<close> as its callers use it: field \<open>i\<close> of the line, if there is one, else the zero value.
  A number that cannot be converted is 0, or the nearest limit when it is out of range.
\<close>

definition lineField :: "string \<Rightarrow> nat \<Rightarrow> string option" where
  "lineField line i = (if line = '''' then None
     else let parts = splitOn (CHR '':'') line in if i < length parts then Some (parts ! i) else None)"

definition stringFieldOf :: "string \<Rightarrow> nat \<Rightarrow> string" where
  "stringFieldOf line i = (case lineField line i of None \<Rightarrow> '''' | Some p \<Rightarrow> p)"

definition atoiValue :: "string \<Rightarrow> int" where
  "atoiValue s = (case atoi s of
       Ok n \<Rightarrow> n
     | _ \<Rightarrow> (let ds = (if s \<noteq> [] \<and> hd s \<in> {CHR ''-'', CHR ''+''} then tl s else s)
             in if ds = [] \<or> \<not> list_all isDigit ds then 0
                else if hd s = CHR ''-'' then - (2 ^ 63) else 2 ^ 63 - 1))"

definition intField :: "string \<Rightarrow> nat \<Rightarrow> int" where
  "intField line i = (case lineField line i of None \<Rightarrow> 0 | Some p \<Rightarrow> atoiValue p)"

definition listField :: "string \<Rightarrow> nat \<Rightarrow> string list" where
  "listField line i = (case lineField line i of
       None \<Rightarrow> []
     | Some p \<Rightarrow> if p \<noteq> '''' then splitOn (CHR '','') p else [])"

definition parseUserLine :: "string \<Rightarrow> User" where
  "parseUserLine l = \<lparr>u_Name = stringFieldOf l 0, u_Pass = stringFieldOf l 1, u_Uid = intField l 2,
     u_Gid = intField l 3, u_Gecos = stringFieldOf l 4, u_Home = stringFieldOf l 5, u_Shell = stringFieldOf l 6\<rparr>"

definition parseGroupLine :: "string \<Rightarrow> Group" where
  "parseGroupLine l = \<lparr>g_Name = stringFieldOf l 0, g_Pass = stringFieldOf l 1, g_Gid = intField l 2,
     g_List = listField l 3\<rparr>"

definition ParsePasswdFilter :: "string option \<Rightarrow> (User \<Rightarrow> bool) \<Rightarrow> User list go" where
  "ParsePasswdFilter r keep = (case r of
       None \<Rightarrow> Err (ErrNew ''nil source for passwd-formatted data'')
     | Some s \<Rightarrow> Ok (filter keep (map parseUserLine (filter (\<lambda>t. t \<noteq> '''') (map trimSpace (scanLines s))))))"

definition ParseGroupFilter :: "string option \<Rightarrow> (Group \<Rightarrow> bool) \<Rightarrow> Group list go" where
  "ParseGroupFilter r keep = (case r of
       None \<Rightarrow> Err (ErrNew ''nil source for group-formatted data'')
     | Some s \<Rightarrow> Ok (filter keep (map parseGroupLine (filter (\<lambda>t. t \<noteq> '''') (scanLines s)))))"

definition ParsePasswd :: "string option \<Rightarrow> User list go" where
  "ParsePasswd r = ParsePasswdFilter r (\<lambda>_. True)"

definition ParseGroup :: "string option \<Rightarrow> Group list go" where
  "ParseGroup r = ParseGroupFilter r (\<lambda>_. True)"

section \<open>Users to run as\<close>

record ExecUser =
  x_Uid :: int
  x_Gid :: int
  x_Sgids :: "int list"
  x_Home :: string

definition minId :: int where "minId = 0"
definition maxId :: int where "maxId = 2 ^ 31 - 1"

definition ErrRange :: goerr where
  "ErrRange = Errorf ''Uids and gids must be in range %d-%d'' [EInt minId, EInt maxId]"

text \<open>A name that is not in the file may be a number in the legal range.\<close>

definition numericId :: "string \<Rightarrow> goerr \<Rightarrow> int go" where
  "numericId s notFound = (case atoi s of
       Ok n \<Rightarrow> if n < minId \<or> n > maxId then Err ErrRange else Ok n
     | _ \<Rightarrow> Err notFound)"

text \<open>\<open>GetExecUser\<close> up to the groups: the user, and the name it was found under (empty if it was not).\<close>

definition execUser :: "string \<Rightarrow> ExecUser \<Rightarrow> string option \<Rightarrow> (ExecUser \<times> string) go" where
  "execUser userArg user passwd =
     (let users = (case ParsePasswdFilter passwd (\<lambda>u. if userArg = '''' then u_Uid u = x_Uid user
                     else u_Name u = userArg \<or> itoa (u_Uid u) = userArg) of Ok us \<Rightarrow> us | _ \<Rightarrow> [])
      in case users of
           u # _ \<Rightarrow> Ok (user\<lparr>x_Uid := u_Uid u, x_Gid := u_Gid u, x_Home := u_Home u\<rparr>, u_Name u)
         | [] \<Rightarrow> if userArg \<noteq> '''' then
               bind_go (numericId userArg (Errorf ''Unable to find user %v'' [EStr userArg]))
                 (\<lambda>n. Ok (user\<lparr>x_Uid := n\<rparr>, ''''))
             else Ok (user, ''''))"

definition GetExecUser ::
    "string \<Rightarrow> ExecUser option \<Rightarrow> string option \<Rightarrow> string option \<Rightarrow> ExecUser go" where
  "GetExecUser userSpec defaults passwd grp =
     (let d = (case defaults of None \<Rightarrow> \<lparr>x_Uid = 0, x_Gid = 0, x_Sgids = [], x_Home = ''''\<rparr> | Some d \<Rightarrow> d);
          userArg = stringFieldOf userSpec 0; groupArg = stringFieldOf userSpec 1
      in bind_go (execUser userArg d passwd) (\<lambda>(user, name).
         if groupArg = '''' \<and> name = '''' then Ok user
         else let groups = (case ParseGroupFilter grp (\<lambda>g. if groupArg \<noteq> ''''
                    then g_Name g = groupArg \<or> itoa (g_Gid g) = groupArg else name \<in> set (g_List g))
                  of Ok gs \<Rightarrow> gs | _ \<Rightarrow> [])
           in if groupArg \<noteq> '''' then
                (case groups of
                   g # _ \<Rightarrow> Ok (user\<lparr>x_Gid := g_Gid g\<rparr>)
                 | [] \<Rightarrow> bind_go (numericId groupArg (Errorf ''Unable to find group %v'' [EStr groupArg]))
                     (\<lambda>n. Ok (user\<lparr>x_Gid := n\<rparr>)))
              else if groups \<noteq> [] then Ok (user\<lparr>x_Sgids := map g_Gid groups\<rparr>) else Ok user))"

section \<open>Additional groups\<close>

definition names_group :: "string \<Rightarrow> Group \<Rightarrow> bool" where
  "names_group ag g \<longleftrightarrow> g_Name g = ag \<or> itoa (g_Gid g) = ag"

text \<open>
  The loop over the requested groups. The set of identifiers is a list without repetitions. A
  group whose identifier is in the set already does not count as found.
\<close>

fun additionalGroups :: "Group list \<Rightarrow> string list \<Rightarrow> int list \<Rightarrow> int list go" where
  "additionalGroups groups [] gids = Ok gids"
| "additionalGroups groups (ag # ags) gids =
     (case List.find (\<lambda>g. names_group ag g \<and> g_Gid g \<notin> set gids) groups of
        Some g \<Rightarrow> additionalGroups groups ags (gids @ [g_Gid g])
      | None \<Rightarrow>
          bind_go (numericId ag (Errorf ''Unable to find group %s'' [EStr ag])) (\<lambda>n.
            additionalGroups groups ags (if n \<in> set gids then gids else gids @ [n])))"

definition GetAdditionalGroups :: "string list \<Rightarrow> string option \<Rightarrow> int list go" where
  "GetAdditionalGroups ags grp =
     bind_go (case grp of None \<Rightarrow> Ok []
        | Some _ \<Rightarrow> ParseGroupFilter grp (\<lambda>g. \<exists>ag \<in> set ags. names_group ag g))
       (\<lambda>groups. additionalGroups groups ags [])"

section \<open>Writing a group file\<close>

definition printGroup :: "Group \<Rightarrow> string" where
  "printGroup g = joinWith '':'' [g_Name g, g_Pass g, itoa (g_Gid g), joinWith '','' (g_List g)]"

definition clean :: "string \<Rightarrow> bool" where
  "clean s \<longleftrightarrow> set s \<inter> {CHR '':'', CHR '','', CHR 0x0A, CHR 0x0D} = {}"

definition wf_group :: "Group \<Rightarrow> bool" where
  "wf_group g \<longleftrightarrow> clean (g_Name g) \<and> clean (g_Pass g) \<and>
     - (2 ^ 63) \<le> g_Gid g \<and> g_Gid g \<le> 2 ^ 63 - 1 \<and>
     list_all (\<lambda>m. clean m \<and> m \<noteq> '''') (g_List g) \<and> length (printGroup g) < 65536"

definition groupFile :: "Group list \<Rightarrow> string" where
  "groupFile gs = concat (map (\<lambda>g. printGroup g @ [CHR 0x0A]) gs)"

lemma joinWith_empty: "joinWith sep ss = '''' \<Longrightarrow> list_all (\<lambda>m. m \<noteq> '''') ss \<Longrightarrow> ss = []"
  by (induction sep ss rule: joinWith.induct) auto

lemma members_clean:
  "list_all (\<lambda>m. clean m \<and> m \<noteq> '''') ms \<Longrightarrow> set (joinWith '','' ms) \<inter> {CHR '':'', CHR 0x0A, CHR 0x0D} = {}"
  using set_joinWith [of "'',''" ms] by (fastforce simp: clean_def list_all_iff)

lemma printGroup_split:
  assumes "wf_group g"
  shows "splitOn (CHR '':'') (printGroup g) = [g_Name g, g_Pass g, itoa (g_Gid g), joinWith '','' (g_List g)]"
  unfolding printGroup_def
  using assms itoa_clean [of "g_Gid g"] members_clean [of "g_List g"]
  by (intro splitOn_joinWith) (auto simp: wf_group_def clean_def)

lemma parseGroupLine_print:
  assumes "wf_group g"
  shows "parseGroupLine (printGroup g) = g"
proof -
  have ne: "printGroup g \<noteq> ''''" by (simp add: printGroup_def)
  have field: "lineField (printGroup g) i = Some ([g_Name g, g_Pass g, itoa (g_Gid g), joinWith '','' (g_List g)] ! i)"
    if "i < 4" for i
    using that ne printGroup_split [OF assms] by (simp add: lineField_def Let_def)
  have "atoi (itoa (g_Gid g)) = Ok (g_Gid g)"
    using assms by (intro atoi_itoa) (simp_all add: wf_group_def)
  moreover have "listField (printGroup g) 3 = g_List g"
  proof (cases "g_List g = []")
    case False
    then have "joinWith '','' (g_List g) \<noteq> ''''"
      using assms joinWith_empty [of "'',''" "g_List g"] by (auto simp: wf_group_def list_all_iff)
    moreover have "splitOn (CHR '','') (joinWith '','' (g_List g)) = g_List g"
      using False assms by (intro splitOn_joinWith) (auto simp: wf_group_def list_all_iff clean_def)
    ultimately show ?thesis using field [of 3] by (simp add: listField_def)
  qed (use field [of 3] in \<open>simp add: listField_def\<close>)
  ultimately show ?thesis
    using field [of 0] field [of 1] field [of 2]
    by (simp add: parseGroupLine_def stringFieldOf_def intField_def atoiValue_def)
qed

lemma printGroup_clean: "wf_group g \<Longrightarrow> CHR 0x0A \<notin> set (printGroup g) \<and> CHR 0x0D \<notin> set (printGroup g)"
  using itoa_clean [of "g_Gid g"] members_clean [of "g_List g"]
    set_joinWith [of "'':''" "[g_Name g, g_Pass g, itoa (g_Gid g), joinWith '','' (g_List g)]"]
  unfolding printGroup_def wf_group_def clean_def by fastforce

lemma splitOn_file:
  "list_all wf_group gs \<Longrightarrow> splitOn (CHR 0x0A) (groupFile gs) = map printGroup gs @ [[]]"
proof (induction gs)
  case (Cons g gs)
  then have "CHR 0x0A \<notin> set (printGroup g)" using printGroup_clean [of g] by simp
  then show ?case
    using Cons splitOn_append_sep [of "CHR 0x0A" "printGroup g" "groupFile gs"] by (simp add: groupFile_def)
qed (simp add: groupFile_def)

lemma dropCR_print: "wf_group g \<Longrightarrow> dropCR (printGroup g) = printGroup g"
  using printGroup_clean [of g] last_in_set [of "printGroup g"] unfolding dropCR_def by metis

lemma scanLines_file:
  assumes "list_all wf_group gs"
  shows "scanLines (groupFile gs) = map printGroup gs"
proof -
  have short: "takeWhile (\<lambda>l. length l < 65536) (map printGroup gs) = map printGroup gs"
    using assms by (auto simp: takeWhile_eq_all_conv list_all_iff wf_group_def)
  have "map dropCR (map printGroup gs) = map printGroup gs"
    using assms by (auto simp: list_all_iff dropCR_print)
  then show ?thesis
    by (simp add: scanLines_def splitLines_def Let_def splitOn_file [OF assms] short del: map_map)
qed

lemma ParseGroup_file:
  assumes "list_all wf_group gs"
  shows "ParseGroup (Some (groupFile gs)) = Ok gs"
proof -
  have "filter (\<lambda>t. t \<noteq> '''') (map printGroup gs) = map printGroup gs"
    by (auto simp: filter_id_conv printGroup_def)
  moreover have "map (parseGroupLine \<circ> printGroup) gs = gs"
    using assms by (intro map_idI) (auto simp: list_all_iff parseGroupLine_print)
  ultimately show ?thesis
    by (simp add: ParseGroup_def ParseGroupFilter_def scanLines_file [OF assms])
qed

end
