(* ===== verification/User_Lookup.thy ===== *)
theory User_Lookup
  imports User_Groups
begin

text \<open>
  The functions of \<open>runc/libcontainer/user\<close> that open \<open>/etc/passwd\<close> or \<open>/etc/group\<close> themselves
  (\<open>lookup.go\<close>, \<open>lookup_unix.go\<close> and the wrappers of \<open>user.go\<close>). \<open>os.Open\<close> is a parameter: it gives
  what can be read from the file. The deferred \<open>Close\<close> is left out.
\<close>

section \<open>Files\<close>

type_synonym 'w opener = "string \<Rightarrow> ('w, string) gom"

definition GetPasswdPath :: "string go" where
  "GetPasswdPath = Ok ''/etc/passwd''"

definition GetPasswd :: "'w opener \<Rightarrow> ('w, string) gom" where
  "GetPasswd open_file = open_file ''/etc/passwd''"

definition GetGroupPath :: "string go" where
  "GetGroupPath = Ok ''/etc/group''"

definition GetGroup :: "'w opener \<Rightarrow> ('w, string) gom" where
  "GetGroup open_file = open_file ''/etc/group''"

definition ParsePasswdFile :: "'w opener \<Rightarrow> string \<Rightarrow> ('w, User list) gom" where
  "ParsePasswdFile open_file path = bindG (open_file path) (\<lambda>f. liftG (ParsePasswd (Some f)))"

definition ParsePasswdFileFilter :: "'w opener \<Rightarrow> string \<Rightarrow> (User \<Rightarrow> bool) \<Rightarrow> ('w, User list) gom" where
  "ParsePasswdFileFilter open_file path keep = bindG (open_file path) (\<lambda>f. liftG (ParsePasswdFilter (Some f) keep))"

definition ParseGroupFile :: "'w opener \<Rightarrow> string \<Rightarrow> ('w, Group list) gom" where
  "ParseGroupFile open_file path = bindG (open_file path) (\<lambda>f. liftG (ParseGroup (Some f)))"

definition ParseGroupFileFilter :: "'w opener \<Rightarrow> string \<Rightarrow> (Group \<Rightarrow> bool) \<Rightarrow> ('w, Group list) gom" where
  "ParseGroupFileFilter open_file path keep = bindG (open_file path) (\<lambda>f. liftG (ParseGroupFilter (Some f) keep))"

text \<open>
  The two wrappers below go on when the file cannot be opened. They mean to pass a nil reader, but
  a nil \<open>*os.File\<close> in an \<open>io.Reader\<close> is not nil; every read from it fails, so it is like an empty
  file.
\<close>

definition openOrEmpty :: "'w opener \<Rightarrow> string \<Rightarrow> ('w, string option) gom" where
  "openOrEmpty open_file path = tryG (open_file path) (\<lambda>f. retG (Some f)) (\<lambda>_. retG (Some ''''))"

definition GetExecUserPath ::
    "'w opener \<Rightarrow> string \<Rightarrow> ExecUser option \<Rightarrow> string \<Rightarrow> string \<Rightarrow> ('w, ExecUser) gom" where
  "GetExecUserPath open_file userSpec defaults passwdPath groupPath =
     bindG (openOrEmpty open_file passwdPath) (\<lambda>passwd.
     bindG (openOrEmpty open_file groupPath) (\<lambda>grp.
     liftG (GetExecUser userSpec defaults passwd grp)))"

definition GetAdditionalGroupsPath :: "'w opener \<Rightarrow> string list \<Rightarrow> string \<Rightarrow> ('w, int list) gom" where
  "GetAdditionalGroupsPath open_file ags groupPath =
     bindG (openOrEmpty open_file groupPath) (\<lambda>grp. liftG (GetAdditionalGroups ags grp))"

section \<open>Single entries\<close>

definition lookupUser :: "'w opener \<Rightarrow> (User \<Rightarrow> bool) \<Rightarrow> ('w, User) gom" where
  "lookupUser open_file keep =
     bindG (GetPasswd open_file) (\<lambda>passwd.
     bindG (liftG (ParsePasswdFilter (Some passwd) keep)) (\<lambda>users.
     case users of [] \<Rightarrow> failG (ErrNew ''no matching entries in passwd file'') | u # _ \<Rightarrow> retG u))"

definition LookupUser :: "'w opener \<Rightarrow> string \<Rightarrow> ('w, User) gom" where
  "LookupUser open_file username = lookupUser open_file (\<lambda>u. u_Name u = username)"

definition LookupUid :: "'w opener \<Rightarrow> int \<Rightarrow> ('w, User) gom" where
  "LookupUid open_file uid = lookupUser open_file (\<lambda>u. u_Uid u = uid)"

definition CurrentUser :: "'w opener \<Rightarrow> int \<Rightarrow> ('w, User) gom" where
  "CurrentUser open_file getuid = LookupUid open_file getuid"

definition lookupGroup :: "'w opener \<Rightarrow> (Group \<Rightarrow> bool) \<Rightarrow> ('w, Group) gom" where
  "lookupGroup open_file keep =
     bindG (GetGroup open_file) (\<lambda>grp.
     bindG (liftG (ParseGroupFilter (Some grp) keep)) (\<lambda>groups.
     case groups of [] \<Rightarrow> failG (ErrNew ''no matching entries in group file'') | g # _ \<Rightarrow> retG g))"

definition LookupGroup :: "'w opener \<Rightarrow> string \<Rightarrow> ('w, Group) gom" where
  "LookupGroup open_file groupname = lookupGroup open_file (\<lambda>g. g_Name g = groupname)"

definition LookupGid :: "'w opener \<Rightarrow> int \<Rightarrow> ('w, Group) gom" where
  "LookupGid open_file gid = lookupGroup open_file (\<lambda>g. g_Gid g = gid)"

definition CurrentGroup :: "'w opener \<Rightarrow> int \<Rightarrow> ('w, Group) gom" where
  "CurrentGroup open_file getgid = LookupGid open_file getgid"

section \<open>Lookups in a group file\<close>

lemma filter_file:
  assumes "list_all wf_group gs"
  shows "ParseGroupFilter (Some (groupFile gs)) keep = Ok (filter keep gs)"
  using ParseGroup_file [OF assms]
  by (simp add: ParseGroup_def ParseGroupFilter_def flip: filter_filter)

lemma lookupGroup_file:
  assumes "open_file ''/etc/group'' w = (Ok (groupFile gs), w')" "list_all wf_group gs"
  shows "lookupGroup open_file keep w = (case List.find keep gs of
      Some g \<Rightarrow> Ok g | None \<Rightarrow> Err (ErrNew ''no matching entries in group file''), w')"
proof -
  have "(case filter keep gs of [] \<Rightarrow> failG e | g # _ \<Rightarrow> retG g) w' =
      (case List.find keep gs of Some g \<Rightarrow> Ok g | None \<Rightarrow> Err e, w')" for e
    by (induction gs) (auto simp: failG_def retG_def)
  then show ?thesis
    using assms(1) filter_file [OF assms(2), of keep]
    by (simp add: lookupGroup_def GetGroup_def liftG_def)
qed

end
