(* ===== verification/Plugin_Server.thy ===== *)
theory Plugin_Server
  imports Dknet_Handler User_Lookup
begin

text \<open>
  How the plugin is started and listens: \<open>main.go\<close> (with \<open>ovs/logging.go\<close>), \<open>dknet/unix_listener.go\<close>,
  \<open>dknet/tcp_listener.go\<close>, \<open>listenAndServe\<close> of \<open>dknet/api.go\<close>, and below them
  \<open>docker/pkg/sockets\<close> and \<open>docker/pkg/listenbuffer\<close>. The system calls are parameters (\<open>os_env\<close>).
  \<open>Accept\<close> delivers the next request; the handlers of requests that arrive at the same time run in
  the order in which they are delivered.
\<close>

section \<open>Paths\<close>

text \<open>\<open>filepath.Clean\<close>, \<open>filepath.Join\<close> and \<open>filepath.IsAbs\<close>.\<close>

fun cleanElems :: "bool \<Rightarrow> string list \<Rightarrow> string list \<Rightarrow> string list" where
  "cleanElems rooted done_rev [] = rev done_rev"
| "cleanElems rooted done_rev (e # es) =
     (if e = '''' \<or> e = ''.'' then cleanElems rooted done_rev es
      else if e = ''..'' then
        (case done_rev of
           [] \<Rightarrow> cleanElems rooted (if rooted then [] else [''..'']) es
         | d # ds \<Rightarrow> cleanElems rooted (if d = ''..'' then ''..'' # done_rev else ds) es)
      else cleanElems rooted (e # done_rev) es)"

definition filepathClean :: "string \<Rightarrow> string" where
  "filepathClean p =
     (let rooted = hasPrefix p ''/''; t = joinWith ''/'' (cleanElems rooted [] (splitOn (CHR ''/'') p))
      in if rooted then ''/'' @ t else if t = '''' then ''.'' else t)"

definition filepathJoin :: "string list \<Rightarrow> string" where
  "filepathJoin elems = (case dropWhile (\<lambda>e. e = '''') elems of [] \<Rightarrow> '''' | es \<Rightarrow> filepathClean (joinWith ''/'' es))"

section \<open>The operating system\<close>

record 'w os_env =
  os_Open :: "string \<Rightarrow> ('w, string) gom"
  os_MkdirAll :: "string \<Rightarrow> nat \<Rightarrow> ('w, unit) gom"
  os_WriteFile :: "string \<Rightarrow> string \<Rightarrow> nat \<Rightarrow> ('w, unit) gom"
  os_Unlink :: "string \<Rightarrow> ('w, unit) gom"
  os_Umask :: "nat \<Rightarrow> 'w \<Rightarrow> nat \<times> 'w"
  os_Listen :: "string \<Rightarrow> string \<Rightarrow> ('w, nat) gom"
  os_Addr :: "nat \<Rightarrow> 'w \<Rightarrow> string"
  os_CloseListener :: "nat \<Rightarrow> ('w, unit) gom"
  os_AcceptRequest :: "nat \<Rightarrow> ('w, string \<times> json option) gom"
  os_Chown :: "string \<Rightarrow> int \<Rightarrow> int \<Rightarrow> ('w, unit) gom"
  os_Chmod :: "string \<Rightarrow> nat \<Rightarrow> ('w, unit) gom"
  os_RemoveFile :: "string \<Rightarrow> ('w, unit) gom"

text \<open>\<open>os.IsNotExist\<close> on the error of a system call: \<open>ENOENT\<close>.\<close>

definition isNotExist :: "goerr \<Rightarrow> bool" where
  "isNotExist e \<longleftrightarrow> e = Errno 2"

section \<open>Sockets\<close>

text \<open>\<open>defaultListener\<close>; its channel \<open>activate\<close> is an argument of \<open>Accept\<close>: whether it is closed.\<close>

record listener =
  ln_wrapped :: nat
  ln_ready :: bool

definition NewListenBuffer :: "('w, 'z) os_env_scheme \<Rightarrow> string \<Rightarrow> string \<Rightarrow> ('w, listener) gom" where
  "NewListenBuffer E proto addr = bindG (os_Listen E proto addr) (\<lambda>n. retG \<lparr>ln_wrapped = n, ln_ready = False\<rparr>)"

function Accept ::
    "('w, 'z) os_env_scheme \<Rightarrow> bool \<Rightarrow> listener \<Rightarrow> 'w \<Rightarrow> ((string \<times> json option) go \<times> listener \<times> 'w) option" where
  "Accept E closed l w =
     (if ln_ready l then (case os_AcceptRequest E (ln_wrapped l) w of (r, w') \<Rightarrow> Some (r, l, w'))
      else if closed then Accept E closed (l\<lparr>ln_ready := True\<rparr>) w
      else None)"
  by auto
termination
  by (relation "measure (\<lambda>(_, _, l, _). if ln_ready l then 0 else 1)") auto

declare Accept.simps [simp del]

definition lookupGidByName :: "('w, 'z) os_env_scheme \<Rightarrow> string \<Rightarrow> ('w, int) gom" where
  "lookupGidByName E nameOrGid =
     bindG (liftG GetGroupPath) (\<lambda>groupFile.
     bindG (ParseGroupFileFilter (os_Open E) groupFile (\<lambda>g. g_Name g = nameOrGid \<or> itoa (g_Gid g) = nameOrGid)) (\<lambda>groups.
     case groups of
       g # _ \<Rightarrow> retG (g_Gid g)
     | [] \<Rightarrow> (case atoi nameOrGid of
           Ok gid \<Rightarrow> retG gid
         | _ \<Rightarrow> failG (Errorf ''Group %s not found'' [EStr nameOrGid]))))"

definition changeGroup :: "('w, 'z) os_env_scheme \<Rightarrow> string \<Rightarrow> string \<Rightarrow> ('w, unit) gom" where
  "changeGroup E path nameOrGid = bindG (lookupGidByName E nameOrGid) (\<lambda>gid. os_Chown E path 0 gid)"

definition setSocketGroup :: "('w, 'z) os_env_scheme \<Rightarrow> string \<Rightarrow> string \<Rightarrow> ('w, unit) gom" where
  "setSocketGroup E path grp = (if grp = '''' then retG ()
     else tryG (changeGroup E path grp) (\<lambda>_. retG ()) (\<lambda>err. if grp \<noteq> ''docker'' then failG err else retG ()))"

text \<open>A call that closes the listener when it fails, and the deferred restoration of the umask.\<close>

definition orClose :: "('w, 'z) os_env_scheme \<Rightarrow> listener \<Rightarrow> ('w, unit) gom \<Rightarrow> ('w, unit) gom" where
  "orClose E l m = tryG m retG (\<lambda>err. (\<lambda>w. failG err (snd (os_CloseListener E (ln_wrapped l) w))))"

definition withUmask :: "('w, 'z) os_env_scheme \<Rightarrow> nat \<Rightarrow> ('w, 'a) gom \<Rightarrow> ('w, 'a) gom" where
  "withUmask E m act w = (case os_Umask E m w of (old, w1) \<Rightarrow>
     (case act w1 of (r, w2) \<Rightarrow> (r, snd (os_Umask E old w2))))"

text \<open>The part of \<open>NewUnixSocket\<close> that runs under the changed umask.\<close>

definition bindSocket :: "('w, 'z) os_env_scheme \<Rightarrow> string \<Rightarrow> string \<Rightarrow> ('w, listener) gom" where
  "bindSocket E path grp =
     bindG (NewListenBuffer E ''unix'' path) (\<lambda>l.
     bindG (orClose E l (setSocketGroup E path grp)) (\<lambda>_.
     bindG (orClose E l (os_Chmod E path 432)) (\<lambda>_. retG l)))"

definition NewUnixSocket :: "('w, 'z) os_env_scheme \<Rightarrow> string \<Rightarrow> string \<Rightarrow> ('w, listener) gom" where
  "NewUnixSocket E path grp =
     bindG (tryG (os_Unlink E path) retG (\<lambda>err. if \<not> isNotExist err then failG err else retG ())) (\<lambda>_.
     withUmask E 511 (bindSocket E path grp))"

definition NewTCPSocket :: "('w, 'z) os_env_scheme \<Rightarrow> string \<Rightarrow> ('w, listener) gom" where
  "NewTCPSocket E addr = NewListenBuffer E ''tcp'' addr"

section \<open>Listeners of the plugin\<close>

definition pluginSockDir :: string where
  "pluginSockDir = ''/run/docker/plugins''"

definition pluginSpecDir :: string where
  "pluginSpecDir = ''/etc/docker/plugins''"

definition fullSocketAddress :: "('w, 'z) os_env_scheme \<Rightarrow> string \<Rightarrow> ('w, string) gom" where
  "fullSocketAddress E address = bindG (os_MkdirAll E pluginSockDir 493) (\<lambda>_.
     if hasPrefix address ''/'' then retG address else retG (filepathJoin [pluginSockDir, address @ ''.sock'']))"

definition newUnixListener :: "('w, 'z) os_env_scheme \<Rightarrow> string \<Rightarrow> string \<Rightarrow> ('w, listener \<times> string) gom" where
  "newUnixListener E volumeDriverName grp =
     bindG (fullSocketAddress E volumeDriverName) (\<lambda>path.
     bindG (NewUnixSocket E path grp) (\<lambda>l. retG (l, path)))"

definition writeSpec :: "('w, 'z) os_env_scheme \<Rightarrow> string \<Rightarrow> string \<Rightarrow> ('w, string) gom" where
  "writeSpec E name address = bindG (os_MkdirAll E pluginSpecDir 493) (\<lambda>_.
     let spec = filepathJoin [pluginSpecDir, name @ ''.spec''] in
     bindG (os_WriteFile E spec (''tcp://'' @ address) 420) (\<lambda>_. retG spec))"

definition newTCPListener :: "('w, 'z) os_env_scheme \<Rightarrow> string \<Rightarrow> string \<Rightarrow> ('w, listener \<times> string) gom" where
  "newTCPListener E volumeDriverName address =
     bindG (NewTCPSocket E address) (\<lambda>l.
     bindG (readG (os_Addr E (ln_wrapped l))) (\<lambda>a.
     bindG (writeSpec E volumeDriverName a) (\<lambda>spec. retG (l, spec))))"

section \<open>Serving\<close>

text \<open>
  \<open>http.Server.Serve\<close>: accept and serve until accepting fails. The responses are collected.
  A loop that waits for ever is \<open>None\<close>.
\<close>

type_synonym 'w served = "http_result list \<times> unit go \<times> 'w plugin"

partial_function (option) Serve ::
    "('w, 'z) os_env_scheme \<Rightarrow> 'w plugin driver_ops \<Rightarrow> bool \<Rightarrow> listener \<Rightarrow> http_result list \<Rightarrow> 'w plugin \<Rightarrow> 'w served option" where
  [code]: "Serve E d closed l out s = (case Accept E closed l (world s) of
       None \<Rightarrow> None
     | Some (Ok (path, j), l', w) \<Rightarrow> (case serveHTTP d path j (s\<lparr>world := w\<rparr>) of
           (ProcessExit, s') \<Rightarrow> Some (out @ [ProcessExit], Fatal '''', s')
         | (res, s') \<Rightarrow> Serve E d closed l' (out @ [res]) s')
     | Some (Err e, _, w) \<Rightarrow> Some (out, Err e, s\<lparr>world := w\<rparr>)
     | Some (Panic p, _, w) \<Rightarrow> Some (out, Panic p, s\<lparr>world := w\<rparr>)
     | Some (Fatal t, _, w) \<Rightarrow> Some (out, Fatal t, s\<lparr>world := w\<rparr>))"

text \<open>The deferred removal of the socket or of the spec file; it does not run when the process is ended.\<close>

definition removeSpec :: "('w, 'z) os_env_scheme \<Rightarrow> string \<Rightarrow> 'w served \<Rightarrow> 'w served" where
  "removeSpec E spec x = (case x of (out, r, s) \<Rightarrow>
     (case r of Fatal _ \<Rightarrow> x
      | _ \<Rightarrow> if spec \<noteq> '''' then (out, r, snd (onWorld (os_RemoveFile E spec) s)) else x))"

definition listenAndServe ::
    "('w, 'z) os_env_scheme \<Rightarrow> 'w plugin driver_ops \<Rightarrow> string \<Rightarrow> string \<Rightarrow> string \<Rightarrow> 'w plugin \<Rightarrow> 'w served option" where
  "listenAndServe E d proto addr grp s =
     (case (if proto = ''tcp'' then onWorld (newTCPListener E grp addr) s
            else if proto = ''unix'' then onWorld (newUnixListener E addr grp) s
            else (Panic NilDereference, s)) of
        (Ok (l, spec), s1) \<Rightarrow> map_option (removeSpec E spec) (Serve E d True l [] s1)
      | (Err e, s1) \<Rightarrow> Some ([], Err e, s1)
      | (Panic p, s1) \<Rightarrow> Some ([], Panic p, s1)
      | (Fatal t, s1) \<Rightarrow> Some ([], Fatal t, s1))"

definition ServeTCP where
  "ServeTCP E d pluginName addr = listenAndServe E d ''tcp'' addr pluginName"

definition ServeUnix where
  "ServeUnix E d systemGroup addr = listenAndServe E d ''unix'' addr systemGroup"

text \<open>\<open>Run\<close>: an error of the driver is a panic, an error of the server is logged.\<close>

definition logged :: "'w served \<Rightarrow> 'w served" where
  "logged x = (case x of (out, r, s) \<Rightarrow> (out, (case r of Err _ \<Rightarrow> Ok () | _ \<Rightarrow> r), s))"

definition Run ::
    "('w, 'y) os_env_scheme \<Rightarrow> ('w, 'z) env_scheme \<Rightarrow> TableUpdates list list \<Rightarrow> 'w plugin \<Rightarrow> 'w served option" where
  "Run E env batches s = (case NewDriver env batches s of
       None \<Rightarrow> None
     | Some (Ok _, s1) \<Rightarrow> map_option logged (ServeUnix E (ovs_driver env) ''root'' ''ovs'' s1)
     | Some (Err e, s1) \<Rightarrow> Some ([], Panic (UserPanic (errText e)), s1)
     | Some (Panic p, s1) \<Rightarrow> Some ([], Panic p, s1)
     | Some (Fatal t, s1) \<Rightarrow> Some ([], Fatal t, s1))"

section \<open>Logging\<close>

text \<open>
  \<open>ovs/logging.go\<close>. A logger is its writer and its prefix; \<open>None\<close> is the nil pointer it starts
  as. The flag \<open>debugF\<close> starts as false, so the first call with \<open>False\<close> leaves every logger nil.
\<close>

datatype writer = Discard | Stdout | Stderr

record loggers =
  lg_Debug :: "(writer \<times> string) option"
  lg_Info :: "(writer \<times> string) option"
  lg_Warning :: "(writer \<times> string) option"
  lg_Error :: "(writer \<times> string) option"
  lg_debugF :: bool

definition InitLogging :: "writer \<Rightarrow> writer \<Rightarrow> writer \<Rightarrow> writer \<Rightarrow> loggers \<Rightarrow> loggers" where
  "InitLogging debugHandle infoHandle warningHandle errorHandle l =
     l\<lparr>lg_Debug := Some (debugHandle, ''DEBUG: ''), lg_Info := Some (infoHandle, ''INFO: ''),
       lg_Warning := Some (warningHandle, ''WARNING: ''), lg_Error := Some (errorHandle, ''ERROR: '')\<rparr>"

definition InitDefaultLogging :: "bool \<Rightarrow> loggers \<Rightarrow> loggers" where
  "InitDefaultLogging debug l = (if debug = lg_debugF l then l
     else InitLogging (if debug then Stderr else Discard) Stdout Stdout Stderr (l\<lparr>lg_debugF := debug\<rparr>))"

text \<open>The loggers exist exactly after a call that has changed the flag, and then debug output is
  written exactly when the flag is set.\<close>

definition zeroLoggers :: loggers where
  "zeroLoggers = \<lparr>lg_Debug = None, lg_Info = None, lg_Warning = None, lg_Error = None, lg_debugF = False\<rparr>"

lemma logging_initialised:
  "l = fold InitDefaultLogging flags zeroLoggers \<Longrightarrow>
   (lg_Info l \<noteq> None \<longleftrightarrow> True \<in> set flags) \<and>
   (lg_Info l \<noteq> None \<longrightarrow> lg_Debug l = Some (if lg_debugF l then Stderr else Discard, ''DEBUG: ''))"
proof -
  have "(lg_debugF l \<longrightarrow> lg_Info l \<noteq> None) \<Longrightarrow>
      (lg_Info (fold InitDefaultLogging flags l) \<noteq> None \<longleftrightarrow> lg_Info l \<noteq> None \<or> True \<in> set flags)" for l
  proof (induction flags arbitrary: l)
    case (Cons f fs)
    have "lg_debugF (InitDefaultLogging f l) \<longrightarrow> lg_Info (InitDefaultLogging f l) \<noteq> None"
      "lg_Info (InitDefaultLogging f l) \<noteq> None \<longleftrightarrow> lg_Info l \<noteq> None \<or> f"
      using Cons.prems by (auto simp: InitDefaultLogging_def InitLogging_def)
    with Cons.IH [of "InitDefaultLogging f l"] show ?case by auto
  qed simp
  moreover have "(lg_Info l \<noteq> None \<longrightarrow> lg_Debug l = Some (if lg_debugF l then Stderr else Discard, ''DEBUG: '')) \<Longrightarrow>
      lg_Info (fold InitDefaultLogging flags l) \<noteq> None \<longrightarrow> lg_Debug (fold InitDefaultLogging flags l) =
        Some (if lg_debugF (fold InitDefaultLogging flags l) then Stderr else Discard, ''DEBUG: '')" for l
    by (induction flags arbitrary: l) (auto simp: InitDefaultLogging_def InitLogging_def)
  ultimately show "l = fold InitDefaultLogging flags zeroLoggers \<Longrightarrow>
   (lg_Info l \<noteq> None \<longleftrightarrow> True \<in> set flags) \<and>
   (lg_Info l \<noteq> None \<longrightarrow> lg_Debug l = Some (if lg_debugF l then Stderr else Discard, ''DEBUG: ''))"
    by (simp add: zeroLoggers_def)
qed

section \<open>What the system calls promise\<close>

text \<open>
  Two things that a system call can change, the umask of the process and the set of its listening
  sockets, as functions of the world, and the documented behaviour of the calls with respect to them.
\<close>

record 'w os_view =
  umask_of :: "'w \<Rightarrow> nat"
  listening :: "'w \<Rightarrow> nat set"

definition seen :: "('w, 'z) os_view_scheme \<Rightarrow> nat \<Rightarrow> nat set \<Rightarrow> 'w \<Rightarrow> bool" where
  "seen v m S w \<longleftrightarrow> umask_of v w = m \<and> listening v w = S"

definition os_laws :: "('w, 'y) os_env_scheme \<Rightarrow> ('w, 'z) os_view_scheme \<Rightarrow> bool" where
  "os_laws E v \<longleftrightarrow>
     (\<forall>m w. fst (os_Umask E m w) = umask_of v w \<and> seen v m (listening v w) (snd (os_Umask E m w))) \<and>
     (\<forall>p a w. case os_Listen E p a w of
          (Ok n, w') \<Rightarrow> n \<notin> listening v w \<and> seen v (umask_of v w) (insert n (listening v w)) w'
        | (_, w') \<Rightarrow> seen v (umask_of v w) (listening v w) w') \<and>
     (\<forall>n w. seen v (umask_of v w) (listening v w - {n}) (snd (os_CloseListener E n w))) \<and>
     (\<forall>m S p. keepsG (seen v m S) (os_Open E p)) \<and>
     (\<forall>m S p. keepsG (seen v m S) (os_Unlink E p)) \<and>
     (\<forall>m S p u g. keepsG (seen v m S) (os_Chown E p u g)) \<and>
     (\<forall>m S p b. keepsG (seen v m S) (os_Chmod E p b))"

lemma os_lawsD [keeps_intros]:
  assumes "os_laws E v"
  shows "keepsG (seen v m S) (os_Open E p)" "keepsG (seen v m S) (os_Unlink E p)"
    "keepsG (seen v m S) (os_Chown E p u g)" "keepsG (seen v m S) (os_Chmod E p b)"
  using assms by (simp_all add: os_laws_def)

lemma os_laws_Listen:
  "os_laws E v \<Longrightarrow> case os_Listen E p a w of
     (Ok n, w') \<Rightarrow> n \<notin> listening v w \<and> seen v (umask_of v w) (insert n (listening v w)) w'
   | (_, w') \<Rightarrow> seen v (umask_of v w) (listening v w) w'"
  by (simp add: os_laws_def)

lemma setSocketGroup_seen:
  assumes "os_laws E v"
  shows "keepsG (seen v m S) (setSocketGroup E path grp)"
proof -
  have "keepsG (seen v m S) (lookupGidByName E grp)"
    unfolding lookupGidByName_def ParseGroupFileFilter_def using assms
    by (intro keeps_intros) (auto split: list.split go.split intro: keeps_intros)
  then show ?thesis
    unfolding setSocketGroup_def changeGroup_def using assms by (intro keeps_intros)
qed

lemma orClose_seen:
  assumes "os_laws E v" "keepsG (seen v m (insert n S)) f" "n \<notin> S" "seen v m (insert n S) w" "ln_wrapped l = n"
  shows "case orClose E l f w of (Err _, w') \<Rightarrow> seen v m S w' | (_, w') \<Rightarrow> seen v m (insert n S) w'"
proof -
  have f: "seen v m (insert n S) (snd (f w))" using assms(2,4) by (rule keepsG_D)
  have "seen v (umask_of v u) (listening v u - {n}) (snd (os_CloseListener E n u))" for u
    using assms(1) unfolding os_laws_def by blast
  from this [of "snd (f w)"] have "seen v m S (snd (os_CloseListener E n (snd (f w))))"
    using f assms(3) by (auto simp: seen_def)
  with f assms(5) show ?thesis
    by (cases "f w"; cases "fst (f w)") (auto simp: orClose_def tryG_def retG_def failG_def)
qed

lemma bindSocket_seen:
  assumes "os_laws E v" "seen v m S w" "bindSocket E path grp w = (r, w')"
  shows "umask_of v w' = m \<and>
    (case r of Ok l \<Rightarrow> ln_wrapped l \<notin> S \<and> listening v w' = insert (ln_wrapped l) S
     | Err _ \<Rightarrow> listening v w' = S | _ \<Rightarrow> True)"
proof -
  obtain r1 w1 where l: "os_Listen E ''unix'' path w = (r1, w1)" by fastforce
  have law: "case os_Listen E ''unix'' path w of
          (Ok n, w') \<Rightarrow> n \<notin> S \<and> seen v m (insert n S) w' | (_, w') \<Rightarrow> seen v m S w'"
    using os_laws_Listen [OF assms(1), where p = "''unix''" and a = path and w = w] assms(2)
    by (auto simp: seen_def split: prod.splits go.splits)
  show ?thesis
  proof (cases r1)
    case (Ok n)
    let ?l = "\<lparr>ln_wrapped = n, ln_ready = False\<rparr>"
    from l law Ok have n: "n \<notin> S" "seen v m (insert n S) w1" by simp_all
    note step = orClose_seen [OF assms(1) _ n(1), where l = ?l]
    obtain r2 w2 where g: "orClose E ?l (setSocketGroup E path grp) w1 = (r2, w2)" by fastforce
    obtain r3 w3 where c: "orClose E ?l (os_Chmod E path 432) w2 = (r3, w3)" by fastforce
    have 2: "case r2 of Err _ \<Rightarrow> seen v m S w2 | _ \<Rightarrow> seen v m (insert n S) w2"
      using step [OF setSocketGroup_seen [OF assms(1)] n(2), of path grp] g by simp
    have 3: "seen v m (insert n S) w2 \<Longrightarrow> case r3 of Err _ \<Rightarrow> seen v m S w3 | _ \<Rightarrow> seen v m (insert n S) w3"
      using step [OF os_lawsD(4) [OF assms(1)], of m w2 path 432] c by simp
    show ?thesis using assms(3) l Ok g c 2 3 n(1)
      by (cases r2; cases r3) (auto simp: bindSocket_def NewListenBuffer_def retG_def seen_def)
  qed (use assms(3) l law in \<open>auto simp: bindSocket_def NewListenBuffer_def seen_def\<close>)
qed

section \<open>Runs of the server\<close>

lemma Accept_closed: "Accept E True l w = (case os_AcceptRequest E (ln_wrapped l) w of
    (r, w') \<Rightarrow> Some (r, l\<lparr>ln_ready := True\<rparr>, w'))"
  by (cases "ln_ready l") (auto simp: Accept.simps [of E True] split: prod.split)

lemma Accept_open: "Accept E False l w = None \<longleftrightarrow> \<not> ln_ready l"
  by (auto simp: Accept.simps [of E False] split: prod.split)

text \<open>A server that has not ended the process has gone through reachable states of the plugin only.\<close>

definition served_well :: "('w, 'z) env_scheme \<Rightarrow> 'w served \<Rightarrow> bool" where
  "served_well env y \<longleftrightarrow> (case y of (_, r, s) \<Rightarrow> networks_served s \<and> (r = Fatal '''' \<or> plugin_reachable env s))"

lemma served_well_end: "plugin_reachable env s \<Longrightarrow> served_well env (out, r, s)"
  by (simp add: served_well_def networks_served_reachable)

lemma serve_request_reachable:
  assumes "plugin_reachable env s" "serveHTTP (ovs_driver env) path j s = (res, s')"
  shows "networks_served s' \<and> (res \<noteq> ProcessExit \<longrightarrow> plugin_reachable env s')"
  using ovs_drv.serveHTTP_inv [OF networks_served_reachable [OF assms(1)], of env path j] assms
  by (auto intro: plugin_reachable.step plugin_step.request)

lemma Serve_reachable:
  assumes "Serve E (ovs_driver env) closed l out s = Some y" "plugin_reachable env s"
  shows "served_well env y"
proof -
  define P where "P = (\<lambda>(E' :: ('a, 'b) os_env_scheme) d (closed' :: bool) (l' :: listener) (out' :: http_result list) s y.
      d = ovs_driver env \<longrightarrow> plugin_reachable env s \<longrightarrow> served_well env y)"
  have "P E (ovs_driver env) closed l out s y"
  proof (rule Serve.raw_induct [OF _ assms(1)])
    fix self E d closed l out s y
    assume IH: "\<And>E d closed l out s y. self E d closed l out s = Some y \<Longrightarrow> P E d closed l out s y"
      and run: "(case Accept E closed l (world s) of
           None \<Rightarrow> None
         | Some (Ok (path, j), l', w) \<Rightarrow> (case serveHTTP d path j (s\<lparr>world := w\<rparr>) of
               (ProcessExit, s') \<Rightarrow> Some (out @ [ProcessExit], Fatal '''', s')
             | (res, s') \<Rightarrow> self E d closed l' (out @ [res]) s')
         | Some (Err e, _, w) \<Rightarrow> Some (out, Err e, s\<lparr>world := w\<rparr>)
         | Some (Panic p, _, w) \<Rightarrow> Some (out, Panic p, s\<lparr>world := w\<rparr>)
         | Some (Fatal t, _, w) \<Rightarrow> Some (out, Fatal t, s\<lparr>world := w\<rparr>)) = Some y"
    show "P E d closed l out s y"
      unfolding P_def
    proof (intro impI)
      assume d: "d = ovs_driver env" and "plugin_reachable env s"
      then have world: "plugin_reachable env (s\<lparr>world := w\<rparr>)" for w
        by (auto intro: plugin_reachable.step plugin_step.outside)
      show "served_well env y"
        using run world d
        by (auto split: option.splits prod.splits go.splits http_result.splits
            dest!: IH intro: served_well_end
            dest: serve_request_reachable [OF world] simp: P_def served_well_def [of env "(_, Fatal _, _)"])
    qed
  qed
  with assms(2) show ?thesis by (simp add: P_def)
qed

lemma Serve_ends:
  "os_AcceptRequest E (ln_wrapped l) (world s) = (Err e, w) \<Longrightarrow> Serve E d True l out s = Some (out, Err e, s\<lparr>world := w\<rparr>)"
  by (subst Serve.simps) (simp add: Accept_closed)

lemma ovs_socket: "filepathJoin [pluginSockDir, ''ovs'' @ ''.sock''] = ''/run/docker/plugins/ovs.sock''"
  by code_simp

lemma newUnixListener_path:
  "newUnixListener E ''ovs'' grp w = (Ok (l, path), w') \<Longrightarrow> path = ''/run/docker/plugins/ovs.sock''"
  using ovs_socket by (auto simp: newUnixListener_def fullSocketAddress_def bindG_Ok_iff retG_def)

lemma filter_find: "(case filter P xs of x # _ \<Rightarrow> f x | [] \<Rightarrow> y) = (case List.find P xs of Some x \<Rightarrow> f x | None \<Rightarrow> y)"
  by (induction xs) auto

lemma NewUnixSocket_seen:
  assumes "os_laws E v" "NewUnixSocket E path grp w = (r, w')"
  shows "umask_of v w' = umask_of v w \<and>
    (case r of Ok l \<Rightarrow> ln_wrapped l \<notin> listening v w \<and> listening v w' = insert (ln_wrapped l) (listening v w)
     | Err _ \<Rightarrow> listening v w' = listening v w | _ \<Rightarrow> True)"
proof -
  let ?u = "tryG (os_Unlink E path) retG (\<lambda>err. if \<not> isNotExist err then failG err else retG ())"
  have "keepsG (seen v (umask_of v w) (listening v w)) ?u" using assms(1) by (intro keeps_intros)
  then have u: "seen v (umask_of v w) (listening v w) (snd (?u w))" by (rule keepsG_D) (simp add: seen_def)
  obtain r1 w1 where r1: "?u w = (r1, w1)" by fastforce
  have umask: "\<And>m w. fst (os_Umask E m w) = umask_of v w \<and> seen v m (listening v w) (snd (os_Umask E m w))"
    using assms(1) by (simp add: os_laws_def)
  obtain old w2 where w2: "os_Umask E 511 w1 = (old, w2)" by fastforce
  obtain r3 w3 where w3: "bindSocket E path grp w2 = (r3, w3)" by fastforce
  have "old = umask_of v w" "seen v 511 (listening v w) w2"
    using umask [of 511 w1] w2 u r1 by (auto simp: seen_def)
  with bindSocket_seen [OF assms(1) _ w3] umask [of old w3]
  show ?thesis using assms(2) u r1 w2 w3
    by (cases r1) (auto simp: NewUnixSocket_def withUmask_def seen_def split: go.splits)
qed

lemma bindSocket_Listen:
  assumes "\<And>p a w. umask_of v w = 511 \<Longrightarrow> L p a w = os_Listen E p a w" "umask_of v w = 511"
  shows "bindSocket (E\<lparr>os_Listen := L\<rparr>) path grp w = bindSocket E path grp w"
proof -
  have "NewListenBuffer (E\<lparr>os_Listen := L\<rparr>) p a w = NewListenBuffer E p a w" for p a
    using assms by (simp add: NewListenBuffer_def bindG_def tryG_def)
  moreover have "setSocketGroup (E\<lparr>os_Listen := L\<rparr>) = setSocketGroup E" "orClose (E\<lparr>os_Listen := L\<rparr>) = orClose E"
    by (simp_all add: fun_eq_iff setSocketGroup_def changeGroup_def lookupGidByName_def orClose_def)
  ultimately show ?thesis by (simp add: bindSocket_def bindG_def tryG_def)
qed

lemma run_serve:
  "onWorld (newUnixListener E addr grp) s = (Ok (l, path), s1) \<Longrightarrow>
   ServeUnix E d grp addr s = map_option (removeSpec E path) (Serve E d True l [] s1)"
  by (simp add: ServeUnix_def listenAndServe_def)

lemma logged_removeSpec:
  "path \<noteq> '''' \<Longrightarrow> logged (removeSpec E path (out, r, s)) = (out, (case r of Err _ \<Rightarrow> Ok () | _ \<Rightarrow> r),
     (case r of Fatal _ \<Rightarrow> s | _ \<Rightarrow> snd (onWorld (os_RemoveFile E path) s)))"
  by (cases r) (simp_all add: logged_def removeSpec_def)

text \<open>
  A small operating system for the witnesses: a world is the umask and the list of the listening
  sockets; no request ever arrives.
\<close>

definition lab_groups :: "Group list" where
  "lab_groups = [\<lparr>g_Name = ''root'', g_Pass = ''x'', g_Gid = 0, g_List = []\<rparr>,
     \<lparr>g_Name = ''docker'', g_Pass = ''x'', g_Gid = 999, g_List = [''ann'']\<rparr>]"

definition lab_os :: "(nat \<times> nat list) os_env" where
  "lab_os = \<lparr>os_Open = (\<lambda>_. retG (groupFile lab_groups)), os_MkdirAll = (\<lambda>_ _. retG ()),
     os_WriteFile = (\<lambda>_ _ _. retG ()), os_Unlink = (\<lambda>_. failG (Errno 2)),
     os_Umask = (\<lambda>m (u, ls). (u, (m, ls))),
     os_Listen = (\<lambda>_ _ (u, ls). (Ok (Suc (sum_list ls)), (u, Suc (sum_list ls) # ls))),
     os_Addr = (\<lambda>_ _. ''127.0.0.1:80''),
     os_CloseListener = (\<lambda>n (u, ls). (Ok (), (u, filter (\<lambda>l. l \<noteq> n) ls))),
     os_AcceptRequest = (\<lambda>_. failG (ErrNew ''closed'')), os_Chown = (\<lambda>_ _ _. retG ()),
     os_Chmod = (\<lambda>_ _. retG ()), os_RemoveFile = (\<lambda>_. retG ())\<rparr>"

definition lab_view :: "(nat \<times> nat list) os_view" where
  "lab_view = \<lparr>umask_of = fst, listening = set \<circ> snd\<rparr>"

lemma lab_os_laws: "os_laws lab_os lab_view"
proof -
  have "Suc (sum_list ls) \<notin> set ls" for ls
    using member_le_sum_list [of "Suc (sum_list ls)" ls] by auto
  then show ?thesis
    by (auto simp: os_laws_def lab_os_def lab_view_def seen_def keepsG_def retG_def failG_def split: prod.splits)
qed

section \<open>Properties\<close>

text \<open>C10. NewUnixSocket gives the umask of the process back on every path, leaves a listening socket
  behind exactly when it succeeds, and only ever creates the socket under the umask 0777: what the
  system would do under another umask does not matter. So the socket is never open to anybody before
  its group and its mode are set.\<close>

theorem socket_protected:
  assumes "os_laws E v" "NewUnixSocket E path grp w = (r, w')"
    and "\<And>p a w. umask_of v w = 511 \<Longrightarrow> L p a w = os_Listen E p a w"
  shows "umask_of v w' = umask_of v w \<and>
    (case r of Ok l \<Rightarrow> ln_wrapped l \<notin> listening v w \<and> listening v w' = insert (ln_wrapped l) (listening v w)
     | Err _ \<Rightarrow> listening v w' = listening v w | _ \<Rightarrow> True) \<and>
    NewUnixSocket (E\<lparr>os_Listen := L\<rparr>) path grp w = (r, w')"
proof -
  have "umask_of v (snd (os_Umask E 511 u)) = 511" for u
    using assms(1) by (simp add: os_laws_def seen_def)
  then have "bindSocket (E\<lparr>os_Listen := L\<rparr>) path grp (snd (os_Umask E 511 u)) =
      bindSocket E path grp (snd (os_Umask E 511 u))" for u
    using bindSocket_Listen [where v = v, OF assms(3)] by blast
  then have "withUmask (E\<lparr>os_Listen := L\<rparr>) 511 (bindSocket (E\<lparr>os_Listen := L\<rparr>) path grp) =
      withUmask E 511 (bindSocket E path grp)"
    by (simp add: withUmask_def fun_eq_iff case_prod_unfold)
  then have "NewUnixSocket (E\<lparr>os_Listen := L\<rparr>) path grp = NewUnixSocket E path grp"
    by (simp add: NewUnixSocket_def)
  with NewUnixSocket_seen [OF assms(1,2)] assms(2) show ?thesis by simp
qed

theorem socket_protected_witness:
  "NewUnixSocket lab_os ''/run/docker/plugins/ovs.sock'' ''root'' (18, []) =
     (Ok \<lparr>ln_wrapped = 1, ln_ready = False\<rparr>, (18, [1])) \<and>
   NewUnixSocket (lab_os\<lparr>os_Listen := \<lambda>p a w. if fst w = 511 then os_Listen lab_os p a w else failG (Errno 13) w\<rparr>)
     ''/run/docker/plugins/ovs.sock'' ''root'' (18, []) = (Ok \<lparr>ln_wrapped = 1, ln_ready = False\<rparr>, (18, [1]))"
proof -
  have run: "NewUnixSocket lab_os ''/run/docker/plugins/ovs.sock'' ''root'' (18, []) =
     (Ok \<lparr>ln_wrapped = 1, ln_ready = False\<rparr>, (18, [1]))" by code_simp
  from socket_protected [OF lab_os_laws run, of "\<lambda>p a w. if fst w = 511 then os_Listen lab_os p a w else failG (Errno 13) w"]
  show ?thesis using run by (simp add: lab_view_def)
qed

text \<open>C11. The group of the socket, from the text of /etc/group: the first entry whose name, or whose
  number in decimal, is the given string; without one, a string that is a number is taken as it is,
  even a negative one, and any other string is an error.\<close>

theorem gid_resolved:
  assumes "os_Open E ''/etc/group'' w = (Ok (groupFile gs), w')" "list_all wf_group gs"
  shows "lookupGidByName E name w = (case List.find (names_group name) gs of
      Some g \<Rightarrow> Ok (g_Gid g)
    | None \<Rightarrow> (case atoi name of Ok n \<Rightarrow> Ok n | _ \<Rightarrow> Err (Errorf ''Group %s not found'' [EStr name])), w')"
  using assms(1) filter_file [OF assms(2), of "names_group name"]
  by (auto simp: lookupGidByName_def ParseGroupFileFilter_def GetGroupPath_def liftG_def retG_def failG_def
      names_group_def [abs_def] filter_find split: option.splits go.splits)

theorem gid_resolved_witness:
  "lookupGidByName lab_os ''docker'' (18, []) = (Ok 999, (18, [])) \<and>
   lookupGidByName lab_os ''0'' (18, []) = (Ok 0, (18, [])) \<and>
   lookupGidByName lab_os ''-5'' (18, []) = (Ok (-5), (18, []))"
proof -
  have "os_Open lab_os ''/etc/group'' (18, []) = (Ok (groupFile lab_groups), (18, []))"
    by (simp add: lab_os_def retG_def)
  moreover have "list_all wf_group lab_groups" by code_simp
  ultimately have r: "lookupGidByName lab_os name (18, []) = (case List.find (names_group name) lab_groups of
      Some g \<Rightarrow> Ok (g_Gid g)
    | None \<Rightarrow> (case atoi name of Ok n \<Rightarrow> Ok n | _ \<Rightarrow> Err (Errorf ''Group %s not found'' [EStr name])), (18, []))" for name
    by (rule gid_resolved)
  have "map_option g_Gid (List.find (names_group ''docker'') lab_groups) = Some 999"
    "map_option g_Gid (List.find (names_group ''0'') lab_groups) = Some 0"
    "List.find (names_group ''-5'') lab_groups = None" "atoi ''-5'' = Ok (-5)" by code_simp+
  then show ?thesis by (auto simp: r)
qed


definition lab_idle_os :: "lab os_env" where
  "lab_idle_os = \<lparr>os_Open = (\<lambda>_. retG (groupFile lab_groups)), os_MkdirAll = (\<lambda>_ _. retG ()),
     os_WriteFile = (\<lambda>_ _ _. retG ()), os_Unlink = (\<lambda>_. failG (Errno 2)), os_Umask = (\<lambda>_ w. (18, w)),
     os_Listen = (\<lambda>_ _. retG 3), os_Addr = (\<lambda>_ _. ''''), os_CloseListener = (\<lambda>_. retG ()),
     os_AcceptRequest = (\<lambda>_ w. if lab_dials w = 1
        then (Ok (createNetworkPath, Some lab_body), w\<lparr>lab_dials := 2\<rparr>) else (Err (ErrNew ''closed''), w)),
     os_Chown = (\<lambda>_ _ _. retG ()), os_Chmod = (\<lambda>_ _. retG ()),
     os_RemoveFile = (\<lambda>p w. (Ok (), w\<lparr>lab_links := filter (\<lambda>l. l \<noteq> p) (lab_links w)\<rparr>))\<rparr>"


end
