(* ===== verification/Rpc2.thy ===== *)
theory Rpc2
  imports Ovsdb_Client
begin

text \<open>
  The JSON-RPC connection under the OVSDB client: \<open>rpc2/client.go\<close> with the codec of
  \<open>rpc2/jsonrpc/jsonrpc.go\<close>.

  A call is registered under a fresh sequence number, written, and completed by the response
  that carries the number, by a failed write, or by the end of the read loop. A request or a
  notification of the server is handled by a goroutine of its own. The client's two mutexes make
  the functions below atomic: \<open>send\<close> holds \<open>sending\<close> from \<open>sendBegin\<close> to \<open>sendEnd\<close>, and the
  end of the read loop needs it.

  The values that are sent on the \<open>Done\<close> channel of a call are kept as a list, so that "exactly
  once" can be said; \<open>rc_Seq\<close> remembers the number it was registered under, and is not a field
  of the program.
\<close>

section \<open>Messages\<close>

record Request =
  rq_Seq :: "64 word"
  rq_Method :: string

record Response =
  rs_Seq :: "64 word"
  rs_Error :: string

record message =
  msg_Method :: string
  msg_Params :: "json option"
  msg_Id :: "json option"
  msg_Result :: "json option"
  msg_Error :: gov

text \<open>A member of type \<open>*json.RawMessage\<close>: absent and null are the nil pointer.\<close>

definition rawMember :: "json \<Rightarrow> string \<Rightarrow> json option" where
  "rawMember j k = (case jsonMember j k of Some JNull \<Rightarrow> None | r \<Rightarrow> r)"

definition decodeMessage :: "json \<Rightarrow> message go" where
  "decodeMessage j = (if \<not> isStructJson j then decodeError else
     bind_go (decString (jsonMember j ''method'')) (\<lambda>meth.
     Ok \<lparr>msg_Method = meth, msg_Params = rawMember j ''params'', msg_Id = rawMember j ''id'',
         msg_Result = rawMember j ''result'',
         msg_Error = (case jsonMember j ''error'' of None \<Rightarrow> GNil | Some e \<Rightarrow> unmarshal_any e)\<rparr>))"

text \<open>\<open>json.Unmarshal\<close> of a number into a \<open>uint64\<close>.\<close>

definition decUint64 :: "json \<Rightarrow> 64 word go" where
  "decUint64 j = (case j of
       JNum n \<Rightarrow> if n \<noteq> '''' \<and> list_all isDigit n \<and> digitsValue n < 2 ^ 64
         then Ok (of_nat (digitsValue n)) else decodeError
     | _ \<Rightarrow> decodeError)"

section \<open>The codec\<close>

record json_codec =
  cc_pending :: "(64 word, json) gomap"
  cc_seq :: "64 word"
  cc_Params :: "json option"
  cc_Result :: "json option"

definition NewJSONCodec :: json_codec where
  "NewJSONCodec = \<lparr>cc_pending = [], cc_seq = 0, cc_Params = None, cc_Result = None\<rparr>"

abbreviation noRequest :: Request where "noRequest \<equiv> \<lparr>rq_Seq = 0, rq_Method = ''''\<rparr>"
abbreviation noResponse :: Response where "noResponse \<equiv> \<lparr>rs_Seq = 0, rs_Error = ''''\<rparr>"

text \<open>
  \<open>ReadHeader\<close> on the next document of the connection. A response without an id dereferences a
  nil pointer; an error that is not a string is an error of the codec, which ends the read loop.
\<close>

definition ReadHeader :: "json \<Rightarrow> (json_codec, Request \<times> Response) gom" where
  "ReadHeader j c = (case decodeMessage j of
       Ok msg \<Rightarrow>
         if msg_Method msg \<noteq> '''' then
           (case msg_Id msg of
              None \<Rightarrow> (Ok (\<lparr>rq_Seq = 0, rq_Method = msg_Method msg\<rparr>, noResponse), c\<lparr>cc_Params := msg_Params msg\<rparr>)
            | Some i \<Rightarrow> (Ok (\<lparr>rq_Seq = cc_seq c + 1, rq_Method = msg_Method msg\<rparr>, noResponse),
                c\<lparr>cc_Params := msg_Params msg, cc_seq := cc_seq c + 1,
                  cc_pending := go_update (cc_seq c + 1) i (cc_pending c)\<rparr>))
         else (case msg_Id msg of
              None \<Rightarrow> (Panic NilDereference, c)
            | Some i \<Rightarrow> (case decUint64 i of
                Ok n \<Rightarrow>
                  let c' = c\<lparr>cc_Result := msg_Result msg\<rparr> in
                  if msg_Error msg \<noteq> GNil \<or> msg_Result msg = None then
                    (case msg_Error msg of
                       GString x \<Rightarrow> (Ok (noRequest, \<lparr>rs_Seq = n,
                         rs_Error = (if x = '''' then ''unspecified error'' else x)\<rparr>), c')
                     | _ \<Rightarrow> (Err (ErrNew ''invalid error''), c'))
                  else (Ok (noRequest, \<lparr>rs_Seq = n, rs_Error = ''''\<rparr>), c')
              | r \<Rightarrow> (map_go_res (\<lambda>_. (noRequest, noResponse)) r, c)))
     | r \<Rightarrow> (map_go_res (\<lambda>_. (noRequest, noResponse)) r, c))"

text \<open>\<open>ReadRequestBody\<close> into the \<open>*[]interface{}\<close> that both handlers of the plugin take.\<close>

definition ReadRequestBody :: "json_codec \<Rightarrow> json list go" where
  "ReadRequestBody c = (case cc_Params c of
       None \<Rightarrow> Err (ErrNew ''jsonrpc: request body missing params'')
     | Some (JArr params) \<Rightarrow> Ok params
     | Some _ \<Rightarrow> decodeError)"

text \<open>The argument of a call: a \<open>[]interface{}\<close> is the parameter list, anything else its only element.\<close>

datatype rpc_args = Positional "json list" | Single json

definition WriteRequest :: "Request \<Rightarrow> rpc_args \<Rightarrow> json" where
  "WriteRequest r param = JObj
     [(''method'', JString (rq_Method r)),
      (''params'', JArr (case param of Positional ps \<Rightarrow> ps | Single p \<Rightarrow> [p])),
      (''id'', if rq_Seq r = 0 then JNull else JNum (natDigits (unat (rq_Seq r))))]"

definition WriteResponse :: "Response \<Rightarrow> json \<Rightarrow> (json_codec, json) gom" where
  "WriteResponse r x c = (case go_lookup (cc_pending c) (rs_Seq r) of
       None \<Rightarrow> (Err (ErrNew ''invalid sequence number in response''), c)
     | Some b \<Rightarrow> (Ok (JObj [(''id'', b),
           (''result'', if rs_Error r = '''' then x else JNull),
           (''error'', if rs_Error r = '''' then JNull else JString (rs_Error r))]),
         c\<lparr>cc_pending := go_delete (rs_Seq r) (cc_pending c)\<rparr>))"

section \<open>The client\<close>

record rpc_call_state =
  rc_Method :: string
  rc_Args :: rpc_args
  rc_Seq :: "64 word"
  rc_Done :: "json go list"

record rpc_client =
  cl_seq :: "64 word"
  cl_pending :: "(64 word, nat) gomap"
  cl_closing :: bool
  cl_shutdown :: bool
  cl_calls :: "rpc_call_state list"
  cl_writing :: "(64 word \<times> nat) option"
  cl_handlers :: "string list"
  cl_running :: "(string \<times> json list \<times> 64 word) list"
  cl_codec :: json_codec
  cl_out :: "json list"

definition NewClientWithCodec :: "string list \<Rightarrow> rpc_client" where
  "NewClientWithCodec hs = \<lparr>cl_seq = 1, cl_pending = [], cl_closing = False, cl_shutdown = False,
     cl_calls = [], cl_writing = None, cl_handlers = hs, cl_running = [], cl_codec = NewJSONCodec,
     cl_out = []\<rparr>"

abbreviation ErrShutdown :: goerr where "ErrShutdown \<equiv> ErrNew ''connection is shut down''"

text \<open>\<open>call.done()\<close> with the outcome the call has got.\<close>

definition finish :: "nat \<Rightarrow> json go \<Rightarrow> rpc_client \<Rightarrow> rpc_client" where
  "finish i v c = c\<lparr>cl_calls := (cl_calls c)[i := (cl_calls c ! i)\<lparr>rc_Done := rc_Done (cl_calls c ! i) @ [v]\<rparr>]\<rparr>"

text \<open>\<open>Go\<close> and the first half of \<open>send\<close>.\<close>

definition sendBegin :: "string \<Rightarrow> rpc_args \<Rightarrow> rpc_client \<Rightarrow> rpc_client" where
  "sendBegin meth args c =
     (if cl_shutdown c \<or> cl_closing c then
        c\<lparr>cl_calls := cl_calls c @ [\<lparr>rc_Method = meth, rc_Args = args, rc_Seq = 0, rc_Done = [Err ErrShutdown]\<rparr>]\<rparr>
      else
        c\<lparr>cl_calls := cl_calls c @ [\<lparr>rc_Method = meth, rc_Args = args, rc_Seq = cl_seq c, rc_Done = []\<rparr>],
          cl_seq := cl_seq c + 1, cl_pending := go_update (cl_seq c) (length (cl_calls c)) (cl_pending c),
          cl_writing := Some (cl_seq c, length (cl_calls c))\<rparr>)"

text \<open>The second half: the outcome of \<open>WriteRequest\<close>. The call is looked up again, because its response may have come.\<close>

definition sendEnd :: "goerr option \<Rightarrow> rpc_client \<Rightarrow> rpc_client" where
  "sendEnd err c = (case cl_writing c of
       None \<Rightarrow> c
     | Some (seq, i) \<Rightarrow>
         (case err of
            None \<Rightarrow> c\<lparr>cl_writing := None, cl_out := cl_out c @
              [WriteRequest \<lparr>rq_Seq = seq, rq_Method = rc_Method (cl_calls c ! i)\<rparr> (rc_Args (cl_calls c ! i))]\<rparr>
          | Some e \<Rightarrow>
              let c' = c\<lparr>cl_writing := None, cl_pending := go_delete seq (cl_pending c)\<rparr>
              in (case go_lookup (cl_pending c) seq of None \<Rightarrow> c' | Some k \<Rightarrow> finish k (Err e) c')))"

definition readResponse :: "Response \<Rightarrow> rpc_client \<Rightarrow> rpc_client" where
  "readResponse resp c =
     (let c' = c\<lparr>cl_pending := go_delete (rs_Seq resp) (cl_pending c)\<rparr>
      in case go_lookup (cl_pending c) (rs_Seq resp) of
           None \<Rightarrow> c'
         | Some k \<Rightarrow>
             if rs_Error resp \<noteq> '''' then finish k (Err (ErrNew (rs_Error resp))) c'
             else finish k (case cc_Result (cl_codec c) of Some r \<Rightarrow> Ok r | None \<Rightarrow> Panic NilDereference) c')"

text \<open>The answer to a request, on the codec.\<close>

definition respond :: "Response \<Rightarrow> json \<Rightarrow> (rpc_client, unit) gom" where
  "respond resp x c = (case WriteResponse resp x (cl_codec c) of
       (Ok j, k) \<Rightarrow> (Ok (), c\<lparr>cl_codec := k, cl_out := cl_out c @ [j]\<rparr>)
     | (r, k) \<Rightarrow> (map_go_res (\<lambda>_. ()) r, c\<lparr>cl_codec := k\<rparr>))"

definition readRequest_rpc :: "Request \<Rightarrow> (rpc_client, unit) gom" where
  "readRequest_rpc req c =
     (if rq_Method req \<notin> set (cl_handlers c) then
        respond \<lparr>rs_Seq = rq_Seq req, rs_Error = ''rpc2: can't find method '' @ rq_Method req\<rparr> JNull c
      else (case ReadRequestBody (cl_codec c) of
          Ok argv \<Rightarrow> (Ok (), c\<lparr>cl_running := cl_running c @ [(rq_Method req, argv, rq_Seq req)]\<rparr>)
        | r \<Rightarrow> (map_go_res (\<lambda>_. ()) r, c)))"

text \<open>One turn of \<open>readLoop\<close> on the document \<open>j\<close>.\<close>

definition receive :: "json \<Rightarrow> (rpc_client, unit) gom" where
  "receive j c = (case ReadHeader j (cl_codec c) of
       (Ok (req, resp), k) \<Rightarrow>
         let c' = c\<lparr>cl_codec := k\<rparr>
         in if rq_Method req \<noteq> '''' then readRequest_rpc req c' else (Ok (), readResponse resp c')
     | (r, k) \<Rightarrow> (map_go_res (\<lambda>_. ()) r, c\<lparr>cl_codec := k\<rparr>))"

text \<open>The end of \<open>readLoop\<close>: every pending call gets the error. The map of pending calls stays as it is.\<close>

definition terminate :: "goerr \<Rightarrow> rpc_client \<Rightarrow> rpc_client" where
  "terminate e c = fold (\<lambda>(_, k). finish k (Err e)) (cl_pending c) (c\<lparr>cl_shutdown := True\<rparr>)"

text \<open>A handler has returned: notifications are not answered.\<close>

definition handlerDone :: "64 word \<Rightarrow> string \<Rightarrow> json \<Rightarrow> rpc_client \<Rightarrow> rpc_client" where
  "handlerDone seq errmsg reply c =
     (if seq = 0 then c else snd (respond \<lparr>rs_Seq = seq, rs_Error = errmsg\<rparr> reply c))"

definition Close :: "rpc_client \<Rightarrow> rpc_client" where
  "Close c = (if cl_shutdown c \<or> cl_closing c then c else c\<lparr>cl_closing := True\<rparr>)"

text \<open>The error the loop ends with; \<open>None\<close> is the end of the stream.\<close>

definition loopError :: "goerr option \<Rightarrow> rpc_client \<Rightarrow> goerr" where
  "loopError e c = (case e of
       Some e' \<Rightarrow> e'
     | None \<Rightarrow> if cl_closing c then ErrShutdown else ErrNew ''unexpected EOF'')"

text \<open>\<open>Notify\<close>, with the outcome of the write: a request without a number, which nobody answers.\<close>

definition Notify :: "string \<Rightarrow> rpc_args \<Rightarrow> goerr option \<Rightarrow> (rpc_client, unit) gom" where
  "Notify meth args err c =
     (if cl_shutdown c \<or> cl_closing c then (Err ErrShutdown, c)
      else case err of
          Some e \<Rightarrow> (Err e, c)
        | None \<Rightarrow> (Ok (), c\<lparr>cl_out := cl_out c @ [WriteRequest \<lparr>rq_Seq = 0, rq_Method = meth\<rparr> args]\<rparr>))"

text \<open>\<open>Handle\<close> of a function of the right type: a second registration of a method panics.\<close>

definition Handle :: "string \<Rightarrow> (rpc_client, unit) gom" where
  "Handle meth c = (if meth \<in> set (cl_handlers c)
     then (Panic (UserPanic (''rpc2: multiple registrations for '' @ meth)), c)
     else (Ok (), c\<lparr>cl_handlers := cl_handlers c @ [meth]\<rparr>))"

section \<open>Runs of the client\<close>

inductive rpc_step :: "rpc_client \<Rightarrow> rpc_client \<Rightarrow> bool" where
  send: "cl_writing c = None \<Longrightarrow> rpc_step c (sendBegin meth args c)"
| written: "cl_writing c \<noteq> None \<Longrightarrow> rpc_step c (sendEnd err c)"
| message: "\<not> cl_shutdown c \<Longrightarrow> receive j c = (Ok (), c') \<Longrightarrow> rpc_step c c'"
| broken: "\<not> cl_shutdown c \<Longrightarrow> receive j c = (Err e, c') \<Longrightarrow> cl_writing c' = None \<Longrightarrow>
    rpc_step c (terminate e c')"
| ended: "\<not> cl_shutdown c \<Longrightarrow> cl_writing c = None \<Longrightarrow> rpc_step c (terminate (loopError e c) c)"
| handled: "cl_running c = p @ (meth, args, seq) # q \<Longrightarrow>
    rpc_step c (handlerDone seq errmsg reply (c\<lparr>cl_running := p @ q\<rparr>))"
| close: "rpc_step c (Close c)"
| notify: "cl_writing c = None \<Longrightarrow> rpc_step c (snd (Notify meth args err c))"

inductive rpc_reachable :: "rpc_client \<Rightarrow> bool" where
  start: "rpc_reachable (NewClientWithCodec hs)"
| step: "rpc_reachable c \<Longrightarrow> rpc_step c c' \<Longrightarrow> rpc_reachable c'"

text \<open>
  The invariant, for a client that has not made \<open>2 ^ 64 - 1\<close> calls yet: the pending calls are
  those that are not done, each under its own number; no call is done twice; after the end of the
  read loop every call is done.
\<close>

definition pending_ok :: "rpc_client \<Rightarrow> bool" where
  "pending_ok c \<longleftrightarrow> wf_gomap (cl_pending c) \<and>
     (\<forall>k i. go_lookup (cl_pending c) k = Some i \<longrightarrow> i < length (cl_calls c) \<and>
        rc_Seq (cl_calls c ! i) = k \<and> unat k < unat (cl_seq c))"

definition done_ok :: "rpc_client \<Rightarrow> bool" where
  "done_ok c \<longleftrightarrow> (\<forall>i < length (cl_calls c).
     if \<not> cl_shutdown c \<and> go_lookup (cl_pending c) (rc_Seq (cl_calls c ! i)) = Some i
     then rc_Done (cl_calls c ! i) = [] else length (rc_Done (cl_calls c ! i)) = 1)"

definition calls_ok :: "rpc_client \<Rightarrow> bool" where
  "calls_ok c \<longleftrightarrow> unat (cl_seq c) \<le> Suc (length (cl_calls c)) \<and> pending_ok c \<and> done_ok c"

definition rpc_inv :: "rpc_client \<Rightarrow> bool" where
  "rpc_inv c \<longleftrightarrow> (cl_shutdown c \<longrightarrow> cl_writing c = None) \<and>
     (length (cl_calls c) < 2 ^ 64 - 1 \<longrightarrow> calls_ok c)"

text \<open>What the invariant is about, and the operations that leave it alone.\<close>

definition core :: "rpc_client \<Rightarrow> (64 word \<times> (64 word, nat) gomap \<times> bool \<times> rpc_call_state list)" where
  "core c = (cl_seq c, cl_pending c, cl_shutdown c, cl_calls c)"

lemma rpc_inv_core:
  "core c = core c' \<Longrightarrow> (cl_shutdown c \<longrightarrow> cl_writing c = None) \<Longrightarrow> rpc_inv c' \<Longrightarrow> rpc_inv c"
  by (simp add: rpc_inv_def calls_ok_def core_def pending_ok_def done_ok_def)

lemma respond_frame:
  "core (snd (respond r x c)) = core c \<and> cl_writing (snd (respond r x c)) = cl_writing c"
  by (auto simp: respond_def core_def split: go.splits prod.splits)

lemma length_finish [simp]: "length (cl_calls (finish i v c)) = length (cl_calls c)"
  by (simp add: finish_def)

lemma finish_other [simp]:
  "cl_seq (finish i v c) = cl_seq c" "cl_pending (finish i v c) = cl_pending c"
  "cl_shutdown (finish i v c) = cl_shutdown c" "cl_writing (finish i v c) = cl_writing c"
  by (simp_all add: finish_def)

lemma rc_Seq_finish [simp]:
  "j < length (cl_calls c) \<Longrightarrow> rc_Seq (cl_calls (finish i v c) ! j) = rc_Seq (cl_calls c ! j)"
  by (cases "i = j") (simp_all add: finish_def)

lemma rc_Done_finish:
  "j < length (cl_calls c) \<Longrightarrow> rc_Done (cl_calls (finish i v c) ! j) =
     (if j = i then rc_Done (cl_calls c ! j) @ [v] else rc_Done (cl_calls c ! j))"
  by (simp add: finish_def)

text \<open>Completing the call that is pending under \<open>k\<close> and taking it out of the map.\<close>

lemma pending_ok_delete: "pending_ok c \<Longrightarrow> pending_ok (c\<lparr>cl_pending := go_delete k (cl_pending c)\<rparr>)"
  by (auto simp: pending_ok_def gomap.invar_delete split: if_splits)

lemma pending_ok_finish: "pending_ok c \<Longrightarrow> pending_ok (finish i v c)"
  by (auto simp: pending_ok_def)

lemma done_ok_complete:
  assumes "pending_ok c" "done_ok c" "\<not> cl_shutdown c" "go_lookup (cl_pending c) k = Some i"
  shows "done_ok (finish i v (c\<lparr>cl_pending := go_delete k (cl_pending c)\<rparr>))"
  unfolding done_ok_def
proof (intro allI impI)
  let ?c = "finish i v (c\<lparr>cl_pending := go_delete k (cl_pending c)\<rparr>)"
  fix j assume "j < length (cl_calls ?c)"
  then have j: "j < length (cl_calls c)" by simp
  have i: "i < length (cl_calls c)" "rc_Seq (cl_calls c ! i) = k"
    using assms(1,4) by (auto simp: pending_ok_def)
  have "j = i" if "rc_Seq (cl_calls c ! j) = k" "go_lookup (cl_pending c) k = Some j"
    using that assms(4) by simp
  with assms(2-4) i j show "if \<not> cl_shutdown ?c \<and> go_lookup (cl_pending ?c) (rc_Seq (cl_calls ?c ! j)) = Some j
      then rc_Done (cl_calls ?c ! j) = [] else length (rc_Done (cl_calls ?c ! j)) = 1"
    by (auto simp: done_ok_def rc_Done_finish split: if_splits)
qed

lemma done_ok_absent:
  assumes "done_ok c" "go_lookup (cl_pending c) k = None"
  shows "done_ok (c\<lparr>cl_pending := go_delete k (cl_pending c)\<rparr>)"
  using assms by (auto simp: done_ok_def)

lemma inv_complete:
  assumes "rpc_inv c" "\<not> cl_shutdown c"
  shows "rpc_inv (let c' = c\<lparr>cl_pending := go_delete k (cl_pending c)\<rparr>
    in case go_lookup (cl_pending c) k of None \<Rightarrow> c' | Some i \<Rightarrow> finish i v c')"
  using assms done_ok_complete [of c k _ v] done_ok_absent [of c k] pending_ok_delete [of c k]
    pending_ok_finish [of "c\<lparr>cl_pending := go_delete k (cl_pending c)\<rparr>" _ v]
  by (auto simp: rpc_inv_def calls_ok_def Let_def split: option.splits)

lemma calls_ok_sendBegin:
  assumes "calls_ok c" "Suc (length (cl_calls c)) < 2 ^ 64 - 1"
  shows "calls_ok (sendBegin meth args c)"
proof -
  let ?c = "sendBegin meth args c"
  from assms(1) have seq: "unat (cl_seq c) \<le> Suc (length (cl_calls c))" and ok: "pending_ok c" "done_ok c"
    by (auto simp: calls_ok_def)
  show ?thesis
  proof (cases "cl_shutdown c \<or> cl_closing c")
    case True
    have "go_lookup (cl_pending c) k \<noteq> Some (length (cl_calls c))" for k
      using ok(1) by (auto simp: pending_ok_def)
    with True seq ok show ?thesis
      by (auto simp: calls_ok_def sendBegin_def pending_ok_def done_ok_def nth_append less_Suc_eq)
  next
    case False
    have next_seq: "unat (cl_seq c + 1) = Suc (unat (cl_seq c))"
      using seq assms(2) by (simp add: unat_word_ariths)
    have fresh: "go_lookup (cl_pending c) (cl_seq c) = None"
      using ok(1) by (cases "go_lookup (cl_pending c) (cl_seq c)") (auto simp: pending_ok_def)
    have "pending_ok ?c"
      using False ok(1) next_seq
      by (auto simp: sendBegin_def pending_ok_def gomap.invar_update nth_append less_Suc_eq split: if_splits)
    moreover have "done_ok ?c"
      using False ok(2) fresh
      by (auto simp: sendBegin_def done_ok_def nth_append less_Suc_eq split: if_splits)
    ultimately show ?thesis using False seq next_seq by (simp add: calls_ok_def sendBegin_def)
  qed
qed

lemma inv_sendBegin:
  assumes "rpc_inv c" "cl_writing c = None"
  shows "rpc_inv (sendBegin meth args c)"
proof -
  have "length (cl_calls (sendBegin meth args c)) = Suc (length (cl_calls c))"
    by (simp add: sendBegin_def)
  moreover have "cl_shutdown (sendBegin meth args c) \<longrightarrow> cl_writing (sendBegin meth args c) = None"
    using assms(2) by (simp add: sendBegin_def)
  ultimately show ?thesis
    using assms(1) calls_ok_sendBegin [of c meth args] by (simp add: rpc_inv_def)
qed

lemma inv_sendEnd:
  assumes "rpc_inv c" "cl_writing c \<noteq> None"
  shows "rpc_inv (sendEnd err c)"
proof -
  obtain s i where w: "cl_writing c = Some (s, i)" using assms(2) by (metis not_None_eq surj_pair)
  show ?thesis
  proof (cases err)
    case None
    have "core (sendEnd err c) = core c" "cl_writing (sendEnd err c) = None"
      using None w by (simp_all add: sendEnd_def core_def)
    then show ?thesis using assms(1) by (intro rpc_inv_core [of "sendEnd err c" c]) simp_all
  next
    case (Some e)
    let ?d = "c\<lparr>cl_writing := None\<rparr>"
    have "rpc_inv ?d" using assms(1) by (intro rpc_inv_core [of ?d c]) (simp_all add: core_def)
    moreover have "\<not> cl_shutdown ?d" using assms by (auto simp: rpc_inv_def)
    moreover have "sendEnd err c = (let c' = ?d\<lparr>cl_pending := go_delete s (cl_pending ?d)\<rparr>
        in case go_lookup (cl_pending ?d) s of None \<Rightarrow> c' | Some k \<Rightarrow> finish k (Err e) c')"
      using Some w by (simp add: sendEnd_def Let_def)
    ultimately show ?thesis using inv_complete [of ?d s "Err e"] by simp
  qed
qed

lemma inv_receive:
  assumes "rpc_inv c" "\<not> cl_shutdown c" "receive j c = (r, c')"
  shows "rpc_inv c' \<and> \<not> cl_shutdown c'"
proof -
  obtain hdr k where h: "ReadHeader j (cl_codec c) = (hdr, k)" by fastforce
  let ?d = "c\<lparr>cl_codec := k\<rparr>"
  have d: "rpc_inv ?d" "\<not> cl_shutdown ?d"
    using assms(1,2) by (auto intro!: rpc_inv_core [of ?d c] simp: core_def)
  show ?thesis
  proof (cases hdr)
    case (Ok rr)
    obtain req resp where rr: "rr = (req, resp)" by fastforce
    show ?thesis
    proof (cases "rq_Method req = ''''")
      case True
      have "c' = readResponse resp ?d"
        using assms(3) h Ok rr True by (simp add: receive_def Let_def)
      also have "rpc_inv \<dots> \<and> \<not> cl_shutdown \<dots>"
        using inv_complete [OF d, of "rs_Seq resp"] d(2)
        by (auto simp: readResponse_def Let_def split: option.splits)
      finally show ?thesis .
    next
      case False
      have c': "readRequest_rpc req ?d = (r, c')"
        using assms(3) h Ok rr False by (simp add: receive_def Let_def)
      then have "core c' = core ?d \<and> cl_writing c' = cl_writing ?d"
        using respond_frame [of _ _ ?d]
        by (auto simp: readRequest_rpc_def core_def split: if_splits go.splits) (metis snd_conv)+
      with d show ?thesis by (auto intro!: rpc_inv_core [of c' ?d] simp: core_def)
    qed
  qed (use assms(3) h d in \<open>auto simp: receive_def\<close>)
qed

lemma fold_finish_frame:
  "length (cl_calls (fold (\<lambda>(_, k). finish k v) kvs c)) = length (cl_calls c) \<and>
   cl_seq (fold (\<lambda>(_, k). finish k v) kvs c) = cl_seq c \<and>
   cl_pending (fold (\<lambda>(_, k). finish k v) kvs c) = cl_pending c \<and>
   cl_shutdown (fold (\<lambda>(_, k). finish k v) kvs c) = cl_shutdown c \<and>
   cl_writing (fold (\<lambda>(_, k). finish k v) kvs c) = cl_writing c"
  by (induction kvs arbitrary: c) (simp_all add: case_prod_unfold)

lemma fold_finish_nth:
  assumes "distinct (map snd kvs)" "j < length (cl_calls c)"
  shows "rc_Done (cl_calls (fold (\<lambda>(_, k). finish k v) kvs c) ! j) =
      rc_Done (cl_calls c ! j) @ (if j \<in> set (map snd kvs) then [v] else []) \<and>
    rc_Seq (cl_calls (fold (\<lambda>(_, k). finish k v) kvs c) ! j) = rc_Seq (cl_calls c ! j)"
  using assms
proof (induction kvs arbitrary: c)
  case (Cons p kvs)
  obtain k i where p: "p = (k, i)" by fastforce
  from Cons.prems have "distinct (map snd kvs)" "i \<notin> set (map snd kvs)" "j < length (cl_calls (finish i v c))"
    by (simp_all add: p)
  with Cons.IH [of "finish i v c"] Cons.prems(2) show ?case by (simp add: p rc_Done_finish)
qed simp

lemma pending_values:
  assumes "pending_ok c"
  shows "distinct (map snd (cl_pending c))"
    and "j \<in> set (map snd (cl_pending c)) \<longleftrightarrow>
      j < length (cl_calls c) \<and> go_lookup (cl_pending c) (rc_Seq (cl_calls c ! j)) = Some j"
proof -
  have mem: "(k, i) \<in> set (cl_pending c) \<longleftrightarrow> go_lookup (cl_pending c) k = Some i" for k i
    using assms go_lookup_in_set in_set_go_lookup unfolding pending_ok_def by metis
  have val: "(k, i) \<in> set (cl_pending c) \<Longrightarrow> i < length (cl_calls c) \<and> rc_Seq (cl_calls c ! i) = k" for k i
    using assms unfolding mem pending_ok_def by blast
  have "distinct (cl_pending c)"
    using assms by (simp add: pending_ok_def wf_gomap_def distinct_map)
  moreover have "inj_on snd (set (cl_pending c))"
    by (rule inj_onI) (metis prod.collapse val)
  ultimately show "distinct (map snd (cl_pending c))" by (simp add: distinct_map)
  show "j \<in> set (map snd (cl_pending c)) \<longleftrightarrow>
      j < length (cl_calls c) \<and> go_lookup (cl_pending c) (rc_Seq (cl_calls c ! j)) = Some j"
    using mem val by (auto simp: image_iff) (metis mem snd_conv)
qed

lemma terminate_frame:
  "length (cl_calls (terminate e c)) = length (cl_calls c)" "cl_seq (terminate e c) = cl_seq c"
  "cl_pending (terminate e c) = cl_pending c" "cl_shutdown (terminate e c)"
  "cl_writing (terminate e c) = cl_writing c"
  using fold_finish_frame [of "Err e" "cl_pending c" "c\<lparr>cl_shutdown := True\<rparr>"]
  by (simp_all add: terminate_def)

lemma terminate_nth:
  assumes "pending_ok c" "j < length (cl_calls c)"
  shows "rc_Seq (cl_calls (terminate e c) ! j) = rc_Seq (cl_calls c ! j)"
    and "rc_Done (cl_calls (terminate e c) ! j) = rc_Done (cl_calls c ! j) @
      (if go_lookup (cl_pending c) (rc_Seq (cl_calls c ! j)) = Some j then [Err e] else [])"
  using fold_finish_nth [OF pending_values(1) [OF assms(1)], of j "c\<lparr>cl_shutdown := True\<rparr>" "Err e"]
    pending_values(2) [OF assms(1), of j] assms(2)
  by (simp_all add: terminate_def)

lemma inv_terminate:
  assumes "rpc_inv c" "\<not> cl_shutdown c" "cl_writing c = None"
  shows "rpc_inv (terminate e c)"
proof -
  have "calls_ok (terminate e c)" if "calls_ok c"
  proof -
    from that have ok: "pending_ok c" "done_ok c" by (auto simp: calls_ok_def)
    have "pending_ok (terminate e c)"
      using ok(1) terminate_nth(1) [OF ok(1)] by (auto simp: pending_ok_def terminate_frame)
    moreover have "length (rc_Done (cl_calls (terminate e c) ! j)) = 1" if "j < length (cl_calls c)" for j
      using ok(2) that assms(2) terminate_nth(2) [OF ok(1) that, of e] by (auto simp: done_ok_def split: if_splits)
    then have "done_ok (terminate e c)" by (simp add: done_ok_def terminate_frame)
    ultimately show ?thesis using that by (simp add: calls_ok_def terminate_frame)
  qed
  then show ?thesis using assms by (simp add: rpc_inv_def terminate_frame)
qed

lemma rpc_inv_step: "rpc_step c c' \<Longrightarrow> rpc_inv c \<Longrightarrow> rpc_inv c'"
proof (induction rule: rpc_step.induct)
  case (handled c p meth args seq q errmsg reply)
  let ?d = "c\<lparr>cl_running := p @ q\<rparr>"
  have d: "rpc_inv ?d" using handled.prems by (intro rpc_inv_core [of ?d c]) (auto simp: core_def rpc_inv_def)
  have "core (handlerDone seq errmsg reply ?d) = core ?d \<and> cl_writing (handlerDone seq errmsg reply ?d) = cl_writing ?d"
    using respond_frame by (simp add: handlerDone_def)
  with d show ?case by (intro rpc_inv_core [of "handlerDone seq errmsg reply ?d" ?d]) (auto simp: core_def rpc_inv_def)
next
  case (close c)
  then show ?case by (intro rpc_inv_core [of "Close c" c]) (auto simp: Close_def core_def rpc_inv_def)
next
  case (notify c meth args err)
  have "core (snd (Notify meth args err c)) = core c \<and> cl_writing (snd (Notify meth args err c)) = None"
    using notify.hyps by (auto simp: Notify_def core_def split: option.splits)
  then show ?case using notify.prems by (intro rpc_inv_core [of "snd (Notify meth args err c)" c]) auto
next
  case (broken c j e c')
  then show ?case using inv_receive [of c j "Err e" c'] inv_terminate by blast
next
  case (message c j c')
  then show ?case using inv_receive [of c j "Ok ()" c'] by blast
qed (auto intro: inv_sendBegin inv_sendEnd inv_terminate)

lemma rpc_inv_reachable: "rpc_reachable c \<Longrightarrow> rpc_inv c"
proof (induction rule: rpc_reachable.induct)
  case (start hs)
  then show ?case
    by (simp add: rpc_inv_def calls_ok_def pending_ok_def done_ok_def NewClientWithCodec_def wf_gomap_def)
qed (rule rpc_inv_step)

text \<open>The end of the read loop is final, and calls after it fail at once.\<close>

lemma shutdown_step:
  assumes "rpc_step c c'" "cl_shutdown c" "cl_writing c = None"
  shows "cl_shutdown c' \<and> cl_writing c' = None \<and> (\<exists>new. cl_calls c' = cl_calls c @ new \<and>
    list_all (\<lambda>k. rc_Done k = [Err ErrShutdown]) new)"
  using assms
proof cases
  case (handled p meth args seq q errmsg reply)
  then show ?thesis
    using assms respond_frame [of "\<lparr>rs_Seq = seq, rs_Error = errmsg\<rparr>" reply "c\<lparr>cl_running := p @ q\<rparr>"]
    by (auto simp: handlerDone_def core_def)
next
  case (notify meth args err)
  then show ?thesis using assms by (simp add: Notify_def)
qed (use assms in \<open>auto simp: sendBegin_def Close_def\<close>)

lemma shutdown_steps:
  assumes "rpc_step\<^sup>*\<^sup>* c c'" "cl_shutdown c" "cl_writing c = None"
  shows "cl_shutdown c' \<and> cl_writing c' = None \<and> (\<exists>new. cl_calls c' = cl_calls c @ new \<and>
    list_all (\<lambda>k. rc_Done k = [Err ErrShutdown]) new)"
  using assms
proof (induction rule: rtranclp_induct)
  case (step d e)
  then obtain new where d: "cl_shutdown d" "cl_writing d = None" "cl_calls d = cl_calls c @ new"
    "list_all (\<lambda>k. rc_Done k = [Err ErrShutdown]) new" by blast
  obtain more where "cl_shutdown e" "cl_writing e = None" "cl_calls e = cl_calls d @ more"
    "list_all (\<lambda>k. rc_Done k = [Err ErrShutdown]) more"
    using shutdown_step [OF step.hyps(2) d(1,2)] by blast
  with d show ?case by (intro conjI exI [of _ "new @ more"]) simp_all
qed auto

lemma can_shut_down: "\<exists>c'. rpc_step\<^sup>*\<^sup>* c c' \<and> cl_shutdown c'"
proof (cases "cl_shutdown c")
  case False
  define d where "d = (if cl_writing c = None then c else sendEnd None c)"
  have "rpc_step\<^sup>*\<^sup>* c d" using rpc_step.written [of c None] by (auto simp: d_def)
  moreover have "\<not> cl_shutdown d" "cl_writing d = None"
    using False by (auto simp: d_def sendEnd_def split: option.splits)
  then have "rpc_step d (terminate (loopError None d) d)" by (rule rpc_step.ended)
  ultimately show ?thesis using terminate_frame(4) by (meson rtranclp.rtrancl_into_rtrancl)
qed auto

lemma rpc_reachable_steps: "rpc_step\<^sup>*\<^sup>* c c' \<Longrightarrow> rpc_reachable c \<Longrightarrow> rpc_reachable c'"
  by (induction rule: rtranclp_induct) (auto intro: rpc_reachable.step)

lemma readResponse_changes:
  assumes "i < length (cl_calls c)" "cl_calls (readResponse resp c) ! i \<noteq> cl_calls c ! i"
  shows "go_lookup (cl_pending c) (rs_Seq resp) = Some i"
  using assms
  by (auto simp: readResponse_def Let_def finish_def split: option.splits if_splits)
    (metis nth_list_update_neq)+

lemma readRequest_calls: "cl_calls (snd (readRequest_rpc req c)) = cl_calls c"
  using respond_frame [of _ _ c]
  by (auto simp: readRequest_rpc_def core_def split: go.splits)

lemma ReadHeader_response:
  assumes "ReadHeader j k = (Ok (req, resp), k')" "rq_Method req = ''''"
  shows "\<exists>msg n. decodeMessage j = Ok msg \<and> msg_Method msg = '''' \<and> msg_Id msg = Some n \<and>
    decUint64 n = Ok (rs_Seq resp)"
  using assms by (auto simp: ReadHeader_def Let_def split: go.splits option.splits if_splits gov.splits)

section \<open>Properties\<close>

text \<open>A client that has sent one call, and the documents a server may answer it with.\<close>

definition lab_rpc :: rpc_client where
  "lab_rpc = sendEnd None (sendBegin ''list_dbs'' (Single JNull) (NewClientWithCodec [''echo'', ''update'']))"

definition lab_reply :: json where
  "lab_reply = JObj [(''id'', JNum ''1''), (''result'', JArr [JString ''Open_vSwitch'']), (''error'', JNull)]"

definition lab_refusal :: json where
  "lab_refusal = JObj [(''id'', JNum ''1''), (''result'', JNull),
     (''error'', JObj [(''error'', JString ''unknown database'')])]"

lemma lab_rpc_calls: "length (cl_calls lab_rpc) = 1"
  by code_simp

lemma lab_rpc_reachable: "rpc_reachable lab_rpc"
proof -
  let ?c = "NewClientWithCodec [''echo'', ''update'']"
  have "rpc_step ?c (sendBegin ''list_dbs'' (Single JNull) ?c)"
    by (rule rpc_step.send) (simp add: NewClientWithCodec_def)
  then have "rpc_reachable (sendBegin ''list_dbs'' (Single JNull) ?c)"
    using rpc_reachable.start rpc_reachable.step by blast
  moreover have "rpc_step (sendBegin ''list_dbs'' (Single JNull) ?c) lab_rpc"
    unfolding lab_rpc_def by (rule rpc_step.written) (simp add: sendBegin_def NewClientWithCodec_def)
  ultimately show ?thesis by (rule rpc_reachable.step)
qed

text \<open>C14. Every call on the connection is completed at most once, whatever the server sends and in
  whatever order calls, responses, failed writes and the end of the connection come; it is
  outstanding exactly while it is registered; and when the read loop has ended no call is left
  waiting.\<close>

theorem rpc_exactly_once:
  assumes "rpc_reachable c" "length (cl_calls c) < 2 ^ 64 - 1" "i < length (cl_calls c)"
  shows "length (rc_Done (cl_calls c ! i)) \<le> 1 \<and>
    (rc_Done (cl_calls c ! i) = [] \<longleftrightarrow>
       \<not> cl_shutdown c \<and> go_lookup (cl_pending c) (rc_Seq (cl_calls c ! i)) = Some i)"
  using rpc_inv_reachable [OF assms(1)] assms(2,3)
  by (auto simp: rpc_inv_def calls_ok_def done_ok_def split: if_splits)

theorem rpc_exactly_once_witness:
  "rc_Done (cl_calls lab_rpc ! 0) = [] \<and> go_lookup (cl_pending lab_rpc) 1 = Some 0"
proof -
  have "length (cl_calls lab_rpc) = 1" "rc_Seq (cl_calls lab_rpc ! 0) = 1" "\<not> cl_shutdown lab_rpc"
    "go_lookup (cl_pending lab_rpc) 1 = Some 0"
    by code_simp+
  with rpc_exactly_once [OF lab_rpc_reachable, of 0] show ?thesis by simp
qed

text \<open>C15. A document that the server sends completes no call but the one it names: the call whose
  own sequence number is the id of the response.\<close>

theorem rpc_reply_matches:
  assumes "rpc_reachable c" "length (cl_calls c) < 2 ^ 64 - 1" "receive j c = (r, c')"
    and "i < length (cl_calls c)" "cl_calls c' ! i \<noteq> cl_calls c ! i"
  shows "r = Ok () \<and> (\<exists>msg n. decodeMessage j = Ok msg \<and> msg_Method msg = '''' \<and> msg_Id msg = Some n \<and>
    decUint64 n = Ok (rc_Seq (cl_calls c ! i)) \<and> length (rc_Done (cl_calls c' ! i)) = Suc (length (rc_Done (cl_calls c ! i))))"
proof -
  have ok: "pending_ok c"
    using rpc_inv_reachable [OF assms(1)] assms(2) by (simp add: rpc_inv_def calls_ok_def)
  obtain hdr k where h: "ReadHeader j (cl_codec c) = (hdr, k)" by fastforce
  obtain req resp where hdr: "hdr = Ok (req, resp)"
    using assms(3,5) h by (cases hdr) (auto simp: receive_def)
  let ?d = "c\<lparr>cl_codec := k\<rparr>"
  have meth: "rq_Method req = ''''"
  proof (rule ccontr)
    assume "rq_Method req \<noteq> ''''"
    with assms(3) h hdr have "readRequest_rpc req ?d = (r, c')" by (simp add: receive_def Let_def)
    with readRequest_calls [of req ?d] assms(5) show False by simp
  qed
  with assms(3) h hdr have c': "r = Ok ()" "c' = readResponse resp ?d" by (auto simp: receive_def Let_def)
  have "go_lookup (cl_pending ?d) (rs_Seq resp) = Some i"
    using assms(4,5) c' by (intro readResponse_changes) simp_all
  with ok have "rc_Seq (cl_calls c ! i) = rs_Seq resp" by (auto simp: pending_ok_def)
  moreover have "length (rc_Done (cl_calls c' ! i)) = Suc (length (rc_Done (cl_calls c ! i)))"
    using \<open>go_lookup (cl_pending ?d) (rs_Seq resp) = Some i\<close> assms(4)
    by (auto simp: c' readResponse_def Let_def rc_Done_finish)
  ultimately show ?thesis using ReadHeader_response [of j "cl_codec c" req resp k] h hdr meth c'(1) by auto
qed

theorem rpc_reply_matches_witness:
  "rc_Done (cl_calls (snd (receive lab_reply lab_rpc)) ! 0) = [Ok (JArr [JString ''Open_vSwitch''])] \<and>
   (\<exists>n. decUint64 n = Ok (rc_Seq (cl_calls lab_rpc ! 0)))"
proof -
  have len: "length (cl_calls lab_rpc) = 1" by code_simp
  have new: "rc_Done (cl_calls (snd (receive lab_reply lab_rpc)) ! 0) = [Ok (JArr [JString ''Open_vSwitch''])]"
    "rc_Done (cl_calls lab_rpc ! 0) = []" by code_simp+
  then have "cl_calls (snd (receive lab_reply lab_rpc)) ! 0 \<noteq> cl_calls lab_rpc ! 0" by auto
  with rpc_reply_matches [where j = lab_reply and i = 0, OF lab_rpc_reachable _ surjective_pairing] len new
  show ?thesis by auto
qed

text \<open>C16. No call waits for ever once the connection is gone. The connection can end in every state;
  from then on it stays ended, the calls that were made keep the one outcome they have, and every
  later call is completed at once with the error that the connection is shut down. The plugin
  never makes a new connection, so this is the state the driver remains in.\<close>

theorem rpc_shutdown_final:
  assumes "rpc_reachable c" "cl_shutdown c" "rpc_step\<^sup>*\<^sup>* c c'" "length (cl_calls c) < 2 ^ 64 - 1"
  shows "(\<forall>d. \<exists>d'. rpc_step\<^sup>*\<^sup>* d d' \<and> cl_shutdown d') \<and> cl_shutdown c' \<and> (\<forall>i < length (cl_calls c').
    if i < length (cl_calls c) then cl_calls c' ! i = cl_calls c ! i \<and> length (rc_Done (cl_calls c' ! i)) = 1
    else rc_Done (cl_calls c' ! i) = [Err ErrShutdown])"
proof -
  have inv: "cl_writing c = None" "done_ok c"
    using rpc_inv_reachable [OF assms(1)] assms(2,4) by (auto simp: rpc_inv_def calls_ok_def)
  from shutdown_steps [OF assms(3,2) inv(1)] obtain new where
    "cl_shutdown c'" "cl_calls c' = cl_calls c @ new" "list_all (\<lambda>k. rc_Done k = [Err ErrShutdown]) new" by blast
  with inv(2) assms(2) can_shut_down show ?thesis by (auto simp: done_ok_def nth_append list_all_length)
qed

theorem rpc_shutdown_final_witness:
  "\<exists>c. rpc_step\<^sup>*\<^sup>* lab_rpc c \<and> cl_shutdown c \<and> length (rc_Done (cl_calls c ! 0)) = 1 \<and>
     rc_Done (cl_calls (sendBegin ''echo'' (Positional []) c) ! 1) = [Err ErrShutdown]"
proof -
  define c where "c = terminate (loopError None lab_rpc) lab_rpc"
  have w: "\<not> cl_shutdown lab_rpc" "cl_writing lab_rpc = None" by code_simp+
  then have "rpc_step lab_rpc c" unfolding c_def by (rule rpc_step.ended)
  moreover have "cl_writing c = None" using w by (simp add: c_def terminate_frame)
  then have "rpc_step\<^sup>*\<^sup>* c (sendBegin ''echo'' (Positional []) c)" by (blast intro: rpc_step.send)
  moreover have c: "cl_shutdown c" "length (cl_calls c) = 1"
    by (simp_all add: c_def terminate_frame lab_rpc_calls)
  moreover have "rpc_reachable c" using lab_rpc_reachable \<open>rpc_step lab_rpc c\<close> by (rule rpc_reachable.step)
  moreover have "length (cl_calls (sendBegin ''echo'' (Positional []) c)) = 2"
    using c by (simp add: sendBegin_def)
  ultimately show ?thesis
    using rpc_shutdown_final [of c "sendBegin ''echo'' (Positional []) c"] rpc_shutdown_final [of c c]
    by (intro exI [of _ c]) auto
qed

text \<open>A response whose error is a JSON object, which is how an OVSDB server reports a failed
  method, and a notification of a method without a handler are errors of the read loop: it ends,
  the connection is shut down, and every outstanding call fails.\<close>

lemma rpc_error_object_fatal:
  assumes "decodeMessage j = Ok msg"
    and "msg_Method msg = '''' \<and> msg_Id msg = Some n \<and> is_Ok (decUint64 n) \<and>
        (\<exists>kvs. msg_Error msg = GMap kvs) \<or>
      msg_Method msg \<noteq> '''' \<and> msg_Method msg \<notin> set (cl_handlers c) \<and> msg_Id msg = None \<and>
        go_lookup (cc_pending (cl_codec c)) 0 = None"
  shows "\<exists>e c'. receive j c = (Err e, c') \<and> core c' = core c \<and> cl_shutdown (terminate e c') \<and>
    (pending_ok c \<longrightarrow> (\<forall>i < length (cl_calls c).
       go_lookup (cl_pending c) (rc_Seq (cl_calls c ! i)) = Some i \<longrightarrow>
       rc_Done (cl_calls (terminate e c') ! i) = rc_Done (cl_calls c ! i) @ [Err e]))"
proof -
  have "\<exists>e c'. receive j c = (Err e, c') \<and> core c' = core c"
    using assms
    by (auto simp: receive_def ReadHeader_def readRequest_rpc_def respond_def WriteResponse_def is_Ok_iff
        Let_def core_def)
  then obtain e c' where r: "receive j c = (Err e, c')" "core c' = core c" by blast
  then have same: "cl_pending c' = cl_pending c" "cl_calls c' = cl_calls c" by (simp_all add: core_def)
  have "pending_ok c \<Longrightarrow> pending_ok c'" using r(2) by (simp add: pending_ok_def core_def)
  with r same terminate_nth(2) [of c' _ e] terminate_frame(4) [of e c'] show ?thesis by auto
qed

end
