(* ===== verification/Ovs_Session.thy ===== *)
theory Ovs_Session
  imports Rpc2 Ovs_Monitor
begin

text \<open>
  The connection as a whole: the JSON-RPC client (\<open>Rpc2\<close>), the methods that \<open>libovsdb\<close> offers to
  the server on it (\<open>echo\<close> and \<open>update\<close> of \<open>client.go\<close>), its table \<open>connections\<close>, and the plugin
  that is notified.

  The session is that of one connection. \<open>ss_registered\<close> is its entry in \<open>connections\<close>: the number
  of the notification handlers, or \<open>None\<close> when the entry has been deleted. All handlers are the
  plugin's \<open>OvsdbNotifier\<close>; its \<open>Echo\<close> and \<open>Disconnected\<close> are empty, the calls of the latter are
  counted in \<open>ss_disconnects\<close>.
\<close>

section \<open>State\<close>

record 'w session =
  ss_client :: rpc_client
  ss_registered :: "nat option"
  ss_disconnects :: nat
  ss_plugin :: "'w plugin"

text \<open>What \<open>Connect\<close> has made before it asks for the databases.\<close>

definition newSession :: "'w plugin \<Rightarrow> 'w session" where
  "newSession p = \<lparr>ss_client = NewClientWithCodec [''echo'', ''update''], ss_registered = Some 0,
     ss_disconnects = 0, ss_plugin = p\<rparr>"

definition registerHandler :: "'w session \<Rightarrow> 'w session" where
  "registerHandler s = s\<lparr>ss_registered := map_option Suc (ss_registered s)\<rparr>"

section \<open>Methods of the client\<close>

definition echo :: "json list \<Rightarrow> 'w session \<Rightarrow> json \<times> 'w session" where
  "echo args s = (JArr args, s)"

definition onPlugin :: "('w plugin, 'a) gom \<Rightarrow> ('w session, 'a) gom" where
  "onPlugin m s = (case m (ss_plugin s) of (r, p) \<Rightarrow> (r, s\<lparr>ss_plugin := p\<rparr>))"

definition update :: "('w, 'z) env_scheme \<Rightarrow> json list \<Rightarrow> ('w session, unit) gom" where
  "update env params = bindG (liftG (update_notification params)) (\<lambda>tableUpdates s.
     case ss_registered s of
       None \<Rightarrow> (Ok (), s)
     | Some n \<Rightarrow> forEachG (\<lambda>_. onPlugin (notifierUpdate env tableUpdates)) (replicate n ()) s)"

text \<open>The goroutine of a request: the method, then the answer to the server.\<close>

definition runHandler :: "('w, 'z) env_scheme \<Rightarrow> string \<times> json list \<times> 64 word \<Rightarrow> ('w session, unit) gom" where
  "runHandler env h s = (case h of (meth, args, seq) \<Rightarrow>
     let answer = (\<lambda>err reply t. t\<lparr>ss_client := handlerDone seq err reply (ss_client t)\<rparr>) in
     if meth = ''echo'' then (case echo args s of (reply, t) \<Rightarrow> (Ok (), answer '''' reply t))
     else (case update env args s of
         (Ok _, t) \<Rightarrow> (Ok (), answer '''' JNull t)
       | (Err e, t) \<Rightarrow> (Ok (), answer (errText e) JNull t)
       | (Panic p, t) \<Rightarrow> (Panic p, t)
       | (Fatal m, t) \<Rightarrow> (Fatal m, t)))"

section \<open>The end of the connection\<close>

definition clearConnection :: "'w session \<Rightarrow> 'w session" where
  "clearConnection s = (case ss_registered s of
       None \<Rightarrow> s
     | Some n \<Rightarrow> s\<lparr>ss_disconnects := ss_disconnects s + n, ss_registered := None\<rparr>)"

definition Disconnect :: "'w session \<Rightarrow> 'w session" where
  "Disconnect s = clearConnection (s\<lparr>ss_client := Close (ss_client s)\<rparr>)"

section \<open>Runs\<close>

inductive session_step :: "('w, 'z) env_scheme \<Rightarrow> 'w session \<Rightarrow> 'w session \<Rightarrow> bool"
  for env :: "('w, 'z) env_scheme" where
  call: "cl_writing (ss_client s) = None \<Longrightarrow>
    session_step env s (s\<lparr>ss_client := sendBegin meth args (ss_client s)\<rparr>)"
| written: "cl_writing (ss_client s) \<noteq> None \<Longrightarrow> session_step env s (s\<lparr>ss_client := sendEnd err (ss_client s)\<rparr>)"
| message: "\<not> cl_shutdown (ss_client s) \<Longrightarrow> receive j (ss_client s) = (Ok (), c) \<Longrightarrow>
    session_step env s (s\<lparr>ss_client := c\<rparr>)"
| broken: "\<not> cl_shutdown (ss_client s) \<Longrightarrow> receive j (ss_client s) = (Err e, c) \<Longrightarrow> cl_writing c = None \<Longrightarrow>
    session_step env s (s\<lparr>ss_client := terminate e c\<rparr>)"
| ended: "\<not> cl_shutdown (ss_client s) \<Longrightarrow> cl_writing (ss_client s) = None \<Longrightarrow>
    session_step env s (s\<lparr>ss_client := terminate (loopError e (ss_client s)) (ss_client s)\<rparr>)"
| handled: "cl_running (ss_client s) = p @ h # q \<Longrightarrow>
    runHandler env h (s\<lparr>ss_client := (ss_client s)\<lparr>cl_running := p @ q\<rparr>\<rparr>) = (Ok (), s') \<Longrightarrow> session_step env s s'"
| register: "session_step env s (registerHandler s)"
| noticed: "cl_shutdown (ss_client s) \<Longrightarrow> session_step env s (clearConnection s)"
| disconnect: "session_step env s (Disconnect s)"
| outside: "session_step env s (s\<lparr>ss_plugin := p\<rparr>)"

inductive session_reachable :: "('w, 'z) env_scheme \<Rightarrow> 'w session \<Rightarrow> bool"
  for env :: "('w, 'z) env_scheme" where
  start: "session_reachable env (newSession p)"
| step: "session_reachable env s \<Longrightarrow> session_step env s s' \<Longrightarrow> session_reachable env s'"

section \<open>The session refines the client\<close>

definition same_connection :: "'w session \<Rightarrow> 'w session \<Rightarrow> bool" where
  "same_connection s t \<longleftrightarrow> ss_client t = ss_client s \<and> ss_registered t = ss_registered s \<and>
     ss_disconnects t = ss_disconnects s"

lemma keepsG_onPlugin: "keepsG (same_connection s0) (onPlugin m)"
  by (auto simp: keepsG_def onPlugin_def same_connection_def split: prod.splits)

lemma update_connection: "same_connection s (snd (update env params s))"
proof -
  have "keepsG (same_connection s) (forEachG (\<lambda>_. onPlugin (notifierUpdate env us)) xs)"
    for us and xs :: "unit list"
    by (intro keeps_intros keepsG_onPlugin)
  then have "same_connection s (snd (forEachG (\<lambda>_. onPlugin (notifierUpdate env us)) xs s))"
    for us and xs :: "unit list"
    by (rule keepsG_D) (simp add: same_connection_def)
  then show ?thesis
    by (auto simp: update_def bindG_def tryG_def liftG_def failG_def same_connection_def split: go.splits option.splits)
qed

lemma runHandler_client:
  assumes "runHandler env (meth, args, seq) s = (Ok (), s')"
  shows "\<exists>err reply. ss_client s' = handlerDone seq err reply (ss_client s) \<and>
    ss_registered s' = ss_registered s \<and> ss_disconnects s' = ss_disconnects s"
  using assms update_connection [of s env args]
  by (auto simp: runHandler_def Let_def echo_def same_connection_def split: if_splits prod.splits go.splits) blast+

lemma session_step_client: "session_step env s s' \<Longrightarrow> rpc_step\<^sup>=\<^sup>= (ss_client s) (ss_client s')"
proof (induction rule: session_step.induct)
  case (handled s p h q s')
  obtain meth args seq where h: "h = (meth, args, seq)" by (cases h)
  obtain err reply where "ss_client s' = handlerDone seq err reply ((ss_client s)\<lparr>cl_running := p @ q\<rparr>)"
    using runHandler_client [OF handled(2) [unfolded h]] by auto
  with handled(1) h show ?case using rpc_step.handled [of "ss_client s" p meth args seq q err reply] by simp
next
  case (disconnect s)
  then show ?case using rpc_step.close [of "ss_client s"]
    by (auto simp: Disconnect_def clearConnection_def split: option.splits)
qed (auto intro: rpc_step.intros simp: registerHandler_def clearConnection_def split: option.splits)

lemma session_client_reachable: "session_reachable env s \<Longrightarrow> rpc_reachable (ss_client s)"
proof (induction rule: session_reachable.induct)
  case (start p)
  then show ?case by (simp add: newSession_def rpc_reachable.start)
next
  case (step s s')
  then show ?case using session_step_client [of env s s'] by (auto intro: rpc_reachable.step)
qed

definition session_inv :: "'w session \<Rightarrow> bool" where
  "session_inv s \<longleftrightarrow> (ss_registered s \<noteq> None \<longrightarrow> ss_disconnects s = 0)"

lemma session_step_registered:
  assumes "session_step env s s'"
  shows "(ss_registered s = None \<longrightarrow> ss_registered s' = None \<and> ss_disconnects s' = ss_disconnects s) \<and>
    (session_inv s \<longrightarrow> session_inv s')"
  using assms
proof cases
  case (handled p h q)
  obtain meth args seq where h: "h = (meth, args, seq)" by (cases h)
  show ?thesis using runHandler_client [OF handled(2) [unfolded h]] by (auto simp: session_inv_def)
qed (auto simp: registerHandler_def clearConnection_def Disconnect_def session_inv_def split: option.splits)

lemma session_steps_cleared:
  assumes "(session_step env)\<^sup>*\<^sup>* s s'" "ss_registered s = None"
  shows "ss_registered s' = None \<and> ss_disconnects s' = ss_disconnects s"
  using assms(1)
proof (induction rule: rtranclp_induct)
  case (step t u)
  with session_step_registered [OF step.hyps(2)] show ?case by simp
qed (simp add: assms(2))

lemma session_inv_reachable: "session_reachable env s \<Longrightarrow> session_inv s"
proof (induction rule: session_reachable.induct)
  case (step s s')
  then show ?case using session_step_registered [of env s s'] by blast
qed (simp add: session_inv_def newSession_def)

lemma ovsdbCache_monitorUpdate: "ovsdbCache (snd (monitorUpdate env us p)) = ovsdbCache p"
  using keepsG_D [OF keepsG_monitorUpdate [of p env us], of p] by (simp add: only_world_def db_state_def)

lemma ovsdbCache_notifier: "ovsdbCache (snd (notifierUpdate env us p)) = populateCache us (ovsdbCache p)"
  using ovsdbCache_monitorUpdate [of env us "p\<lparr>ovsdbCache := populateCache us (ovsdbCache p)\<rparr>"]
  by (simp add: notifierUpdate_def cacheUpdates_def bindG_def tryG_def modifyG_def)

lemma forEachG_single: "forEachG f [x] s = f x s"
  by (simp add: bindG_def tryG_def retG_def failG_def split: go.splits prod.splits)

lemma update_once:
  assumes "wire_updates us" "ss_registered s = Some 1"
  shows "update env [ctx, marshalUpdates us] s = onPlugin (notifierUpdate env us) s"
  using assms(2) update_notification_wire [OF assms(1)] forEachG_single [of "\<lambda>_. onPlugin (notifierUpdate env us)" "()" s]
  by (simp add: update_def liftG_def)

lemma update_cleared:
  "wire_updates us \<Longrightarrow> ss_registered s = None \<Longrightarrow> update env [ctx, marshalUpdates us] s = (Ok (), s)"
  by (simp add: update_def liftG_def update_notification_wire)

lemma ss_plugin_runHandler:
  "meth = ''update'' \<Longrightarrow> ss_plugin (snd (runHandler env (meth, args, seq) s)) = ss_plugin (snd (update env args s))"
  by (auto simp: runHandler_def Let_def split: go.splits prod.splits)

section \<open>Properties\<close>

text \<open>A request of the server as it writes it, and the null id of a notification.\<close>

definition requestDoc :: "string \<Rightarrow> json list \<Rightarrow> json \<Rightarrow> json" where
  "requestDoc meth params i = JObj [(''method'', JString meth), (''params'', JArr params), (''id'', i)]"

lemma decode_requestDoc:
  "decodeMessage (requestDoc meth params i) = Ok \<lparr>msg_Method = meth, msg_Params = Some (JArr params),
     msg_Id = (if i = JNull then None else Some i), msg_Result = None, msg_Error = GNil\<rparr>"
  by (cases i) (simp_all add: decodeMessage_def requestDoc_def go_of_list_def rawMember_def)

lemma receive_request:
  assumes "meth \<noteq> ''''" "meth \<in> set (cl_handlers c)"
  shows "\<exists>c' k. receive (requestDoc meth params i) c = (Ok (), c') \<and> core c' = core c \<and> cl_out c' = cl_out c \<and>
    cl_running c' = cl_running c @ [(meth, params, k)] \<and>
    (if i = JNull then k = 0 else k = cc_seq (cl_codec c) + 1 \<and> go_lookup (cc_pending (cl_codec c')) k = Some i)"
  using assms
  by (auto simp: receive_def ReadHeader_def decode_requestDoc readRequest_rpc_def ReadRequestBody_def core_def Let_def)

text \<open>C17. From the wire to the cache and back: an update notification of the server, in the notation
  of RFC 7047, is accepted without touching any outstanding call, and its handler applies exactly
  the updates it stands for to the plugin's cache, whenever it gets to run; after the connection was
  cleared it changes nothing. An echo request is answered with the id and the parameters it came
  with.\<close>

theorem server_requests_served:
  assumes "wire_updates us" "{''update'', ''echo''} \<subseteq> set (cl_handlers c)" "i \<noteq> JNull"
  shows "(\<exists>c1. receive (requestDoc ''update'' [ctx, marshalUpdates us] JNull) c = (Ok (), c1) \<and> core c1 = core c \<and>
      cl_running c1 = cl_running c @ [(''update'', [ctx, marshalUpdates us], 0)]) \<and>
    (ss_registered s = Some 1 \<longrightarrow>
      ovsdbCache (ss_plugin (snd (runHandler env (''update'', [ctx, marshalUpdates us], 0) s))) =
      populateCache us (ovsdbCache (ss_plugin s))) \<and>
    (ss_registered s = None \<longrightarrow> runHandler env (''update'', [ctx, marshalUpdates us], 0) s = (Ok (), s)) \<and>
    (\<exists>c1 k. receive (requestDoc ''echo'' params i) c = (Ok (), c1) \<and> core c1 = core c \<and>
      cl_running c1 = cl_running c @ [(''echo'', params, k)] \<and>
      (k \<noteq> 0 \<longrightarrow> cl_out (ss_client (snd (runHandler env (''echo'', params, k) (s\<lparr>ss_client := c1\<rparr>)))) =
        cl_out c @ [JObj [(''id'', i), (''result'', JArr params), (''error'', JNull)]]))"
proof (intro conjI impI)
  show "\<exists>c1. receive (requestDoc ''update'' [ctx, marshalUpdates us] JNull) c = (Ok (), c1) \<and> core c1 = core c \<and>
      cl_running c1 = cl_running c @ [(''update'', [ctx, marshalUpdates us], 0)]"
    using receive_request [of "''update''" c "[ctx, marshalUpdates us]" JNull] assms(2) by auto
next
  assume "ss_registered s = Some 1"
  from update_once [OF assms(1) this, of env ctx] ovsdbCache_notifier [of env us "ss_plugin s"]
  show "ovsdbCache (ss_plugin (snd (runHandler env (''update'', [ctx, marshalUpdates us], 0) s))) =
      populateCache us (ovsdbCache (ss_plugin s))"
    by (simp add: ss_plugin_runHandler onPlugin_def split: prod.splits)
next
  assume "ss_registered s = None"
  from update_cleared [OF assms(1) this, of env ctx]
  show "runHandler env (''update'', [ctx, marshalUpdates us], 0) s = (Ok (), s)"
    by (simp add: runHandler_def Let_def handlerDone_def)
next
  show "\<exists>c1 k. receive (requestDoc ''echo'' params i) c = (Ok (), c1) \<and> core c1 = core c \<and>
      cl_running c1 = cl_running c @ [(''echo'', params, k)] \<and>
      (k \<noteq> 0 \<longrightarrow> cl_out (ss_client (snd (runHandler env (''echo'', params, k) (s\<lparr>ss_client := c1\<rparr>)))) =
        cl_out c @ [JObj [(''id'', i), (''result'', JArr params), (''error'', JNull)]])"
    using receive_request [of "''echo''" c params i] assms(2,3)
    by (auto simp: runHandler_def echo_def handlerDone_def respond_def WriteResponse_def)
qed

definition lab_updates :: TableUpdates where
  "lab_updates = [(''Port'', [(''c0ffee'', \<lparr>ru_New = \<lparr>Fields = Some [(''name'', GString ''p1'')]\<rparr>, ru_Old = emptyRow\<rparr>)])]"

definition lab_session :: "lab session" where
  "lab_session = registerHandler (newSession (lab_state lab_plain (lab_world [] [])))"

theorem server_requests_served_witness:
  "ovsdbCache (ss_plugin (snd (runHandler lab_env (''update'', [JNull, marshalUpdates lab_updates], 0) lab_session))) =
     [(''Port'', [(''c0ffee'', \<lparr>Fields = Some [(''name'', GString ''p1'')]\<rparr>)])]"
proof -
  have w: "wire_updates lab_updates"
    by (simp add: lab_updates_def wire_updates_def wire_row_def wf_gomap_def ovs_row_value_def)
  have h: "{''update'', ''echo''} \<subseteq> set (cl_handlers (ss_client lab_session))" "ss_registered lab_session = Some 1"
    by (simp_all add: lab_session_def newSession_def registerHandler_def NewClientWithCodec_def)
  have "populateCache lab_updates (ovsdbCache (ss_plugin lab_session)) =
      [(''Port'', [(''c0ffee'', \<lparr>Fields = Some [(''name'', GString ''p1'')]\<rparr>)])]" by code_simp
  with server_requests_served [OF w h(1), of "JNum ''1''" JNull lab_session lab_env "[]"] h(2) show ?thesis by simp
qed



end
