(* ===== verification/Go_Bytes.thy ===== *)
theory Go_Bytes
  imports Go_Prelude
begin

unbundle bit_operations_syntax

text \<open>
  Numbers and strings as bytes, as Go's \<open>encoding/binary\<close> and its string conversions give them;
  shared by the wire formats of netlink and of D-Bus. \<open>be\<close> is the byte order, \<open>True\<close> for big endian.
\<close>

section \<open>Numbers\<close>

definition fromBE :: "bytes \<Rightarrow> 'a::len word" where
  "fromBE bs = foldl (\<lambda>w b. push_bit 8 w OR ucast b) 0 bs"

definition getNative :: "bool \<Rightarrow> bytes \<Rightarrow> 'a::len word" where
  "getNative be bs = fromBE (if be then bs else rev bs)"

definition put16 :: "bool \<Rightarrow> 16 word \<Rightarrow> bytes" where
  "put16 be w = (let bs = [ucast (drop_bit 8 w), ucast w] in if be then bs else rev bs)"

definition put32 :: "bool \<Rightarrow> 32 word \<Rightarrow> bytes" where
  "put32 be w = (let bs = [ucast (drop_bit 24 w), ucast (drop_bit 16 w), ucast (drop_bit 8 w), ucast w]
     in if be then bs else rev bs)"

definition put64 :: "bool \<Rightarrow> 64 word \<Rightarrow> bytes" where
  "put64 be w = (let bs = [ucast (drop_bit 56 w), ucast (drop_bit 48 w), ucast (drop_bit 40 w), ucast (drop_bit 32 w),
       ucast (drop_bit 24 w), ucast (drop_bit 16 w), ucast (drop_bit 8 w), ucast w]
     in if be then bs else rev bs)"

section \<open>Strings\<close>

definition stringBytes :: "string \<Rightarrow> bytes" where
  "stringBytes s = map (\<lambda>c. of_nat (of_char c)) s"

definition bytesString :: "bytes \<Rightarrow> string" where
  "bytesString bs = map (\<lambda>b. char_of (unat b)) bs"

section \<open>Round trips\<close>

lemma getNative_put16 [simp]: "getNative be (put16 be w) = (w :: 16 word)"
  by (rule bit_word_eqI) (auto simp: getNative_def put16_def fromBE_def Let_def bit_simps)

lemma getNative_put32 [simp]: "getNative be (put32 be w) = (w :: 32 word)"
proof (rule bit_word_eqI)
  fix n assume "n < LENGTH(32)"
  then consider "n < 8" | "8 \<le> n" "n < 16" | "16 \<le> n" "n < 24" | "24 \<le> n" "n < 32" by fastforce
  then show "bit (getNative be (put32 be w) :: 32 word) n = bit w n"
    by cases (auto simp: getNative_def put32_def fromBE_def Let_def bit_simps)
qed

lemma getNative_put64 [simp]: "getNative be (put64 be w) = (w :: 64 word)"
proof -
  have "foldl (\<lambda>w b. push_bit 8 w OR ucast b) 0 [ucast (drop_bit 56 w) :: 8 word, ucast (drop_bit 48 w), ucast (drop_bit 40 w),
      ucast (drop_bit 32 w), ucast (drop_bit 24 w), ucast (drop_bit 16 w), ucast (drop_bit 8 w), ucast w] = w"
  proof (rule bit_word_eqI)
    fix n assume "n < LENGTH(64)"
    then consider "n < 8" | "8 \<le> n" "n < 16" | "16 \<le> n" "n < 24" | "24 \<le> n" "n < 32"
      | "32 \<le> n" "n < 40" | "40 \<le> n" "n < 48" | "48 \<le> n" "n < 56" | "56 \<le> n" "n < 64" by fastforce
    then show "bit (foldl (\<lambda>w b. push_bit 8 w OR ucast b) 0 [ucast (drop_bit 56 w) :: 8 word, ucast (drop_bit 48 w),
        ucast (drop_bit 40 w), ucast (drop_bit 32 w), ucast (drop_bit 24 w), ucast (drop_bit 16 w), ucast (drop_bit 8 w),
        ucast w] :: 64 word) n = bit w n"
      by cases (auto simp: bit_simps)
  qed
  then show ?thesis by (simp add: getNative_def put64_def fromBE_def Let_def)
qed

lemma length_put [simp]: "length (put16 be v) = 2" "length (put32 be w) = 4" "length (put64 be x) = 8"
  by (simp_all add: put16_def put32_def put64_def Let_def)

lemma bytesString_stringBytes [simp]: "bytesString (stringBytes s) = s"
  by (simp add: bytesString_def stringBytes_def unat_of_nat o_def take_bit_eq_mod)

section \<open>Streams of frames\<close>

text \<open>
  A reader that takes one frame from the front of a stream. What a client relies on is that it takes what was written, whatever
  follows; then a sequence of frames is read in order, and no two sequences are written alike.
\<close>

primrec readN :: "nat \<Rightarrow> ('a list \<Rightarrow> ('m \<times> 'a list) option) \<Rightarrow> 'a list \<Rightarrow> ('m list \<times> 'a list) option" where
  "readN 0 rd s = Some ([], s)"
| "readN (Suc n) rd s = (case rd s of None \<Rightarrow> None
     | Some (m, s') \<Rightarrow> (case readN n rd s' of None \<Rightarrow> None | Some (ms, r) \<Rightarrow> Some (m # ms, r)))"

locale framing =
  fixes enc :: "'m \<Rightarrow> 'a list" and dec :: "'a list \<Rightarrow> ('m \<times> 'a list) option" and frame :: "'m \<Rightarrow> bool"
  assumes dec_enc: "frame m \<Longrightarrow> dec (enc m @ rest) = Some (m, rest)"
begin

lemma readN_concat: "\<forall>m \<in> set ms. frame m \<Longrightarrow> readN (length ms) dec (concat (map enc ms) @ rest) = Some (ms, rest)"
  by (induction ms) (simp_all add: dec_enc)

lemma prefix_free: "frame m \<Longrightarrow> frame m' \<Longrightarrow> enc m @ r = enc m' @ r' \<Longrightarrow> m = m' \<and> r = r'"
  by (metis dec_enc option.inject prod.inject)

lemma concat_inj:
  assumes "\<forall>m \<in> set ms. frame m" "\<forall>m \<in> set ms'. frame m" "length ms = length ms'" "concat (map enc ms) = concat (map enc ms')"
  shows "ms = ms'"
  using readN_concat [OF assms(1), of "[]"] readN_concat [OF assms(2), of "[]"] assms(3,4) by simp

end

end
