(* ===== verification/Netlink_Wire.thy ===== *)
theory Netlink_Wire
  imports Go_Bytes
begin

unbundle bit_operations_syntax

text \<open>
  The wire format of netlink (\<open>netlink/nl/nl_linux.go\<close>): requests with their nested attributes are
  written into byte buffers, and the kernel's answers are cut into messages and attributes again.

  The byte order of the machine is the parameter \<open>be\<close> (\<open>True\<close> for big endian), where the code
  asks \<open>NativeEndian\<close> or casts a struct to its bytes.
\<close>

section \<open>Slices\<close>

text \<open>
  A slice of bytes: the memory from its first element to the end of its capacity, and its length.
  A slice expression may reach beyond the length, up to the capacity.
\<close>

type_synonym gslice = "bytes \<times> nat"

definition wf_slice :: "gslice \<Rightarrow> bool" where
  "wf_slice s \<longleftrightarrow> snd s \<le> length (fst s)"

definition sl_bytes :: "gslice \<Rightarrow> bytes" where
  "sl_bytes s = take (snd s) (fst s)"

definition sl_sub :: "gslice \<Rightarrow> nat \<Rightarrow> nat \<Rightarrow> gslice go" where
  "sl_sub s a b = (if a \<le> b \<and> b \<le> length (fst s) then Ok (drop a (fst s), b - a) else Panic IndexOutOfRange)"

definition sl_from :: "gslice \<Rightarrow> nat \<Rightarrow> gslice go" where
  "sl_from s a = sl_sub s a (snd s)"

definition sl_at :: "gslice \<Rightarrow> nat \<Rightarrow> 8 word go" where
  "sl_at s i = (if i < snd s then Ok (fst s ! i) else Panic IndexOutOfRange)"

text \<open>\<open>s[:len(s)-1]\<close>\<close>

definition sl_init :: "gslice \<Rightarrow> gslice go" where
  "sl_init s = (if snd s = 0 then Panic IndexOutOfRange else sl_sub s 0 (snd s - 1))"

section \<open>Numbers\<close>

definition Uint8Attr :: "8 word \<Rightarrow> bytes" where
  "Uint8Attr v = [v]"

definition Uint16Attr :: "bool \<Rightarrow> 16 word \<Rightarrow> bytes" where
  "Uint16Attr be v = put16 be v"

definition Uint32Attr :: "bool \<Rightarrow> 32 word \<Rightarrow> bytes" where
  "Uint32Attr be v = put32 be v"

definition Swap16 :: "bool \<Rightarrow> 16 word \<Rightarrow> 16 word" where
  "Swap16 be i = (if be then i else (drop_bit 8 (i AND 0xff00)) OR (push_bit 8 (i AND 0xff)))"

definition Swap32 :: "bool \<Rightarrow> 32 word \<Rightarrow> 32 word" where
  "Swap32 be i = (if be then i
     else (drop_bit 24 (i AND 0xff000000)) OR (drop_bit 8 (i AND 0xff0000)) OR
       (push_bit 8 (i AND 0xff00)) OR (push_bit 24 (i AND 0xff)))"

definition ZeroTerminated :: "string \<Rightarrow> bytes" where
  "ZeroTerminated s = stringBytes s @ [0]"

definition NonZeroTerminated :: "string \<Rightarrow> bytes" where
  "NonZeroTerminated s = stringBytes s"

text \<open>\<open>bytes.Index\<close> is -1 without a zero byte, and the slice expression panics.\<close>

definition BytesToString :: "bytes \<Rightarrow> string go" where
  "BytesToString b = (if 0 \<in> set b then Ok (bytesString (takeWhile (\<lambda>x. x \<noteq> 0) b)) else Panic IndexOutOfRange)"

text \<open>The swapped number, written in the machine's order, is the number in network order.\<close>

lemma Swap16_network: "put16 be (Swap16 be i) = put16 True i"
proof -
  have m: "(0xff :: 16 word) = mask 8" "(0xff00 :: 16 word) = push_bit 8 (mask 8)"
    by (simp_all add: mask_eq_exp_minus_1 push_bit_eq_mult)
  have "Swap16 False i = getNative False (put16 True i)" unfolding Swap16_def m
    by (rule bit_word_eqI) (auto simp: getNative_def put16_def fromBE_def Let_def bit_simps)
  moreover have "put16 False (getNative False (put16 True i)) = put16 True i"
    by (auto simp: put16_def getNative_def fromBE_def Let_def bit_simps intro!: bit_word_eqI)
  ultimately show ?thesis by (cases be) (simp_all add: Swap16_def)
qed

lemma Swap32_network: "put32 be (Swap32 be i) = put32 True i"
proof -
  have m: "(0xff :: 32 word) = mask 8" "(0xff00 :: 32 word) = push_bit 8 (mask 8)"
    "(0xff0000 :: 32 word) = push_bit 16 (mask 8)" "(0xff000000 :: 32 word) = push_bit 24 (mask 8)"
    by (simp_all add: mask_eq_exp_minus_1 push_bit_eq_mult)
  have "Swap32 False i = getNative False (put32 True i)" unfolding Swap32_def m
  proof (rule bit_word_eqI)
    fix n assume "n < LENGTH(32)"
    then consider "n < 8" | "8 \<le> n" "n < 16" | "16 \<le> n" "n < 24" | "24 \<le> n" "n < 32" by fastforce
    then show "bit (if False then i else drop_bit 24 (i AND push_bit 24 (mask 8)) OR
        drop_bit 8 (i AND push_bit 16 (mask 8)) OR push_bit 8 (i AND push_bit 8 (mask 8)) OR
        push_bit 24 (i AND mask 8)) n = bit (getNative False (put32 True i) :: 32 word) n"
      by cases (auto simp: getNative_def put32_def fromBE_def Let_def bit_simps)
  qed
  moreover have "put32 False (getNative False (put32 True i)) = put32 True i"
    by (auto simp: put32_def getNative_def fromBE_def Let_def bit_simps intro!: bit_word_eqI)
  ultimately show ?thesis by (cases be) (simp_all add: Swap32_def)
qed

section \<open>Headers\<close>

record IfInfomsg =
  ii_Family :: "8 word"
  ii_Type :: "16 word"
  ii_Index :: "32 word"
  ii_Flags :: "32 word"
  ii_Change :: "32 word"

definition NewIfInfomsg :: "8 word \<Rightarrow> IfInfomsg" where
  "NewIfInfomsg family = \<lparr>ii_Family = family, ii_Type = 0, ii_Index = 0, ii_Flags = 0, ii_Change = 0\<rparr>"

text \<open>The second byte is padding.\<close>

definition serializeIfInfomsg :: "bool \<Rightarrow> IfInfomsg \<Rightarrow> bytes" where
  "serializeIfInfomsg be m = [ii_Family m, 0] @ put16 be (ii_Type m) @ put32 be (ii_Index m) @
     put32 be (ii_Flags m) @ put32 be (ii_Change m)"

definition readIfInfomsg :: "bool \<Rightarrow> bytes \<Rightarrow> IfInfomsg" where
  "readIfInfomsg be b = \<lparr>ii_Family = b ! 0, ii_Type = getNative be (take 2 (drop 2 b)),
     ii_Index = getNative be (take 4 (drop 4 b)), ii_Flags = getNative be (take 4 (drop 8 b)),
     ii_Change = getNative be (take 4 (drop 12 b))\<rparr>"

definition DeserializeIfInfomsg :: "bool \<Rightarrow> gslice \<Rightarrow> IfInfomsg go" where
  "DeserializeIfInfomsg be b = bind_go (sl_sub b 0 16) (\<lambda>s. Ok (readIfInfomsg be (fst s)))"

record IfAddrmsg =
  ia_Family :: "8 word"
  ia_Prefixlen :: "8 word"
  ia_Flags :: "8 word"
  ia_Scope :: "8 word"
  ia_Index :: "32 word"

definition NewIfAddrmsg :: "8 word \<Rightarrow> IfAddrmsg" where
  "NewIfAddrmsg family = \<lparr>ia_Family = family, ia_Prefixlen = 0, ia_Flags = 0, ia_Scope = 0, ia_Index = 0\<rparr>"

definition serializeIfAddrmsg :: "bool \<Rightarrow> IfAddrmsg \<Rightarrow> bytes" where
  "serializeIfAddrmsg be m = [ia_Family m, ia_Prefixlen m, ia_Flags m, ia_Scope m] @ put32 be (ia_Index m)"

definition readIfAddrmsg :: "bool \<Rightarrow> bytes \<Rightarrow> IfAddrmsg" where
  "readIfAddrmsg be b = \<lparr>ia_Family = b ! 0, ia_Prefixlen = b ! 1, ia_Flags = b ! 2, ia_Scope = b ! 3,
     ia_Index = getNative be (take 4 (drop 4 b))\<rparr>"

definition DeserializeIfAddrmsg :: "bool \<Rightarrow> gslice \<Rightarrow> IfAddrmsg go" where
  "DeserializeIfAddrmsg be b = bind_go (sl_sub b 0 8) (\<lambda>s. Ok (readIfAddrmsg be (fst s)))"

section \<open>Attributes\<close>

datatype nl_data = IfInfo IfInfomsg | IfAddr IfAddrmsg | RtAttr "16 word" bytes "nl_data list"

definition NewRtAttr :: "int \<Rightarrow> bytes \<Rightarrow> nl_data" where
  "NewRtAttr attrType data = RtAttr (of_int attrType) data []"

text \<open>\<open>parent.children = append(parent.children, child)\<close>; only attributes have children.\<close>

fun addChild :: "nl_data \<Rightarrow> nl_data \<Rightarrow> nl_data" where
  "addChild (RtAttr t d cs) child = RtAttr t d (cs @ [child])"
| "addChild x child = x"

definition rtaAlignOf :: "nat \<Rightarrow> nat" where
  "rtaAlignOf attrlen = (attrlen + 4 - 1) div 4 * 4"

fun nl_Len :: "nl_data \<Rightarrow> nat" where
  "nl_Len (IfInfo _) = 16"
| "nl_Len (IfAddr _) = 8"
| "nl_Len (RtAttr _ data children) =
     (if children = [] then 4 + length data
      else rtaAlignOf (sum_list (map (\<lambda>c. rtaAlignOf (nl_Len c)) children) + 4 + length data))"

text \<open>\<open>copy(buf[next:], src)\<close>\<close>

definition copyInto :: "bytes \<Rightarrow> nat \<Rightarrow> bytes \<Rightarrow> bytes go" where
  "copyInto buf nxt src = (if nxt \<le> length buf
     then Ok (take nxt buf @ take (length buf - nxt) src @ drop (nxt + length src) buf) else Panic IndexOutOfRange)"

fun copyChildren :: "bytes \<Rightarrow> nat \<Rightarrow> bytes list \<Rightarrow> bytes go" where
  "copyChildren buf nxt [] = Ok buf"
| "copyChildren buf nxt (c # cs) =
     bind_go (copyInto buf nxt c) (\<lambda>buf'. copyChildren buf' (nxt + rtaAlignOf (length c)) cs)"

text \<open>The length field has 16 bits: longer attributes are written with their length modulo \<open>2 ^ 16\<close>.\<close>

fun Serialize :: "bool \<Rightarrow> nl_data \<Rightarrow> bytes go" where
  "Serialize be (IfInfo m) = Ok (serializeIfInfomsg be m)"
| "Serialize be (IfAddr m) = Ok (serializeIfAddrmsg be m)"
| "Serialize be (RtAttr typ data children) =
     (let len = nl_Len (RtAttr typ data children); l = (of_nat len :: 16 word)
      in bind_go (copyInto (replicate (rtaAlignOf len) 0) 4 data) (\<lambda>buf.
         bind_go (traverse_go (Serialize be) children) (\<lambda>childBufs.
         bind_go (copyChildren buf (4 + rtaAlignOf (length data)) childBufs) (\<lambda>buf'.
         Ok ((if l \<noteq> 0 then put16 be l else take 2 buf') @ put16 be typ @ drop 4 buf')))))"

text \<open>What the buffers should hold: header, padded data, children.\<close>

definition padded :: "bytes \<Rightarrow> bytes" where
  "padded bs = bs @ replicate (rtaAlignOf (length bs) - length bs) 0"

fun encode :: "bool \<Rightarrow> nl_data \<Rightarrow> bytes" where
  "encode be (IfInfo m) = serializeIfInfomsg be m"
| "encode be (IfAddr m) = serializeIfAddrmsg be m"
| "encode be (RtAttr typ data children) =
     put16 be (of_nat (nl_Len (RtAttr typ data children))) @ put16 be typ @ padded data @
     concat (map (encode be) children)"

section \<open>Serialisation\<close>

lemma rtaAlign_ge [simp]: "n \<le> rtaAlignOf n"
  unfolding rtaAlignOf_def by presburger

lemma rtaAlign_idem [simp]: "rtaAlignOf (rtaAlignOf n) = rtaAlignOf n"
  by (simp add: rtaAlignOf_def)

lemma rtaAlign_add: "rtaAlignOf m = m \<Longrightarrow> rtaAlignOf (m + n) = m + rtaAlignOf n"
  unfolding rtaAlignOf_def by presburger

lemma rtaAlign_consts [simp]: "rtaAlignOf 16 = 16" "rtaAlignOf 8 = 8" "rtaAlignOf 4 = 4" "rtaAlignOf 0 = 0"
  by (simp_all add: rtaAlignOf_def)

lemma rtaAlign_4 [simp]: "rtaAlignOf (4 + n) = 4 + rtaAlignOf n"
  by (rule rtaAlign_add) simp

lemma rtaAlign_sum: "rtaAlignOf (sum_list (map (\<lambda>c. rtaAlignOf (f c)) xs) + n) =
  sum_list (map (\<lambda>c. rtaAlignOf (f c)) xs) + rtaAlignOf n"
proof (induction xs arbitrary: n)
  case (Cons x xs)
  then show ?case
    using rtaAlign_add [of "rtaAlignOf (f x)" "sum_list (map (\<lambda>c. rtaAlignOf (f c)) xs) + n"]
    by (simp add: add.assoc)
qed simp

lemma length_padded [simp]: "length (padded bs) = rtaAlignOf (length bs)"
  by (simp add: padded_def)

lemma length_headers [simp]:
  "length (serializeIfInfomsg be m) = 16" "length (serializeIfAddrmsg be a) = 8"
  by (simp_all add: serializeIfInfomsg_def serializeIfAddrmsg_def)

lemma Len_RtAttr: "rtaAlignOf (nl_Len (RtAttr t d cs)) =
  4 + rtaAlignOf (length d) + sum_list (map (\<lambda>c. rtaAlignOf (nl_Len c)) cs)"
  using rtaAlign_sum [of nl_Len cs "4 + length d"] rtaAlign_sum [of nl_Len cs "4 + rtaAlignOf (length d)"]
  by (cases "cs = []") (simp_all add: add.assoc)

lemma length_encode: "length (encode be d) = rtaAlignOf (nl_Len d)"
proof (induction d)
  case (RtAttr t d cs)
  then have "map (length \<circ> encode be) cs = map (\<lambda>c. rtaAlignOf (nl_Len c)) cs" by simp
  then show ?case by (simp only: encode.simps Len_RtAttr length_append length_put length_concat length_padded map_map)
qed simp_all

lemma copyChildren_zeros:
  assumes "\<And>c. c \<in> set cs \<Longrightarrow> rtaAlignOf (length c) = length c"
  shows "copyChildren (pre @ replicate (length (concat cs)) 0) (length pre) cs = Ok (pre @ concat cs)"
  using assms
proof (induction cs arbitrary: pre)
  case (Cons c cs)
  have "copyInto (pre @ replicate (length (concat (c # cs))) 0) (length pre) c =
      Ok ((pre @ c) @ replicate (length (concat cs)) 0)"
    by (simp add: copyInto_def)
  then show ?case using Cons.IH [of "pre @ c"] Cons.prems by simp
qed simp

lemma Serialize_encode: "Serialize be d = Ok (encode be d)"
proof (induction d)
  case (RtAttr t d cs)
  let ?len = "nl_Len (RtAttr t d cs)" and ?cs = "map (encode be) cs"
  let ?pre = "replicate 4 0 @ padded d" and ?l = "of_nat (nl_Len (RtAttr t d cs)) :: 16 word"
  have n: "rtaAlignOf ?len = 4 + (rtaAlignOf (length d) + length (concat ?cs))"
    by (simp only: Len_RtAttr length_concat map_map) (simp add: o_def length_encode)
  then have c1: "copyInto (replicate (rtaAlignOf ?len) 0) 4 d = Ok (?pre @ replicate (length (concat ?cs)) 0)"
    using rtaAlign_ge [of "length d"]
    by (simp add: copyInto_def padded_def del: length_concat rtaAlign_ge nl_Len.simps flip: replicate_add)
  have c2: "copyChildren (?pre @ replicate (length (concat ?cs)) 0) (4 + rtaAlignOf (length d)) ?cs =
      Ok (?pre @ concat ?cs)"
  proof -
    have "rtaAlignOf (length c) = length c" if "c \<in> set ?cs" for c using that by (auto simp: length_encode)
    from copyChildren_zeros [of ?cs ?pre, OF this] show ?thesis by simp
  qed
  have c3: "traverse_go (Serialize be) cs = Ok ?cs" using RtAttr by (intro traverse_go_Ok_map) simp
  have l: "(if ?l \<noteq> 0 then put16 be ?l else take 2 (?pre @ concat ?cs)) = put16 be ?l"
    by (auto simp: put16_def Let_def numeral_2_eq_2 numeral_eq_Suc)
  show ?case by (simp only: Serialize.simps Let_def c1 c2 c3 bind_go.simps l encode.simps) simp
qed simp_all

section \<open>Parsing\<close>

abbreviation EINVAL :: goerr where "EINVAL \<equiv> Errno 22"
abbreviation ENODEV :: goerr where "ENODEV \<equiv> Errno 19"

record NetlinkRouteAttr =
  ra_Len :: "16 word"
  ra_Type :: "16 word"
  ra_Value :: gslice

text \<open>
  One attribute at the start of \<open>b\<close> and the rest of \<open>b\<close>. An attribute whose padding is missing at
  the end of the buffer passes the check of the length, and the slice expression for the rest
  panics.
\<close>

definition netlinkRouteAttrAndValue :: "bool \<Rightarrow> gslice \<Rightarrow> (16 word \<times> 16 word \<times> gslice \<times> nat) go" where
  "netlinkRouteAttrAndValue be b =
     (let len = getNative be (take 2 (fst b)); typ = getNative be (take 2 (drop 2 (fst b)))
      in if unat len < 4 \<or> unat len > snd b then Err EINVAL
         else bind_go (sl_from b 4) (\<lambda>vbuf. Ok (len, typ, vbuf, rtaAlignOf (unat len))))"

function ParseRouteAttr :: "bool \<Rightarrow> gslice \<Rightarrow> NetlinkRouteAttr list go" where
  "ParseRouteAttr be b = (if snd b < 4 then Ok []
     else bind_go (netlinkRouteAttrAndValue be b) (\<lambda>(len, typ, vbuf, alen).
       bind_go (sl_sub vbuf 0 (unat len - 4)) (\<lambda>v.
       bind_go (sl_from b alen) (\<lambda>b'.
       bind_go (ParseRouteAttr be b') (\<lambda>attrs.
       Ok (\<lparr>ra_Len = len, ra_Type = typ, ra_Value = v\<rparr> # attrs))))))"
  by auto
termination
proof (relation "measure (\<lambda>(be, b). snd b)", goal_cases)
  case (2 be b x len y ty z vbuf alen v b')
  then have "4 \<le> alen" "alen \<le> snd b" "snd b' = snd b - alen" "\<not> snd b < 4"
    by (auto simp: netlinkRouteAttrAndValue_def sl_from_def sl_sub_def Let_def bind_go_Ok_iff split: if_splits
        intro: order_trans [OF _ rtaAlign_ge])
  then show ?case by auto
qed simp

declare ParseRouteAttr.simps [simp del]

record NlMsghdr =
  nh_Len :: "32 word"
  nh_Type :: "16 word"
  nh_Flags :: "16 word"
  nh_Seq :: "32 word"
  nh_Pid :: "32 word"

definition serializeHdr :: "bool \<Rightarrow> NlMsghdr \<Rightarrow> bytes" where
  "serializeHdr be h = put32 be (nh_Len h) @ put16 be (nh_Type h) @ put16 be (nh_Flags h) @
     put32 be (nh_Seq h) @ put32 be (nh_Pid h)"

definition readHdr :: "bool \<Rightarrow> bytes \<Rightarrow> NlMsghdr" where
  "readHdr be b = \<lparr>nh_Len = getNative be (take 4 b), nh_Type = getNative be (take 2 (drop 4 b)),
     nh_Flags = getNative be (take 2 (drop 6 b)), nh_Seq = getNative be (take 4 (drop 8 b)),
     nh_Pid = getNative be (take 4 (drop 12 b))\<rparr>"

record NetlinkMessage =
  nm_Header :: NlMsghdr
  nm_Data :: gslice

text \<open>
  \<open>syscall.ParseNetlinkMessage\<close> of the standard library: a message that does not fit its datagram,
  padding included, is an error.
\<close>

function ParseNetlinkMessage :: "bool \<Rightarrow> gslice \<Rightarrow> NetlinkMessage list go" where
  "ParseNetlinkMessage be b = (if snd b < 16 then Ok []
     else let h = readHdr be (fst b); l = rtaAlignOf (unat (nh_Len h)) in
       if unat (nh_Len h) < 16 \<or> l > snd b then Err EINVAL
       else bind_go (sl_sub b 16 (unat (nh_Len h))) (\<lambda>d.
         bind_go (sl_from b l) (\<lambda>b'.
         bind_go (ParseNetlinkMessage be b') (\<lambda>ms.
         Ok (\<lparr>nm_Header = h, nm_Data = d\<rparr> # ms)))))"
  by auto
termination
proof (relation "measure (\<lambda>(be, b). snd b)", goal_cases)
  case (2 be b h l d b')
  then have "0 < l" "snd b' = snd b - l" "\<not> snd b < 16"
    by (auto simp: sl_from_def sl_sub_def rtaAlignOf_def split: if_splits)
  then show ?case by simp
qed simp

declare ParseNetlinkMessage.simps [simp del]

section \<open>Requests\<close>

record NetlinkRequest =
  nr_hdr :: NlMsghdr
  nr_Data :: "nl_data list"

definition AddData :: "nl_data \<Rightarrow> NetlinkRequest \<Rightarrow> NetlinkRequest" where
  "AddData d req = req\<lparr>nr_Data := nr_Data req @ [d]\<rparr>"

definition serializeRequest :: "bool \<Rightarrow> NetlinkRequest \<Rightarrow> bytes go" where
  "serializeRequest be req =
     bind_go (traverse_go (Serialize be) (nr_Data req)) (\<lambda>dataBytes.
       let len = 16 + sum_list (map length dataBytes)
       in Ok (serializeHdr be ((nr_hdr req)\<lparr>nh_Len := of_nat len\<rparr>) @ concat dataBytes))"

section \<open>Parsing what was serialised\<close>

text \<open>What is visible of a slice after a slice expression, as long as it stays within the length.\<close>

lemma sl_sub_within:
  assumes "wf_slice s" "a \<le> b" "b \<le> snd s"
  shows "\<exists>t. sl_sub s a b = Ok t \<and> wf_slice t \<and> snd t = b - a \<and> sl_bytes t = take (b - a) (drop a (sl_bytes s)) \<and>
    fst t = drop a (fst s)"
  using assms by (auto simp: sl_sub_def wf_slice_def sl_bytes_def drop_take min_def)

lemma sl_prefix: "wf_slice s \<Longrightarrow> k \<le> snd s \<Longrightarrow> take k (fst s) = take k (sl_bytes s)"
  by (simp add: sl_bytes_def min_def)

lemma snd_sl: "wf_slice s \<Longrightarrow> snd s = length (sl_bytes s)"
  by (simp add: wf_slice_def sl_bytes_def)

fun attr_ok :: "nl_data \<Rightarrow> bool" where
  "attr_ok (RtAttr t d cs) \<longleftrightarrow> nl_Len (RtAttr t d cs) < 2 ^ 16"
| "attr_ok _ \<longleftrightarrow> False"

fun attrType :: "nl_data \<Rightarrow> 16 word" where
  "attrType (RtAttr t d cs) = t"
| "attrType _ = 0"

fun attrValue :: "bool \<Rightarrow> nl_data \<Rightarrow> bytes" where
  "attrValue be (RtAttr t d cs) = (if cs = [] then d else padded d @ concat (map (encode be) cs))"
| "attrValue be _ = []"

lemma encode_attr:
  assumes "attr_ok d"
  shows "\<exists>pad. encode be d = put16 be (of_nat (nl_Len d)) @ put16 be (attrType d) @ attrValue be d @ pad"
    and "nl_Len d = 4 + length (attrValue be d)"
proof -
  obtain t x cs where d: "d = RtAttr t x cs" using assms by (cases d) auto
  show "\<exists>pad. encode be d = put16 be (of_nat (nl_Len d)) @ put16 be (attrType d) @ attrValue be d @ pad"
    by (cases "cs = []") (auto simp: d padded_def)
  show "nl_Len d = 4 + length (attrValue be d)"
  proof (cases "cs = []")
    case False
    then have "nl_Len d = rtaAlignOf (nl_Len d)" by (simp add: d)
    also have "\<dots> = 4 + length (attrValue be d)"
      using False Len_RtAttr [of t x cs] by (simp add: d length_concat o_def length_encode del: nl_Len.simps)
    finally show ?thesis .
  qed (simp add: d)
qed

lemma ParseRouteAttr_cons:
  assumes "wf_slice s" "sl_bytes s = encode be d @ rest" "attr_ok d"
  shows "\<exists>v s'. ParseRouteAttr be s = bind_go (ParseRouteAttr be s')
      (\<lambda>as. Ok (\<lparr>ra_Len = of_nat (nl_Len d), ra_Type = attrType d, ra_Value = v\<rparr> # as)) \<and>
    wf_slice v \<and> sl_bytes v = attrValue be d \<and> wf_slice s' \<and> sl_bytes s' = rest"
proof -
  obtain pad where e: "encode be d = put16 be (of_nat (nl_Len d)) @ put16 be (attrType d) @ attrValue be d @ pad"
    using encode_attr(1) [OF assms(3)] by blast
  note len = encode_attr(2) [OF assms(3), of be]
  have bound: "nl_Len d < 2 ^ 16" using assms(3) by (cases d) auto
  then have un: "unat (of_nat (nl_Len d) :: 16 word) = nl_Len d" by (simp add: unat_of_nat take_bit_eq_mod)
  have al: "length (encode be d) = rtaAlignOf (nl_Len d)" by (rule length_encode)
  have n: "snd s = rtaAlignOf (nl_Len d) + length rest" using snd_sl [OF assms(1)] assms(2) al by simp
  have ge: "nl_Len d \<le> rtaAlignOf (nl_Len d)" "4 \<le> nl_Len d" using len by simp_all
  have h: "getNative be (take 2 (fst s)) = (of_nat (nl_Len d) :: 16 word)"
    "getNative be (take 2 (drop 2 (fst s))) = attrType d"
  proof -
    have "take 4 (fst s) = put16 be (of_nat (nl_Len d)) @ put16 be (attrType d)"
      using sl_prefix [OF assms(1), of 4] n ge assms(2) e by simp
    moreover have "take 2 (fst s) = take 2 (take 4 (fst s))" "take 2 (drop 2 (fst s)) = drop 2 (take 4 (fst s))"
      by (simp_all add: take_drop min_def)
    ultimately show "getNative be (take 2 (fst s)) = (of_nat (nl_Len d) :: 16 word)"
      "getNative be (take 2 (drop 2 (fst s))) = attrType d" by simp_all
  qed
  obtain vb where vb: "sl_from s 4 = Ok vb" "wf_slice vb" "snd vb = snd s - 4" "sl_bytes vb = drop 4 (sl_bytes s)"
    using sl_sub_within [OF assms(1), of 4 "snd s"] n ge
    unfolding sl_from_def by (auto simp: sl_bytes_def)
  obtain v where v: "sl_sub vb 0 (nl_Len d - 4) = Ok v" "wf_slice v"
      "sl_bytes v = take (nl_Len d - 4) (sl_bytes vb)"
  proof -
    have "nl_Len d - 4 \<le> snd vb" using n ge(1) vb(3) by linarith
    with sl_sub_within [OF vb(2), of 0 "nl_Len d - 4"] show ?thesis using that by auto
  qed
  obtain s' where s': "sl_from s (rtaAlignOf (nl_Len d)) = Ok s'" "wf_slice s'"
      "sl_bytes s' = drop (rtaAlignOf (nl_Len d)) (sl_bytes s)"
    using sl_sub_within [OF assms(1), of "rtaAlignOf (nl_Len d)" "snd s"] n
    unfolding sl_from_def by (auto simp: sl_bytes_def)
  have room: "\<not> snd s < nl_Len d" "\<not> snd s < 4" using n ge by linarith+
  have "ParseRouteAttr be s = bind_go (ParseRouteAttr be s')
      (\<lambda>as. Ok (\<lparr>ra_Len = of_nat (nl_Len d), ra_Type = attrType d, ra_Value = v\<rparr> # as))"
    using room ge(2) vb(1) v(1) s'(1) un
    by (subst ParseRouteAttr.simps) (simp add: netlinkRouteAttrAndValue_def h Let_def)
  moreover have "sl_bytes v = attrValue be d" using v(3) vb(4) assms(2) e len by simp
  moreover have "sl_bytes s' = rest" using s'(3) assms(2) al by simp
  ultimately show ?thesis using v(2) s'(2) by blast
qed

definition attr_view :: "bool \<Rightarrow> NetlinkRouteAttr \<Rightarrow> nl_data \<Rightarrow> bool" where
  "attr_view be a d \<longleftrightarrow> ra_Type a = attrType d \<and> wf_slice (ra_Value a) \<and> sl_bytes (ra_Value a) = attrValue be d"

lemma ParseRouteAttr_encoded:
  assumes "wf_slice s" "sl_bytes s = concat (map (encode be) ds)" "list_all attr_ok ds"
  shows "\<exists>as. ParseRouteAttr be s = Ok as \<and> list_all2 (attr_view be) as ds"
  using assms
proof (induction ds arbitrary: s)
  case Nil
  then have "snd s = 0" using snd_sl [of s] by simp
  then show ?case by (subst ParseRouteAttr.simps) simp
next
  case (Cons d ds)
  then obtain v s' where s: "ParseRouteAttr be s = bind_go (ParseRouteAttr be s')
      (\<lambda>as. Ok (\<lparr>ra_Len = of_nat (nl_Len d), ra_Type = attrType d, ra_Value = v\<rparr> # as))"
    "wf_slice v" "sl_bytes v = attrValue be d" "wf_slice s'" "sl_bytes s' = concat (map (encode be) ds)"
    using ParseRouteAttr_cons [of s be d "concat (map (encode be) ds)"] by auto
  obtain as where "ParseRouteAttr be s' = Ok as" "list_all2 (attr_view be) as ds"
    using Cons.IH [OF s(4,5)] Cons.prems(3) by auto
  moreover have "attr_view be \<lparr>ra_Len = of_nat (nl_Len d), ra_Type = attrType d, ra_Value = v\<rparr> d"
    using s by (simp add: attr_view_def)
  ultimately show ?case using s by simp
qed

lemma readHdr_serialize [simp]: "readHdr be (serializeHdr be h @ rest) = h"
  by (simp add: readHdr_def serializeHdr_def)

lemma length_serializeHdr [simp]: "length (serializeHdr be h) = 16"
  by (simp add: serializeHdr_def)

lemma readIfInfomsg_serialize [simp]: "readIfInfomsg be (serializeIfInfomsg be m @ rest) = m"
  by (simp add: readIfInfomsg_def serializeIfInfomsg_def)

lemma readIfAddrmsg_serialize [simp]: "readIfAddrmsg be (serializeIfAddrmsg be m @ rest) = m"
  by (simp add: readIfAddrmsg_def serializeIfAddrmsg_def)

text \<open>A message as it stands in a datagram.\<close>

definition encodeMsg :: "bool \<Rightarrow> NlMsghdr \<Rightarrow> bytes \<Rightarrow> bytes" where
  "encodeMsg be h d = serializeHdr be (h\<lparr>nh_Len := of_nat (16 + length d)\<rparr>) @ padded d"

lemma length_encodeMsg: "length (encodeMsg be h d) = rtaAlignOf (16 + length d)"
  using rtaAlign_add [of 16 "length d"] by (simp add: encodeMsg_def)

lemma serializeRequest_encode:
  "serializeRequest be req = Ok (serializeHdr be
     ((nr_hdr req)\<lparr>nh_Len := of_nat (16 + length (concat (map (encode be) (nr_Data req))))\<rparr>) @
     concat (map (encode be) (nr_Data req)))"
proof -
  have "traverse_go (Serialize be) (nr_Data req) = Ok (map (encode be) (nr_Data req))"
    by (rule traverse_go_Ok_map) (rule Serialize_encode)
  then show ?thesis by (simp add: serializeRequest_def Let_def length_concat)
qed

lemma ParseNetlinkMessage_cons:
  assumes "wf_slice s" "sl_bytes s = encodeMsg be h d @ rest" "16 + length d < 2 ^ 32"
  shows "\<exists>v s'. ParseNetlinkMessage be s = bind_go (ParseNetlinkMessage be s')
      (\<lambda>ms. Ok (\<lparr>nm_Header = h\<lparr>nh_Len := of_nat (16 + length d)\<rparr>, nm_Data = v\<rparr> # ms)) \<and>
    wf_slice v \<and> sl_bytes v = d \<and> wf_slice s' \<and> sl_bytes s' = rest"
proof -
  let ?n = "16 + length d" and ?h = "h\<lparr>nh_Len := of_nat (16 + length d)\<rparr>"
  have un: "unat (of_nat ?n :: 32 word) = ?n" using assms(3) by (simp add: unat_of_nat take_bit_eq_mod del: of_nat_add)
  have n: "snd s = rtaAlignOf ?n + length rest"
    using snd_sl [OF assms(1)] assms(2) length_encodeMsg [of be h d] by simp
  have ge: "?n \<le> rtaAlignOf ?n" by simp
  have room: "\<not> snd s < 16" "\<not> snd s < rtaAlignOf ?n" "?n \<le> snd s" using n ge by linarith+
  have mem: "fst s = sl_bytes s @ drop (snd s) (fst s)" by (simp add: sl_bytes_def)
  have h: "readHdr be (fst s) = ?h" by (subst mem) (simp add: assms(2) encodeMsg_def)
  obtain v where v: "sl_sub s 16 ?n = Ok v" "wf_slice v" "sl_bytes v = take (length d) (drop 16 (sl_bytes s))"
    using sl_sub_within [OF assms(1), of 16 ?n] room(3) by auto
  obtain s' where s': "sl_from s (rtaAlignOf ?n) = Ok s'" "wf_slice s'" "sl_bytes s' = drop (rtaAlignOf ?n) (sl_bytes s)"
    using sl_sub_within [OF assms(1), of "rtaAlignOf ?n" "snd s"] n
    unfolding sl_from_def by (auto simp: sl_bytes_def)
  have "ParseNetlinkMessage be s = bind_go (ParseNetlinkMessage be s')
      (\<lambda>ms. Ok (\<lparr>nm_Header = ?h, nm_Data = v\<rparr> # ms))"
    using room v(1) s'(1) un by (subst ParseNetlinkMessage.simps) (simp add: h Let_def del: of_nat_add)
  moreover have "sl_bytes v = d" using v(3) by (simp add: assms(2) encodeMsg_def padded_def)
  moreover have "sl_bytes s' = rest" using s'(3) assms(2) length_encodeMsg [of be h d] by simp
  ultimately show ?thesis using v(2) s'(2) by blast
qed

definition msg_view :: "NetlinkMessage \<Rightarrow> NlMsghdr \<times> bytes \<Rightarrow> bool" where
  "msg_view m p \<longleftrightarrow> nm_Header m = (fst p)\<lparr>nh_Len := of_nat (16 + length (snd p))\<rparr> \<and>
     wf_slice (nm_Data m) \<and> sl_bytes (nm_Data m) = snd p"

lemma ParseNetlinkMessage_encoded:
  assumes "wf_slice s" "sl_bytes s = concat (map (\<lambda>(h, d). encodeMsg be h d) ms)"
    and "list_all (\<lambda>(h, d). 16 + length d < 2 ^ 32) ms"
  shows "\<exists>xs. ParseNetlinkMessage be s = Ok xs \<and> list_all2 msg_view xs ms"
  using assms
proof (induction ms arbitrary: s)
  case Nil
  then have "snd s = 0" using snd_sl [of s] by simp
  then show ?case by (subst ParseNetlinkMessage.simps) simp
next
  case (Cons m ms)
  obtain h d where m: "m = (h, d)" by fastforce
  obtain v s' where s: "ParseNetlinkMessage be s = bind_go (ParseNetlinkMessage be s')
      (\<lambda>ms. Ok (\<lparr>nm_Header = h\<lparr>nh_Len := of_nat (16 + length d)\<rparr>, nm_Data = v\<rparr> # ms))"
    "wf_slice v" "sl_bytes v = d" "wf_slice s'" "sl_bytes s' = concat (map (\<lambda>(h, d). encodeMsg be h d) ms)"
    using ParseNetlinkMessage_cons [of s be h d "concat (map (\<lambda>(h, d). encodeMsg be h d) ms)"] Cons.prems
    by (auto simp: m)
  obtain xs where "ParseNetlinkMessage be s' = Ok xs" "list_all2 msg_view xs ms"
    using Cons.IH [OF s(4,5)] Cons.prems(3) by auto
  moreover have "msg_view \<lparr>nm_Header = h\<lparr>nh_Len := of_nat (16 + length d)\<rparr>, nm_Data = v\<rparr> m"
    using s by (simp add: msg_view_def m)
  ultimately show ?case using s by simp
qed

lemma DeserializeIfInfomsg_encoded:
  assumes "wf_slice s" "sl_bytes s = serializeIfInfomsg be m @ rest"
  shows "DeserializeIfInfomsg be s = Ok m" "\<exists>t. sl_from s 16 = Ok t \<and> wf_slice t \<and> sl_bytes t = rest"
proof -
  have n: "snd s = 16 + length rest" using snd_sl [OF assms(1)] assms(2) by simp
  have mem: "fst s = sl_bytes s @ drop (snd s) (fst s)" by (simp add: sl_bytes_def)
  obtain t where "sl_sub s 0 16 = Ok t" "fst t = fst s" using sl_sub_within [OF assms(1), of 0 16] n by auto
  then show "DeserializeIfInfomsg be s = Ok m"
    by (simp add: DeserializeIfInfomsg_def) (subst mem, simp add: assms(2))
  show "\<exists>t. sl_from s 16 = Ok t \<and> wf_slice t \<and> sl_bytes t = rest"
    using sl_sub_within [OF assms(1), of 16 "snd s"] n assms(2) by (auto simp: sl_from_def)
qed

section \<open>Properties\<close>

lemma wf_whole: "wf_slice (b, length b)" "sl_bytes (b, length b) = b"
  by (simp_all add: wf_slice_def sl_bytes_def)

text \<open>An attribute whose padding is cut off at the end of the buffer makes the parser panic.\<close>

lemma ParseRouteAttr_unpadded: "ParseRouteAttr False ([5, 0, 3, 0, 7], 5) = Panic IndexOutOfRange"
  by code_simp

text \<open>C26. A request with its nested attributes is written without a panic, and what is written is
  read back as one message with the same header, of the length of the bytes written, with the same
  interface header and the same attributes in the same order, each with its own value: data
  without the padding for a plain attribute, the serialised children for a nested one. The
  attributes must fit the 16-bit length field.\<close>

theorem netlink_request_roundtrip:
  assumes "nr_Data req = IfInfo m # ds" "list_all attr_ok ds"
    and "16 + length (concat (map (encode be) (nr_Data req))) < 2 ^ 32"
  shows "\<exists>b d d' as. serializeRequest be req = Ok b \<and>
    ParseNetlinkMessage be (b, length b) =
      Ok [\<lparr>nm_Header = (nr_hdr req)\<lparr>nh_Len := of_nat (length b)\<rparr>, nm_Data = d\<rparr>] \<and>
    DeserializeIfInfomsg be d = Ok m \<and> sl_from d 16 = Ok d' \<and> ParseRouteAttr be d' = Ok as \<and>
    list_all2 (attr_view be) as ds"
proof -
  let ?e = "concat (map (encode be) (nr_Data req))"
  have "rtaAlignOf (length (concat (map (encode be) xs))) = length (concat (map (encode be) xs))" for xs
    using rtaAlign_sum [of nl_Len xs 0] by (simp add: length_concat o_def length_encode)
  then have pad: "padded ?e = ?e" by (simp add: padded_def del: length_concat)
  have b: "serializeRequest be req = Ok (encodeMsg be (nr_hdr req) ?e)"
    using serializeRequest_encode [of be req] by (simp add: encodeMsg_def pad del: of_nat_add)
  have n: "length (encodeMsg be (nr_hdr req) ?e) = 16 + length ?e"
    by (simp add: encodeMsg_def pad del: length_concat)
  let ?b = "encodeMsg be (nr_hdr req) ?e"
  obtain xs where xs: "ParseNetlinkMessage be (?b, length ?b) = Ok xs" "list_all2 msg_view xs [(nr_hdr req, ?e)]"
    using ParseNetlinkMessage_encoded [of "(?b, length ?b)" be "[(nr_hdr req, ?e)]"] assms(3) wf_whole [of ?b] by auto
  then obtain x where x: "xs = [x]" "msg_view x (nr_hdr req, ?e)" by (auto simp: list_all2_Cons2)
  have x': "x = \<lparr>nm_Header = (nr_hdr req)\<lparr>nh_Len := of_nat (length ?b)\<rparr>, nm_Data = nm_Data x\<rparr>"
    using x(2) n by (cases x) (simp add: msg_view_def del: of_nat_add)
  have d: "wf_slice (nm_Data x)" "sl_bytes (nm_Data x) = serializeIfInfomsg be m @ concat (map (encode be) ds)"
    using x(2) assms(1) by (simp_all add: msg_view_def)
  obtain d' where d': "sl_from (nm_Data x) 16 = Ok d'" "wf_slice d'" "sl_bytes d' = concat (map (encode be) ds)"
    using DeserializeIfInfomsg_encoded(2) [OF d] by blast
  obtain as where "ParseRouteAttr be d' = Ok as" "list_all2 (attr_view be) as ds"
    using ParseRouteAttr_encoded [OF d'(2,3) assms(2)] by blast
  with b xs x x' d'(1) DeserializeIfInfomsg_encoded(1) [OF d] show ?thesis by metis
qed

text \<open>The request that looks up the link \<open>eth0\<close>.\<close>

definition lab_request :: NetlinkRequest where
  "lab_request = \<lparr>nr_hdr = \<lparr>nh_Len = 16, nh_Type = 18, nh_Flags = 5, nh_Seq = 7, nh_Pid = 0\<rparr>,
     nr_Data = [IfInfo (NewIfInfomsg 0), RtAttr 3 (ZeroTerminated ''eth0'') []]\<rparr>"

theorem netlink_request_roundtrip_witness:
  "\<exists>d d' a. ParseNetlinkMessage False ([44, 0, 0, 0, 18, 0, 5, 0, 7, 0, 0, 0, 0, 0, 0, 0,
      0, 0, 0, 0, 0, 0, 0, 0, 0, 0, 0, 0, 0, 0, 0, 0, 9, 0, 3, 0, 101, 116, 104, 48, 0, 0, 0, 0], 44) =
      Ok [\<lparr>nm_Header = \<lparr>nh_Len = 44, nh_Type = 18, nh_Flags = 5, nh_Seq = 7, nh_Pid = 0\<rparr>, nm_Data = d\<rparr>] \<and>
    DeserializeIfInfomsg False d = Ok (NewIfInfomsg 0) \<and> sl_from d 16 = Ok d' \<and>
    ParseRouteAttr False d' = Ok [a] \<and> sl_bytes (ra_Value a) = ZeroTerminated ''eth0''"
proof -
  let ?b = "[44, 0, 0, 0, 18, 0, 5, 0, 7, 0, 0, 0, 0, 0, 0, 0,
      0, 0, 0, 0, 0, 0, 0, 0, 0, 0, 0, 0, 0, 0, 0, 0, 9, 0, 3, 0, 101, 116, 104, 48, 0, 0, 0, 0] :: bytes"
  have h: "nr_Data lab_request = [IfInfo (NewIfInfomsg 0), RtAttr 3 (ZeroTerminated ''eth0'') []]"
    "list_all attr_ok [RtAttr 3 (ZeroTerminated ''eth0'') []]"
    "16 + length (concat (map (encode False) (nr_Data lab_request))) < 2 ^ 32"
    "serializeRequest False lab_request = Ok ?b"
    "nr_hdr lab_request = \<lparr>nh_Len = 16, nh_Type = 18, nh_Flags = 5, nh_Seq = 7, nh_Pid = 0\<rparr>"
    by code_simp+
  from netlink_request_roundtrip [OF h(1-3)] obtain d d' as where r:
    "ParseNetlinkMessage False (?b, length ?b) =
      Ok [\<lparr>nm_Header = (nr_hdr lab_request)\<lparr>nh_Len := of_nat (length ?b)\<rparr>, nm_Data = d\<rparr>]"
    "DeserializeIfInfomsg False d = Ok (NewIfInfomsg 0)" "sl_from d 16 = Ok d'" "ParseRouteAttr False d' = Ok as"
    "list_all2 (attr_view False) as [RtAttr 3 (ZeroTerminated ''eth0'') []]"
    unfolding h(4) by auto
  then obtain a where "as = [a]" "sl_bytes (ra_Value a) = ZeroTerminated ''eth0''"
    by (auto simp: list_all2_Cons2 attr_view_def)
  moreover have n: "length ?b = 44" by simp
  then have "(nr_hdr lab_request)\<lparr>nh_Len := of_nat (length ?b)\<rparr> =
      \<lparr>nh_Len = 44, nh_Type = 18, nh_Flags = 5, nh_Seq = 7, nh_Pid = 0\<rparr>"
    by (simp only: h(5) n) simp
  ultimately show ?thesis using r unfolding n by metis
qed

end
