(* ===== verification/Netlink_Socket.thy ===== *)
theory Netlink_Socket
  imports Netlink_Wire
begin

text \<open>
  The netlink socket of \<open>netlink/nl/nl_linux.go\<close>: a request is sent and the answers are collected
  until the kernel says that there are no more.

  The system calls are parameters (\<open>kernel\<close>): each is an arbitrary function of its arguments and
  of the kernel's state. \<open>Recvfrom\<close> yields the next datagram. The loop that collects the answers
  ends only when the kernel sends one that ends it, so it is a partial function: \<open>None\<close> says that
  the call never returns.
\<close>

record 'k kernel =
  k_bigEndian :: bool
  k_pagesize :: nat
  k_socket :: "nat \<Rightarrow> 'k \<Rightarrow> nat go \<times> 'k"
  k_bind :: "nat \<Rightarrow> 32 word \<Rightarrow> 'k \<Rightarrow> unit go \<times> 'k"
  k_close :: "nat \<Rightarrow> 'k \<Rightarrow> 'k"
  k_sendto :: "nat \<Rightarrow> bytes \<Rightarrow> 'k \<Rightarrow> unit go \<times> 'k"
  k_recvfrom :: "nat \<Rightarrow> 'k \<Rightarrow> bytes go \<times> 'k"
  k_getsockname :: "nat \<Rightarrow> 'k \<Rightarrow> 32 word option go \<times> 'k"
  k_openTun :: "'k \<Rightarrow> nat go \<times> 'k"
  k_tunSetIff :: "nat \<Rightarrow> bytes \<Rightarrow> 16 word \<Rightarrow> 'k \<Rightarrow> int \<times> 'k"
  k_tunSetPersist :: "nat \<Rightarrow> 'k \<Rightarrow> int \<times> 'k"

section \<open>Sockets\<close>

text \<open>\<open>getNetlinkSocket\<close> and \<open>Subscribe\<close>: a socket that cannot be bound is closed again.\<close>

definition Subscribe :: "'k kernel \<Rightarrow> nat \<Rightarrow> nat list \<Rightarrow> ('k, nat) gom" where
  "Subscribe K protocol groups =
     bindG (k_socket K protocol) (\<lambda>fd.
     tryG (k_bind K fd (fold (\<lambda>g m. m OR (if g = 0 then 0 else push_bit (g - 1) 1)) groups 0))
       (\<lambda>_. retG fd)
       (\<lambda>e. bindG (modifyG (k_close K fd)) (\<lambda>_. failG e)))"

definition getNetlinkSocket :: "'k kernel \<Rightarrow> nat \<Rightarrow> ('k, nat) gom" where
  "getNetlinkSocket K protocol =
     bindG (k_socket K protocol) (\<lambda>fd.
     tryG (k_bind K fd 0) (\<lambda>_. retG fd) (\<lambda>e. bindG (modifyG (k_close K fd)) (\<lambda>_. failG e)))"

definition Send :: "'k kernel \<Rightarrow> nat \<Rightarrow> NetlinkRequest \<Rightarrow> ('k, unit) gom" where
  "Send K fd req = bindG (liftG (serializeRequest (k_bigEndian K) req)) (k_sendto K fd)"

definition GetPid :: "'k kernel \<Rightarrow> nat \<Rightarrow> ('k, 32 word) gom" where
  "GetPid K fd = bindG (k_getsockname K fd) (\<lambda>lsa. case lsa of
       Some pid \<Rightarrow> retG pid
     | None \<Rightarrow> failG (ErrNew ''Wrong socket type''))"

text \<open>The buffer has the size of a page and is filled with zeros first; a longer datagram is cut.\<close>

definition Receive :: "'k kernel \<Rightarrow> nat \<Rightarrow> ('k, NetlinkMessage list) gom" where
  "Receive K fd = bindG (k_recvfrom K fd) (\<lambda>d.
     let nr = min (length d) (k_pagesize K); rb = take nr d @ replicate (k_pagesize K - nr) 0
     in if nr < 16 then failG (ErrNew ''Got short response from netlink'')
        else liftG (ParseNetlinkMessage (k_bigEndian K) (rb, nr)))"

section \<open>Requests\<close>

text \<open>The body of the loop in \<open>Execute\<close>: go on, or end with the messages collected or an error.\<close>

datatype scan = More "gslice list" | Stop "gslice list go"

text \<open>\<open>syscall.Errno(-error)\<close>: the 32-bit number is negated and sign-extended to 64 bits.\<close>

definition kernelError :: "32 word \<Rightarrow> goerr" where
  "kernelError e = Errno (sint (- e) mod 2 ^ 64)"

fun scanMessages :: "bool \<Rightarrow> 32 word \<Rightarrow> 32 word \<Rightarrow> 16 word \<Rightarrow> NetlinkMessage list \<Rightarrow> gslice list \<Rightarrow> scan" where
  "scanMessages be seq pid resType [] res = More res"
| "scanMessages be seq pid resType (m # ms) res =
     (let h = nm_Header m in
      if nh_Seq h \<noteq> seq then
        Stop (Err (Errorf ''Wrong Seq nr %d, expected 1'' [EInt (uint (nh_Seq h))]))
      else if nh_Pid h \<noteq> pid then
        Stop (Err (Errorf ''Wrong pid %d, expected %d'' [EInt (uint (nh_Pid h)), EInt (uint pid)]))
      else if nh_Type h = 3 then Stop (Ok res)
      else if nh_Type h = 2 then
        Stop (bind_go (sl_sub (nm_Data m) 0 4) (\<lambda>s.
          let e = getNative be (take 4 (fst s)) :: 32 word in if e = 0 then Ok res else Err (kernelError e)))
      else if resType \<noteq> 0 \<and> nh_Type h \<noteq> resType then scanMessages be seq pid resType ms res
      else if nh_Flags h AND 2 = 0 then Stop (Ok (res @ [nm_Data m]))
      else scanMessages be seq pid resType ms (res @ [nm_Data m]))"

partial_function (option) receiveLoop ::
    "'k kernel \<Rightarrow> nat \<Rightarrow> 32 word \<Rightarrow> 32 word \<Rightarrow> 16 word \<Rightarrow> gslice list \<Rightarrow> 'k \<Rightarrow> (gslice list go \<times> 'k) option" where
  [code]: "receiveLoop K fd seq pid resType res k = (case Receive K fd k of
       (Ok msgs, k') \<Rightarrow> (case scanMessages (k_bigEndian K) seq pid resType msgs res of
            More res' \<Rightarrow> receiveLoop K fd seq pid resType res' k'
          | Stop r \<Rightarrow> Some (r, k'))
     | (Err e, k') \<Rightarrow> Some (Err e, k')
     | (Panic p, k') \<Rightarrow> Some (Panic p, k')
     | (Fatal t, k') \<Rightarrow> Some (Fatal t, k'))"

text \<open>The deferred \<open>Close\<close> runs however the call ends.\<close>

definition Execute :: "'k kernel \<Rightarrow> nat \<Rightarrow> 16 word \<Rightarrow> NetlinkRequest \<Rightarrow> 'k \<Rightarrow> (gslice list go \<times> 'k) option" where
  "Execute K sockType resType req k = (case getNetlinkSocket K sockType k of
       (Ok fd, k1) \<Rightarrow> map_option (apsnd (k_close K fd))
         (case bindG (Send K fd req) (\<lambda>_. GetPid K fd) k1 of
            (Ok pid, k2) \<Rightarrow> receiveLoop K fd (nh_Seq (nr_hdr req)) pid resType [] k2
          | (r, k2) \<Rightarrow> Some (map_go_res (\<lambda>_. []) r, k2))
     | (r, k1) \<Rightarrow> Some (map_go_res (\<lambda>_. []) r, k1))"

section \<open>Answers of the kernel\<close>

text \<open>The kernel delivers the datagrams one after the other.\<close>

fun delivers :: "'k kernel \<Rightarrow> nat \<Rightarrow> 'k \<Rightarrow> bytes list \<Rightarrow> 'k \<Rightarrow> bool" where
  "delivers K fd k [] k' \<longleftrightarrow> k' = k"
| "delivers K fd k (d # ds) k' \<longleftrightarrow> (\<exists>k1. k_recvfrom K fd k = (Ok d, k1) \<and> delivers K fd k1 ds k')"

lemma delivers_append: "delivers K fd k (ds @ es) k' \<longleftrightarrow> (\<exists>k1. delivers K fd k ds k1 \<and> delivers K fd k1 es k')"
  by (induction ds arbitrary: k) auto

text \<open>A datagram of messages that fits the buffer.\<close>

definition datagram :: "bool \<Rightarrow> (NlMsghdr \<times> bytes) list \<Rightarrow> bytes" where
  "datagram be ms = concat (map (\<lambda>(h, d). encodeMsg be h d) ms)"

definition fits :: "'k kernel \<Rightarrow> (NlMsghdr \<times> bytes) list \<Rightarrow> bool" where
  "fits K ms \<longleftrightarrow> ms \<noteq> [] \<and> length (datagram (k_bigEndian K) ms) \<le> k_pagesize K"

lemma datagram_length: "(h, d) \<in> set ms \<Longrightarrow> 16 + length d \<le> length (datagram be ms)"
proof (induction ms)
  case (Cons m ms)
  then show ?case
    using length_encodeMsg [of be h d]
    by (auto simp: datagram_def intro: trans_le_add1 trans_le_add2)
qed simp

lemma Receive_datagram:
  assumes "k_recvfrom K fd k = (Ok (datagram (k_bigEndian K) ms), k')" "fits K ms" "k_pagesize K < 2 ^ 32"
  shows "\<exists>xs. Receive K fd k = (Ok xs, k') \<and> list_all2 msg_view xs ms"
proof -
  let ?d = "datagram (k_bigEndian K) ms"
  let ?rb = "(?d @ replicate (k_pagesize K - length ?d) 0, length ?d)"
  have le: "length ?d \<le> k_pagesize K" using assms(2) by (simp add: fits_def)
  obtain h b where "(h, b) \<in> set ms" using assms(2) by (cases ms) (auto simp: fits_def)
  then have "16 \<le> length ?d" using datagram_length [of h b ms "k_bigEndian K"] by simp
  with le assms(1) have r: "Receive K fd k = (ParseNetlinkMessage (k_bigEndian K) ?rb, k')"
    by (simp add: Receive_def go_monad Let_def min_def)
  have "wf_slice ?rb" "sl_bytes ?rb = ?d" by (simp_all add: wf_slice_def sl_bytes_def)
  moreover have "list_all (\<lambda>(h, d). 16 + length d < 2 ^ 32) ms"
    using datagram_length [of _ _ ms "k_bigEndian K"] le assms(3) by (fastforce simp: list_all_iff)
  ultimately show ?thesis
    using ParseNetlinkMessage_encoded [of ?rb "k_bigEndian K" ms] r by (auto simp: datagram_def)
qed

text \<open>A message of a dump: one of several, and neither the end nor an error.\<close>

definition dump_part :: "32 word \<Rightarrow> 32 word \<Rightarrow> NlMsghdr \<Rightarrow> bool" where
  "dump_part seq pid h \<longleftrightarrow> nh_Seq h = seq \<and> nh_Pid h = pid \<and> nh_Type h \<noteq> 2 \<and> nh_Type h \<noteq> 3 \<and> nh_Flags h AND 2 \<noteq> 0"

definition wanted :: "16 word \<Rightarrow> (NlMsghdr \<times> bytes) list \<Rightarrow> bytes list" where
  "wanted resType ms = map snd (filter (\<lambda>(h, d). resType = 0 \<or> nh_Type h = resType) ms)"

lemma scan_dump:
  assumes "list_all2 msg_view xs ms" "list_all (\<lambda>(h, d). dump_part seq pid h) ms"
  shows "\<exists>more. scanMessages be seq pid resType (xs @ ys) res = scanMessages be seq pid resType ys (res @ more) \<and>
    map sl_bytes more = wanted resType ms \<and> list_all wf_slice more"
  using assms
proof (induction xs ms arbitrary: res rule: list_all2_induct)
  case (Cons x xs m ms)
  obtain h d where m: "m = (h, d)" by fastforce
  have h: "nh_Seq (nm_Header x) = seq" "nh_Pid (nm_Header x) = pid" "nh_Type (nm_Header x) = nh_Type h"
    "nh_Type h \<noteq> 2" "nh_Type h \<noteq> 3" "nh_Flags (nm_Header x) AND 2 \<noteq> 0" "sl_bytes (nm_Data x) = d" "wf_slice (nm_Data x)"
    using Cons.hyps(1) Cons.prems by (auto simp: msg_view_def m dump_part_def)
  show ?case
  proof (cases "resType \<noteq> 0 \<and> nh_Type h \<noteq> resType")
    case True
    with h Cons.IH [of res] Cons.prems show ?thesis by (auto simp: Let_def wanted_def m)
  next
    case False
    obtain more where "scanMessages be seq pid resType (xs @ ys) (res @ [nm_Data x]) =
        scanMessages be seq pid resType ys (res @ nm_Data x # more)" "map sl_bytes more = wanted resType ms"
        "list_all wf_slice more"
      using Cons.IH [of "res @ [nm_Data x]"] Cons.prems by auto
    with False h show ?thesis
      by (intro exI [of _ "nm_Data x # more"]) (auto simp: Let_def wanted_def m)
  qed
qed (simp add: wanted_def)

text \<open>The datagrams of the dump, up to the one that holds its end.\<close>

lemma receiveLoop_dump:
  assumes "delivers K fd k (map (datagram (k_bigEndian K)) dgs) k1" "k_pagesize K < 2 ^ 32"
    and "\<forall>ms \<in> set dgs. fits K ms \<and> list_all (\<lambda>(h, d). dump_part seq pid h) ms"
  shows "\<exists>more. receiveLoop K fd seq pid resType res k = receiveLoop K fd seq pid resType (res @ more) k1 \<and>
    map sl_bytes more = wanted resType (concat dgs) \<and> list_all wf_slice more"
  using assms(1,3)
proof (induction dgs arbitrary: k res)
  case (Cons ms dgs)
  then obtain k2 where k2: "k_recvfrom K fd k = (Ok (datagram (k_bigEndian K) ms), k2)"
    "delivers K fd k2 (map (datagram (k_bigEndian K)) dgs) k1" by auto
  obtain xs where xs: "Receive K fd k = (Ok xs, k2)" "list_all2 msg_view xs ms"
    using Receive_datagram [OF k2(1) _ assms(2)] Cons.prems(2) by auto
  obtain more where more: "scanMessages (k_bigEndian K) seq pid resType xs res = More (res @ more)"
    "map sl_bytes more = wanted resType ms" "list_all wf_slice more"
    using scan_dump [OF xs(2), of seq pid "k_bigEndian K" resType "[]" res] Cons.prems(2) by auto
  have step: "receiveLoop K fd seq pid resType res k = receiveLoop K fd seq pid resType (res @ more) k2"
    by (subst receiveLoop.simps) (simp add: xs(1) more(1))
  obtain rest where "receiveLoop K fd seq pid resType (res @ more) k2 =
      receiveLoop K fd seq pid resType ((res @ more) @ rest) k1" "map sl_bytes rest = wanted resType (concat dgs)"
      "list_all wf_slice rest"
    using Cons.IH [OF k2(2), of "res @ more"] Cons.prems(2) by auto
  with step more(2,3) show ?case by (intro exI [of _ "more @ rest"]) (simp add: wanted_def)
qed (simp add: wanted_def)

lemma receiveLoop_end:
  assumes "k_recvfrom K fd k = (Ok (datagram (k_bigEndian K) (ms @ [(h, d)])), k')" "k_pagesize K < 2 ^ 32"
    and "fits K (ms @ [(h, d)])" "list_all (\<lambda>(h, d). dump_part seq pid h) ms"
    and "nh_Seq h = seq" "nh_Pid h = pid" "nh_Type h = 3"
  shows "\<exists>more. receiveLoop K fd seq pid resType res k = Some (Ok (res @ more), k') \<and>
    map sl_bytes more = wanted resType ms \<and> list_all wf_slice more"
proof -
  obtain ys where ys: "Receive K fd k = (Ok ys, k')" "list_all2 msg_view ys (ms @ [(h, d)])"
    using Receive_datagram [OF assms(1,3,2)] by blast
  then obtain xs x where xs: "ys = xs @ [x]" "list_all2 msg_view xs ms" "msg_view x (h, d)"
    by (auto simp: list_all2_append2 list_all2_Cons2)
  obtain more where "scanMessages (k_bigEndian K) seq pid resType ys res =
      scanMessages (k_bigEndian K) seq pid resType [x] (res @ more)" "map sl_bytes more = wanted resType ms" "list_all wf_slice more"
    using scan_dump [OF xs(2) assms(4), of "k_bigEndian K" resType "[x]" res] xs(1) by auto
  with ys(1) xs(3) assms(5-7) show ?thesis
    by (intro exI [of _ more]) (subst receiveLoop.simps, simp add: msg_view_def)
qed

text \<open>A request that is answered by one datagram with one message.\<close>

lemma receiveLoop_one:
  assumes "k_recvfrom K fd k = (Ok (datagram (k_bigEndian K) [(h, d)]), k')" "fits K [(h, d)]" "k_pagesize K < 2 ^ 32"
    and "nh_Seq h = seq" "nh_Pid h = pid"
  shows "nh_Type h = 2 \<Longrightarrow> d = put32 (k_bigEndian K) e @ rest \<Longrightarrow>
      receiveLoop K fd seq pid resType [] k = Some (if e = 0 then Ok [] else Err (kernelError e), k')"
    and "nh_Type h \<noteq> 2 \<Longrightarrow> nh_Type h \<noteq> 3 \<Longrightarrow> resType = 0 \<or> nh_Type h = resType \<Longrightarrow> nh_Flags h AND 2 = 0 \<Longrightarrow>
      \<exists>s. receiveLoop K fd seq pid resType [] k = Some (Ok [s], k') \<and> wf_slice s \<and> sl_bytes s = d"
proof -
  obtain ys where ys: "Receive K fd k = (Ok ys, k')" "list_all2 msg_view ys [(h, d)]"
    using Receive_datagram [OF assms(1-3)] by blast
  then obtain x where x: "ys = [x]" "msg_view x (h, d)" by (auto simp: list_all2_Cons2)
  then have v: "nh_Seq (nm_Header x) = seq" "nh_Pid (nm_Header x) = pid" "nh_Type (nm_Header x) = nh_Type h"
    "nh_Flags (nm_Header x) = nh_Flags h" "wf_slice (nm_Data x)" "sl_bytes (nm_Data x) = d"
    using assms(4,5) by (auto simp: msg_view_def)
  { assume t: "nh_Type h = 2" and d: "d = put32 (k_bigEndian K) e @ rest"
    have n: "4 \<le> snd (nm_Data x)" using snd_sl [OF v(5)] v(6) d by simp
    then obtain s where s: "sl_sub (nm_Data x) 0 4 = Ok s" "fst s = fst (nm_Data x)"
      using sl_sub_within [OF v(5), of 0 4] by auto
    have "take 4 (fst s) = put32 (k_bigEndian K) e"
      using sl_prefix [OF v(5) n] s(2) v(6) d by simp
    with s(1) t v ys(1) x(1) show "receiveLoop K fd seq pid resType [] k =
        Some (if e = 0 then Ok [] else Err (kernelError e), k')"
      by (subst receiveLoop.simps) (simp add: Let_def) }
  { assume "nh_Type h \<noteq> 2" "nh_Type h \<noteq> 3" "resType = 0 \<or> nh_Type h = resType" "nh_Flags h AND 2 = 0"
    with v ys(1) x(1) show "\<exists>s. receiveLoop K fd seq pid resType [] k = Some (Ok [s], k') \<and> wf_slice s \<and> sl_bytes s = d"
      by (intro exI [of _ "nm_Data x"]) (subst receiveLoop.simps, auto simp: Let_def) }
qed

text \<open>The error number \<open>n\<close> comes as \<open>-n\<close>.\<close>

lemma kernelError_errno:
  assumes "0 < n" "n < 2 ^ 31"
  shows "kernelError (- of_nat n) = Errno (int n)"
proof -
  have "sint (of_nat n :: 32 word) = int n"
    using assms by (simp add: signed_of_nat signed_take_bit_int_eq_self)
  then show ?thesis using assms by (simp add: kernelError_def)
qed

text \<open>The socket is open, the request sent and the address known.\<close>

definition sent :: "'k kernel \<Rightarrow> nat \<Rightarrow> NetlinkRequest \<Rightarrow> 'k \<Rightarrow> nat \<Rightarrow> 32 word \<Rightarrow> 'k \<Rightarrow> bool" where
  "sent K sockType req k fd pid k2 \<longleftrightarrow> (\<exists>k1. getNetlinkSocket K sockType k = (Ok fd, k1) \<and>
     bindG (Send K fd req) (\<lambda>_. GetPid K fd) k1 = (Ok pid, k2))"

lemma Execute_sent:
  "sent K sockType req k fd pid k2 \<Longrightarrow> Execute K sockType resType req k =
     map_option (apsnd (k_close K fd)) (receiveLoop K fd (nh_Seq (nr_hdr req)) pid resType [] k2)"
  by (auto simp: sent_def Execute_def)

lemma Execute_dump:
  assumes "sent K sockType req k fd pid k2" "k_pagesize K < 2 ^ 32" "nh_Seq (nr_hdr req) = seq"
    and "delivers K fd k2 (map (datagram (k_bigEndian K)) (dgs @ [ms @ [(h, d)]])) k3"
    and "\<forall>m \<in> set (dgs @ [ms @ [(h, d)]]). fits K m"
    and "list_all (\<lambda>(h, d). dump_part seq pid h) (concat dgs @ ms)"
    and "nh_Seq h = seq" "nh_Pid h = pid" "nh_Type h = 3"
  shows "\<exists>res. Execute K sockType resType req k = Some (Ok res, k_close K fd k3) \<and>
    map sl_bytes res = wanted resType (concat dgs @ ms) \<and> list_all wf_slice res"
proof -
  obtain k4 where k4: "delivers K fd k2 (map (datagram (k_bigEndian K)) dgs) k4"
    "k_recvfrom K fd k4 = (Ok (datagram (k_bigEndian K) (ms @ [(h, d)])), k3)"
    using assms(4) by (auto simp: delivers_append)
  have parts: "\<forall>m \<in> set dgs. fits K m \<and> list_all (\<lambda>(h, d). dump_part seq pid h) m"
    using assms(5,6) by (auto simp: list_all_iff)
  obtain res where res: "receiveLoop K fd seq pid resType [] k2 = receiveLoop K fd seq pid resType res k4"
    "map sl_bytes res = wanted resType (concat dgs)" "list_all wf_slice res"
    using receiveLoop_dump [OF k4(1) assms(2) parts, of resType "[]"] by auto
  obtain more where "receiveLoop K fd seq pid resType res k4 = Some (Ok (res @ more), k3)"
    "map sl_bytes more = wanted resType ms" "list_all wf_slice more"
    using receiveLoop_end [OF k4(2) assms(2) _ _ assms(7-9), of resType res] assms(5,6) by auto
  with res Execute_sent [OF assms(1)] assms(3) show ?thesis by (simp add: wanted_def)
qed

text \<open>A kernel that answers from a script, on which the properties are evaluated.\<close>

record lab_kern =
  lk_replies :: "bytes list"
  lk_sent :: "bytes list"
  lk_open :: nat

definition lab_kernel :: "lab_kern kernel" where
  "lab_kernel =
     \<lparr>k_bigEndian = False, k_pagesize = 4096,
      k_socket = (\<lambda>_ k. (Ok 3, k\<lparr>lk_open := Suc (lk_open k)\<rparr>)), k_bind = (\<lambda>_ _ k. (Ok (), k)),
      k_close = (\<lambda>_ k. k\<lparr>lk_open := lk_open k - 1\<rparr>),
      k_sendto = (\<lambda>_ b k. (Ok (), k\<lparr>lk_sent := lk_sent k @ [b]\<rparr>)),
      k_recvfrom = (\<lambda>_ k. case lk_replies k of [] \<Rightarrow> (Err (Errno 11), k) | d # ds \<Rightarrow> (Ok d, k\<lparr>lk_replies := ds\<rparr>)),
      k_getsockname = (\<lambda>_ k. (Ok (Some 42), k)),
      k_openTun = (\<lambda>k. (Err (Errno 2), k)), k_tunSetIff = (\<lambda>_ _ _ k. (0, k)), k_tunSetPersist = (\<lambda>_ k. (0, k))\<rparr>"

definition lab_kern :: "bytes list \<Rightarrow> lab_kern" where
  "lab_kern ds = \<lparr>lk_replies = ds, lk_sent = [], lk_open = 0\<rparr>"

definition lab_hdr :: "16 word \<Rightarrow> 16 word \<Rightarrow> 32 word \<Rightarrow> NlMsghdr" where
  "lab_hdr ty fl seq = \<lparr>nh_Len = 0, nh_Type = ty, nh_Flags = fl, nh_Seq = seq, nh_Pid = 42\<rparr>"

section \<open>Properties\<close>

text \<open>C27. A dump is complete and ends: however the kernel spreads the messages over datagrams, once
  it has sent the one that ends the dump the call returns the payloads of all messages of the
  wanted type, in their order, and the socket is closed.\<close>

theorem netlink_dump_complete:
  assumes "sent K sockType req k fd pid k2" "k_pagesize K < 2 ^ 32" "nh_Seq (nr_hdr req) = seq"
    and "delivers K fd k2 (map (datagram (k_bigEndian K)) (dgs @ [ms @ [(h, d)]])) k3"
    and "\<forall>m \<in> set (dgs @ [ms @ [(h, d)]]). fits K m"
    and "list_all (\<lambda>(h, d). dump_part seq pid h) (concat dgs @ ms)"
    and "nh_Seq h = seq" "nh_Pid h = pid" "nh_Type h = 3"
  shows "\<exists>res. Execute K sockType resType req k = Some (Ok res, k_close K fd k3) \<and>
    map sl_bytes res = wanted resType (concat dgs @ ms)"
  using Execute_dump [OF assms] by blast

theorem netlink_dump_complete_witness:
  "\<exists>res. Execute lab_kernel 0 20
      \<lparr>nr_hdr = lab_hdr 22 769 7, nr_Data = [IfInfo (NewIfInfomsg 2)]\<rparr>
      (lab_kern [datagram False [(lab_hdr 20 2 7, [1, 2, 3, 4, 5])],
        datagram False [(lab_hdr 16 2 7, [9]), (lab_hdr 20 2 7, [6, 7]), (lab_hdr 3 2 7, [0, 0, 0, 0])]]) =
      Some (Ok res, \<lparr>lk_replies = [], lk_sent = [encodeMsg False (lab_hdr 22 769 7)
        [2, 0, 0, 0, 0, 0, 0, 0, 0, 0, 0, 0, 0, 0, 0, 0]], lk_open = 0\<rparr>) \<and>
    map sl_bytes res = [[1, 2, 3, 4, 5], [6, 7]]"
proof -
  let ?req = "\<lparr>nr_hdr = lab_hdr 22 769 7, nr_Data = [IfInfo (NewIfInfomsg 2)]\<rparr>"
  let ?d1 = "[(lab_hdr 20 2 7, [1, 2, 3, 4, 5])]"
  let ?d2 = "[(lab_hdr 16 2 7, [9]), (lab_hdr 20 2 7, [6, 7])]"
  let ?k = "lab_kern [datagram False ?d1, datagram False (?d2 @ [(lab_hdr 3 2 7, [0, 0, 0, 0])])]"
  let ?b = "encodeMsg False (lab_hdr 22 769 7) [2, 0, 0, 0, 0, 0, 0, 0, 0, 0, 0, 0, 0, 0, 0, 0]"
  let ?k2 = "?k\<lparr>lk_open := 1, lk_sent := [?b]\<rparr>"
  have "serializeRequest False ?req = Ok ?b" by code_simp
  then have s: "sent lab_kernel 0 ?req ?k 3 42 ?k2"
    by (simp add: sent_def getNetlinkSocket_def Send_def GetPid_def lab_kernel_def go_monad lab_kern_def)
  have be: "k_bigEndian lab_kernel = False" by (simp add: lab_kernel_def)
  have l: "delivers lab_kernel 3 ?k2 (map (datagram (k_bigEndian lab_kernel))
      ([?d1] @ [?d2 @ [(lab_hdr 3 2 7, [0, 0, 0, 0])]])) (?k2\<lparr>lk_replies := []\<rparr>)"
    by (simp add: be) (simp add: lab_kernel_def lab_kern_def)
  have f: "\<forall>m \<in> set ([?d1] @ [?d2 @ [(lab_hdr 3 2 7, [0, 0, 0, 0])]]). fits lab_kernel m"
    "list_all (\<lambda>(h, d). dump_part 7 42 h) (concat [?d1] @ ?d2)"
    "nh_Seq (lab_hdr 3 2 7) = 7" "nh_Pid (lab_hdr 3 2 7) = 42" "nh_Type (lab_hdr 3 2 7) = 3"
    "k_pagesize lab_kernel < 2 ^ 32" "nh_Seq (nr_hdr ?req) = 7" by code_simp+
  have "wanted 20 (concat [?d1] @ ?d2) = [[1, 2, 3, 4, 5], [6, 7]]" by code_simp
  moreover have "k_close lab_kernel 3 (?k2\<lparr>lk_replies := []\<rparr>) = \<lparr>lk_replies = [], lk_sent = [?b], lk_open = 0\<rparr>"
    by (simp add: lab_kernel_def lab_kern_def)
  ultimately show ?thesis
    using netlink_dump_complete [OF s f(6,7) l f(1-5), of 20] by simp
qed

end
