(* ===== verification/Netlink_Link.thy ===== *)
theory Netlink_Link
  imports Netlink_Socket Ovs_Utils
begin

text \<open>
  Links over netlink (\<open>netlink/link.go\<close>, \<open>netlink/link_linux.go\<close>): the requests that create,
  change, delete and find network devices, and the decoding of the kernel's description of a
  device.

  A function that is given a link may fill in its index; it returns the link it leaves behind.
\<close>

section \<open>Links\<close>

datatype ns_ref = NoNs | NsPid int | NsFd int

record LinkAttrs =
  la_Index :: int
  la_MTU :: int
  la_TxQLen :: int
  la_Name :: string
  la_HardwareAddr :: bytes
  la_Flags :: "64 word"
  la_ParentIndex :: int
  la_MasterIndex :: int
  la_Namespace :: ns_ref

definition zeroAttrs :: LinkAttrs where
  "zeroAttrs = \<lparr>la_Index = 0, la_MTU = 0, la_TxQLen = 0, la_Name = '''', la_HardwareAddr = [], la_Flags = 0,
     la_ParentIndex = 0, la_MasterIndex = 0, la_Namespace = NoNs\<rparr>"

definition NewLinkAttrs :: LinkAttrs where
  "NewLinkAttrs = zeroAttrs\<lparr>la_TxQLen := -1\<rparr>"

record Vxlan =
  vx_VxlanId :: int
  vx_VtepDevIndex :: int
  vx_SrcAddr :: "bytes option"
  vx_Group :: "bytes option"
  vx_TTL :: int
  vx_TOS :: int
  vx_Learning :: bool
  vx_Proxy :: bool
  vx_RSC :: bool
  vx_L2miss :: bool
  vx_L3miss :: bool
  vx_NoAge :: bool
  vx_GBP :: bool
  vx_Age :: int
  vx_Limit :: int
  vx_Port :: int
  vx_PortLow :: int
  vx_PortHigh :: int

definition zeroVxlan :: Vxlan where
  "zeroVxlan = \<lparr>vx_VxlanId = 0, vx_VtepDevIndex = 0, vx_SrcAddr = None, vx_Group = None, vx_TTL = 0, vx_TOS = 0,
     vx_Learning = False, vx_Proxy = False, vx_RSC = False, vx_L2miss = False, vx_L3miss = False, vx_NoAge = False,
     vx_GBP = False, vx_Age = 0, vx_Limit = 0, vx_Port = 0, vx_PortLow = 0, vx_PortHigh = 0\<rparr>"

datatype link =
    Device LinkAttrs
  | Dummy LinkAttrs
  | Ifb LinkAttrs
  | Bridge LinkAttrs
  | Vlan LinkAttrs int
  | Macvlan LinkAttrs "16 word"
  | Macvtap LinkAttrs "16 word"
  | Tuntap LinkAttrs "16 word"
  | Veth LinkAttrs string
  | GenericLink LinkAttrs string
  | VxlanLink LinkAttrs Vxlan
  | IPVlan LinkAttrs "16 word"

fun Attrs :: "link \<Rightarrow> LinkAttrs" where
  "Attrs (Device a) = a" | "Attrs (Dummy a) = a" | "Attrs (Ifb a) = a" | "Attrs (Bridge a) = a"
| "Attrs (Vlan a _) = a" | "Attrs (Macvlan a _) = a" | "Attrs (Macvtap a _) = a" | "Attrs (Tuntap a _) = a"
| "Attrs (Veth a _) = a" | "Attrs (GenericLink a _) = a" | "Attrs (VxlanLink a _) = a" | "Attrs (IPVlan a _) = a"

fun setAttrs :: "LinkAttrs \<Rightarrow> link \<Rightarrow> link" where
  "setAttrs a (Device _) = Device a" | "setAttrs a (Dummy _) = Dummy a" | "setAttrs a (Ifb _) = Ifb a"
| "setAttrs a (Bridge _) = Bridge a" | "setAttrs a (Vlan _ i) = Vlan a i" | "setAttrs a (Macvlan _ m) = Macvlan a m"
| "setAttrs a (Macvtap _ m) = Macvtap a m" | "setAttrs a (Tuntap _ m) = Tuntap a m" | "setAttrs a (Veth _ p) = Veth a p"
| "setAttrs a (GenericLink _ t) = GenericLink a t" | "setAttrs a (VxlanLink _ v) = VxlanLink a v"
| "setAttrs a (IPVlan _ m) = IPVlan a m"

fun linkType :: "link \<Rightarrow> string" where
  "linkType (Device _) = ''device''" | "linkType (Dummy _) = ''dummy''" | "linkType (Ifb _) = ''ifb''"
| "linkType (Bridge _) = ''bridge''" | "linkType (Vlan _ _) = ''vlan''" | "linkType (Macvlan _ _) = ''macvlan''"
| "linkType (Macvtap _ _) = ''macvtap''" | "linkType (Tuntap _ _) = ''tuntap''" | "linkType (Veth _ _) = ''veth''"
| "linkType (GenericLink _ t) = t" | "linkType (VxlanLink _ _) = ''vxlan''" | "linkType (IPVlan _ _) = ''ipvlan''"

lemma Attrs_setAttrs [simp]: "Attrs (setAttrs a l) = a" "linkType (setAttrs a l) = linkType l"
  by (cases l; simp)+

section \<open>Decoding\<close>

text \<open>\<open>native.Uint32(v[0:4])\<close> and \<open>native.Uint16(v[0:2])\<close>.\<close>

definition u32 :: "bool \<Rightarrow> gslice \<Rightarrow> int go" where
  "u32 be v = bind_go (sl_sub v 0 4) (\<lambda>s. Ok (uint (getNative be (take 4 (fst s)) :: 32 word)))"

definition u16 :: "bool \<Rightarrow> gslice \<Rightarrow> int go" where
  "u16 be v = bind_go (sl_sub v 0 2) (\<lambda>s. Ok (uint (getNative be (take 2 (fst s)) :: 16 word)))"

definition byteBool :: "gslice \<Rightarrow> bool go" where
  "byteBool v = bind_go (sl_at v 0) (\<lambda>b. Ok (b \<noteq> 0))"

definition firstBytes :: "nat \<Rightarrow> gslice \<Rightarrow> bytes go" where
  "firstBytes n v = bind_go (sl_sub v 0 n) (\<lambda>s. Ok (take n (fst s)))"

fun fold_go :: "('a \<Rightarrow> 'b \<Rightarrow> 'b go) \<Rightarrow> 'a list \<Rightarrow> 'b \<Rightarrow> 'b go" where
  "fold_go f [] b = Ok b"
| "fold_go f (x # xs) b = bind_go (f x b) (fold_go f xs)"

definition parseVlanData :: "bool \<Rightarrow> NetlinkRouteAttr list \<Rightarrow> int \<Rightarrow> int go" where
  "parseVlanData be data i = fold_go (\<lambda>a i. if ra_Type a = 1 then u16 be (ra_Value a) else Ok i) data i"

text \<open>
  One attribute of a VXLAN device. The reading of the port range (attribute 10) is as in the
  source: four bytes are always enough, so \<open>binary.Read\<close> returns nil and the range is not stored.
\<close>

definition parseVxlanDatum :: "bool \<Rightarrow> NetlinkRouteAttr \<Rightarrow> Vxlan \<Rightarrow> Vxlan go" where
  "parseVxlanDatum be a vx =
     (let t = ra_Type a; v = ra_Value a in
      if t = 1 then bind_go (u32 be v) (\<lambda>n. Ok (vx\<lparr>vx_VxlanId := n\<rparr>))
      else if t = 3 then bind_go (u32 be v) (\<lambda>n. Ok (vx\<lparr>vx_VtepDevIndex := n\<rparr>))
      else if t = 4 then bind_go (firstBytes 4 v) (\<lambda>b. Ok (vx\<lparr>vx_SrcAddr := Some b\<rparr>))
      else if t = 17 then bind_go (firstBytes 16 v) (\<lambda>b. Ok (vx\<lparr>vx_SrcAddr := Some b\<rparr>))
      else if t = 2 then bind_go (firstBytes 4 v) (\<lambda>b. Ok (vx\<lparr>vx_Group := Some b\<rparr>))
      else if t = 16 then bind_go (firstBytes 16 v) (\<lambda>b. Ok (vx\<lparr>vx_Group := Some b\<rparr>))
      else if t = 5 then bind_go (sl_at v 0) (\<lambda>b. Ok (vx\<lparr>vx_TTL := uint b\<rparr>))
      else if t = 6 then bind_go (sl_at v 0) (\<lambda>b. Ok (vx\<lparr>vx_TOS := uint b\<rparr>))
      else if t = 7 then bind_go (byteBool v) (\<lambda>b. Ok (vx\<lparr>vx_Learning := b\<rparr>))
      else if t = 11 then bind_go (byteBool v) (\<lambda>b. Ok (vx\<lparr>vx_Proxy := b\<rparr>))
      else if t = 12 then bind_go (byteBool v) (\<lambda>b. Ok (vx\<lparr>vx_RSC := b\<rparr>))
      else if t = 13 then bind_go (byteBool v) (\<lambda>b. Ok (vx\<lparr>vx_L2miss := b\<rparr>))
      else if t = 14 then bind_go (byteBool v) (\<lambda>b. Ok (vx\<lparr>vx_L3miss := b\<rparr>))
      else if t = 23 then bind_go (byteBool v) (\<lambda>b. Ok (vx\<lparr>vx_GBP := b\<rparr>))
      else if t = 8 then bind_go (u32 be v) (\<lambda>n. Ok (vx\<lparr>vx_Age := n, vx_NoAge := (n = 0)\<rparr>))
      else if t = 9 then bind_go (u32 be v) (\<lambda>n. Ok (vx\<lparr>vx_Limit := n\<rparr>))
      else if t = 15 then bind_go (u16 be v) (\<lambda>n. Ok (vx\<lparr>vx_Port := n\<rparr>))
      else if t = 10 then bind_go (firstBytes 4 v) (\<lambda>_. Ok vx)
      else Ok vx)"

definition parseVxlanData :: "bool \<Rightarrow> NetlinkRouteAttr list \<Rightarrow> Vxlan \<Rightarrow> Vxlan go" where
  "parseVxlanData be data vx = fold_go (parseVxlanDatum be) data vx"

definition parseIPVlanData :: "bool \<Rightarrow> NetlinkRouteAttr list \<Rightarrow> 16 word \<Rightarrow> 16 word go" where
  "parseIPVlanData be data mode = (case List.find (\<lambda>a. ra_Type a = 1) data of
       None \<Rightarrow> Ok mode
     | Some a \<Rightarrow> bind_go (u32 be (ra_Value a)) (\<lambda>n. Ok (of_int n)))"

definition macvlanModes :: "32 word list" where
  "macvlanModes = [0, 1, 2, 4, 8, 16]"

definition parseMacvlanData :: "bool \<Rightarrow> NetlinkRouteAttr list \<Rightarrow> 16 word \<Rightarrow> 16 word go" where
  "parseMacvlanData be data mode = (case List.find (\<lambda>a. ra_Type a = 1) data of
       None \<Rightarrow> Ok mode
     | Some a \<Rightarrow> bind_go (u32 be (ra_Value a)) (\<lambda>n. Ok
         (if n = 1 then 1 else if n = 2 then 2 else if n = 4 then 3 else if n = 8 then 4
          else if n = 16 then 5 else mode)))"

definition linkFlags :: "32 word \<Rightarrow> 64 word" where
  "linkFlags raw =
     (if raw AND 0x1 \<noteq> 0 then 1 else 0) OR (if raw AND 0x2 \<noteq> 0 then 2 else 0) OR
     (if raw AND 0x8 \<noteq> 0 then 4 else 0) OR (if raw AND 0x10 \<noteq> 0 then 8 else 0) OR
     (if raw AND 0x1000 \<noteq> 0 then 16 else 0)"

definition linkOfKind :: "string \<Rightarrow> link" where
  "linkOfKind t =
     (if t = ''dummy'' then Dummy zeroAttrs else if t = ''ifb'' then Ifb zeroAttrs
      else if t = ''bridge'' then Bridge zeroAttrs else if t = ''vlan'' then Vlan zeroAttrs 0
      else if t = ''veth'' then Veth zeroAttrs '''' else if t = ''vxlan'' then VxlanLink zeroAttrs zeroVxlan
      else if t = ''ipvlan'' then IPVlan zeroAttrs 0 else if t = ''macvlan'' then Macvlan zeroAttrs 0
      else if t = ''macvtap'' then Macvtap zeroAttrs 0 else GenericLink zeroAttrs t)"

text \<open>
  The data of a device are read according to the kind that was read before them, which is the kind
  of the link.
\<close>

fun parseInfoData :: "bool \<Rightarrow> NetlinkRouteAttr list \<Rightarrow> link option \<Rightarrow> link option go" where
  "parseInfoData be data (Some (Vlan a i)) = bind_go (parseVlanData be data i) (\<lambda>j. Ok (Some (Vlan a j)))"
| "parseInfoData be data (Some (VxlanLink a x)) = bind_go (parseVxlanData be data x) (\<lambda>y. Ok (Some (VxlanLink a y)))"
| "parseInfoData be data (Some (IPVlan a m)) = bind_go (parseIPVlanData be data m) (\<lambda>n. Ok (Some (IPVlan a n)))"
| "parseInfoData be data (Some (Macvlan a m)) = bind_go (parseMacvlanData be data m) (\<lambda>n. Ok (Some (Macvlan a n)))"
| "parseInfoData be data (Some (Macvtap a m)) = bind_go (parseMacvlanData be data m) (\<lambda>n. Ok (Some (Macvtap a n)))"
| "parseInfoData be data l = Ok l"

definition parseInfo :: "bool \<Rightarrow> NetlinkRouteAttr \<Rightarrow> link option \<Rightarrow> link option go" where
  "parseInfo be info l =
     (if ra_Type info = 1 then
        bind_go (sl_init (ra_Value info)) (\<lambda>v. Ok (Some (linkOfKind (bytesString (sl_bytes v)))))
      else if ra_Type info = 2 then bind_go (ParseRouteAttr be (ra_Value info)) (\<lambda>data. parseInfoData be data l)
      else Ok l)"

definition parseLinkAttr :: "bool \<Rightarrow> NetlinkRouteAttr \<Rightarrow> LinkAttrs \<times> link option \<Rightarrow> (LinkAttrs \<times> link option) go" where
  "parseLinkAttr be attr = (\<lambda>(base, l).
     let t = ra_Type attr; v = ra_Value attr in
     if t = 18 then bind_go (ParseRouteAttr be v) (\<lambda>infos.
       bind_go (fold_go (parseInfo be) infos l) (\<lambda>l'. Ok (base, l')))
     else if t = 1 then Ok (if \<exists>b \<in> set (sl_bytes v). b \<noteq> 0 then base\<lparr>la_HardwareAddr := sl_bytes v\<rparr> else base, l)
     else if t = 3 then bind_go (sl_init v) (\<lambda>n. Ok (base\<lparr>la_Name := bytesString (sl_bytes n)\<rparr>, l))
     else if t = 4 then bind_go (u32 be v) (\<lambda>n. Ok (base\<lparr>la_MTU := n\<rparr>, l))
     else if t = 5 then bind_go (u32 be v) (\<lambda>n. Ok (base\<lparr>la_ParentIndex := n\<rparr>, l))
     else if t = 10 then bind_go (u32 be v) (\<lambda>n. Ok (base\<lparr>la_MasterIndex := n\<rparr>, l))
     else if t = 13 then bind_go (u32 be v) (\<lambda>n. Ok (base\<lparr>la_TxQLen := n\<rparr>, l))
     else Ok (base, l))"

definition linkDeserialize :: "bool \<Rightarrow> gslice \<Rightarrow> link go" where
  "linkDeserialize be m =
     bind_go (DeserializeIfInfomsg be m) (\<lambda>msg.
     bind_go (sl_from m 16) (\<lambda>rest.
     bind_go (ParseRouteAttr be rest) (\<lambda>attrs.
     bind_go (fold_go (parseLinkAttr be) attrs
       (zeroAttrs\<lparr>la_Index := sint (ii_Index msg), la_Flags := linkFlags (ii_Flags msg)\<rparr>, None))
       (\<lambda>(base, l). Ok (setAttrs base (case l of Some l' \<Rightarrow> l' | None \<Rightarrow> Device zeroAttrs))))))"

section \<open>Calls over netlink\<close>

text \<open>The variables of the two packages, and the kernel. A call that never returns is \<open>None\<close>.\<close>

record 'k nl_state =
  nextSeqNr :: "32 word"
  lookupByDump :: bool
  kern :: 'k

type_synonym ('k, 'a) nlm = "'k nl_state \<Rightarrow> ('a go \<times> 'k nl_state) option"

definition tryN :: "('k, 'a) nlm \<Rightarrow> ('a \<Rightarrow> ('k, 'b) nlm) \<Rightarrow> (goerr \<Rightarrow> ('k, 'b) nlm) \<Rightarrow> ('k, 'b) nlm" where
  "tryN m f h s = (case m s of
       None \<Rightarrow> None
     | Some (Ok a, s') \<Rightarrow> f a s'
     | Some (Err e, s') \<Rightarrow> h e s'
     | Some (Panic p, s') \<Rightarrow> Some (Panic p, s')
     | Some (Fatal t, s') \<Rightarrow> Some (Fatal t, s'))"

definition liftN :: "'a go \<Rightarrow> ('k, 'a) nlm" where
  "liftN r s = Some (r, s)"

definition bindN :: "('k, 'a) nlm \<Rightarrow> ('a \<Rightarrow> ('k, 'b) nlm) \<Rightarrow> ('k, 'b) nlm" where
  "bindN m f = tryN m f (\<lambda>e. liftN (Err e))"

definition readN :: "('k nl_state \<Rightarrow> 'a) \<Rightarrow> ('k, 'a) nlm" where
  "readN f s = Some (Ok (f s), s)"

definition modifyN :: "('k nl_state \<Rightarrow> 'k nl_state) \<Rightarrow> ('k, unit) nlm" where
  "modifyN f s = Some (Ok (), f s)"

lemmas nl_monad = tryN_def bindN_def liftN_def readN_def modifyN_def

lemma bindN_simps [simp]:
  "m s = Some (Ok a, s') \<Longrightarrow> bindN m f s = f a s'"
  "m s = Some (Err e, s') \<Longrightarrow> bindN m f s = Some (Err e, s')"
  "bindN (liftN (Ok a)) f = f a"
  by (auto simp: nl_monad)

lemma bindN_readN: "bindN (readN f) g s = g (f s) s"
  by (simp add: nl_monad)

lemma tryN_simps [simp]:
  "m s = Some (Ok a, s') \<Longrightarrow> tryN m f h s = f a s'"
  "m s = Some (Err e, s') \<Longrightarrow> tryN m f h s = h e s'"
  by (auto simp: nl_monad)

definition NewNetlinkRequest :: "16 word \<Rightarrow> 16 word \<Rightarrow> ('k, NetlinkRequest) nlm" where
  "NewNetlinkRequest proto flags s =
     (let seq = nextSeqNr s + 1
      in Some (Ok \<lparr>nr_hdr = \<lparr>nh_Len = 16, nh_Type = proto, nh_Flags = 1 OR flags, nh_Seq = seq, nh_Pid = 0\<rparr>,
           nr_Data = []\<rparr>, s\<lparr>nextSeqNr := seq\<rparr>))"

definition execRoute :: "'k kernel \<Rightarrow> 16 word \<Rightarrow> NetlinkRequest \<Rightarrow> ('k, gslice list) nlm" where
  "execRoute K resType req s = map_option (\<lambda>(r, k). (r, s\<lparr>kern := k\<rparr>)) (Execute K 0 resType req (kern s))"

section \<open>Finding links\<close>

definition execGetLink :: "'k kernel \<Rightarrow> NetlinkRequest \<Rightarrow> ('k, link) nlm" where
  "execGetLink K req = tryN (execRoute K 0 req)
     (\<lambda>msgs. case msgs of
          [] \<Rightarrow> liftN (Err (ErrNew ''Link not found''))
        | [m] \<Rightarrow> liftN (linkDeserialize (k_bigEndian K) m)
        | _ \<Rightarrow> liftN (Err (ErrNew ''More than one link found'')))
     (\<lambda>e. liftN (Err (if e = ENODEV then ErrNew ''Link not found'' else e)))"

definition LinkList :: "'k kernel \<Rightarrow> ('k, link list) nlm" where
  "LinkList K = bindN (NewNetlinkRequest 18 0x300) (\<lambda>req.
     bindN (execRoute K 16 (AddData (IfInfo (NewIfInfomsg 0)) req)) (\<lambda>msgs.
     liftN (traverse_go (linkDeserialize (k_bigEndian K)) msgs)))"

definition linkByNameDump :: "'k kernel \<Rightarrow> string \<Rightarrow> ('k, link) nlm" where
  "linkByNameDump K name = bindN (LinkList K) (\<lambda>links.
     case List.find (\<lambda>l. la_Name (Attrs l) = name) links of
       Some l \<Rightarrow> liftN (Ok l)
     | None \<Rightarrow> liftN (Err (Errorf ''Link %s not found'' [EStr name])))"

definition linkRequest :: "string \<Rightarrow> NetlinkRequest \<Rightarrow> NetlinkRequest" where
  "linkRequest name req = AddData (NewRtAttr 3 (ZeroTerminated name)) (AddData (IfInfo (NewIfInfomsg 0)) req)"

definition nlLinkByName :: "'k kernel \<Rightarrow> string \<Rightarrow> ('k, link) nlm" where
  "nlLinkByName K name = bindN (readN lookupByDump) (\<lambda>dump.
     if dump then linkByNameDump K name
     else bindN (NewNetlinkRequest 18 4) (\<lambda>req.
       tryN (execGetLink K (linkRequest name req)) (\<lambda>l. liftN (Ok l)) (\<lambda>e.
         if e = EINVAL then bindN (modifyN (\<lambda>s. s\<lparr>lookupByDump := True\<rparr>)) (\<lambda>_. linkByNameDump K name)
         else liftN (Err e))))"

definition LinkByIndex :: "'k kernel \<Rightarrow> int \<Rightarrow> ('k, link) nlm" where
  "LinkByIndex K index = bindN (NewNetlinkRequest 18 4) (\<lambda>req.
     execGetLink K (AddData (IfInfo ((NewIfInfomsg 0)\<lparr>ii_Index := of_int index\<rparr>)) req))"

text \<open>A failed lookup leaves the index 0.\<close>

definition ensureIndex :: "'k kernel \<Rightarrow> LinkAttrs \<Rightarrow> ('k, LinkAttrs) nlm" where
  "ensureIndex K base =
     (if la_Index base = 0 then
        tryN (nlLinkByName K (la_Name base)) (\<lambda>l. liftN (Ok (base\<lparr>la_Index := la_Index (Attrs l)\<rparr>)))
          (\<lambda>_. liftN (Ok base))
      else liftN (Ok base))"

section \<open>Changing links\<close>

text \<open>
  The shape of every change of a link: the index is looked up, and a request with the header \<open>msg\<close>
  and the attributes is executed.
\<close>

definition changeLink :: "'k kernel \<Rightarrow> 16 word \<Rightarrow> IfInfomsg \<Rightarrow> nl_data list \<Rightarrow> link \<Rightarrow> ('k, link) nlm" where
  "changeLink K proto msg attrs l =
     bindN (ensureIndex K (Attrs l)) (\<lambda>base.
     bindN (NewNetlinkRequest proto 4) (\<lambda>req.
     bindN (execRoute K 0 (fold AddData attrs (AddData (IfInfo (msg\<lparr>ii_Index := of_int (la_Index base)\<rparr>)) req)))
       (\<lambda>_. liftN (Ok (setAttrs base l)))))"

definition nlLinkSetUp :: "'k kernel \<Rightarrow> link \<Rightarrow> ('k, link) nlm" where
  "nlLinkSetUp K l = changeLink K 16 ((NewIfInfomsg 0)\<lparr>ii_Change := 1, ii_Flags := 1\<rparr>) [] l"

definition LinkSetDown :: "'k kernel \<Rightarrow> link \<Rightarrow> ('k, link) nlm" where
  "LinkSetDown K l = changeLink K 16 ((NewIfInfomsg 0)\<lparr>ii_Change := 1, ii_Flags := 0\<rparr>) [] l"

definition LinkSetMTU :: "'k kernel \<Rightarrow> int \<Rightarrow> link \<Rightarrow> ('k, link) nlm" where
  "LinkSetMTU K mtu l = changeLink K 19 (NewIfInfomsg 0) [NewRtAttr 4 (put32 (k_bigEndian K) (of_int mtu))] l"

definition LinkSetName :: "'k kernel \<Rightarrow> string \<Rightarrow> link \<Rightarrow> ('k, link) nlm" where
  "LinkSetName K name l = changeLink K 19 (NewIfInfomsg 0) [NewRtAttr 3 (stringBytes name)] l"

definition LinkSetHardwareAddr :: "'k kernel \<Rightarrow> bytes \<Rightarrow> link \<Rightarrow> ('k, link) nlm" where
  "LinkSetHardwareAddr K hwaddr l = changeLink K 19 (NewIfInfomsg 0) [NewRtAttr 1 hwaddr] l"

definition LinkSetMasterByIndex :: "'k kernel \<Rightarrow> int \<Rightarrow> link \<Rightarrow> ('k, link) nlm" where
  "LinkSetMasterByIndex K masterIndex l =
     changeLink K 19 (NewIfInfomsg 0) [NewRtAttr 10 (put32 (k_bigEndian K) (of_int masterIndex))] l"

definition LinkSetMaster :: "'k kernel \<Rightarrow> LinkAttrs option \<Rightarrow> link \<Rightarrow> ('k, link) nlm" where
  "LinkSetMaster K master l = (case master of
       None \<Rightarrow> LinkSetMasterByIndex K 0 l
     | Some base \<Rightarrow> bindN (ensureIndex K base) (\<lambda>base'. LinkSetMasterByIndex K (la_Index base') l))"

definition LinkSetNsPid :: "'k kernel \<Rightarrow> int \<Rightarrow> link \<Rightarrow> ('k, link) nlm" where
  "LinkSetNsPid K nspid l = changeLink K 19 (NewIfInfomsg 0) [NewRtAttr 19 (put32 (k_bigEndian K) (of_int nspid))] l"

definition LinkSetNsFd :: "'k kernel \<Rightarrow> int \<Rightarrow> link \<Rightarrow> ('k, link) nlm" where
  "LinkSetNsFd K fd l = changeLink K 19 (NewIfInfomsg 0) [NewRtAttr 28 (put32 (k_bigEndian K) (of_int fd))] l"

definition boolToByte :: "bool \<Rightarrow> bytes" where
  "boolToByte b = (if b then [1] else [0])"

definition setProtinfoAttr :: "'k kernel \<Rightarrow> int \<Rightarrow> bool \<Rightarrow> link \<Rightarrow> ('k, link) nlm" where
  "setProtinfoAttr K attr mode l = changeLink K 19 (NewIfInfomsg 7)
     [addChild (NewRtAttr (12 + 0x8000) []) (NewRtAttr attr (boolToByte mode))] l"

definition nlLinkDel :: "'k kernel \<Rightarrow> link \<Rightarrow> ('k, link) nlm" where
  "nlLinkDel K l = changeLink K 17 (NewIfInfomsg 0) [] l"

definition LinkSetHairpin :: "'k kernel \<Rightarrow> bool \<Rightarrow> link \<Rightarrow> ('k, link) nlm" where
  "LinkSetHairpin K mode l = setProtinfoAttr K 4 mode l"

definition LinkSetGuard :: "'k kernel \<Rightarrow> bool \<Rightarrow> link \<Rightarrow> ('k, link) nlm" where
  "LinkSetGuard K mode l = setProtinfoAttr K 5 mode l"

definition LinkSetFastLeave :: "'k kernel \<Rightarrow> bool \<Rightarrow> link \<Rightarrow> ('k, link) nlm" where
  "LinkSetFastLeave K mode l = setProtinfoAttr K 7 mode l"

definition LinkSetLearning :: "'k kernel \<Rightarrow> bool \<Rightarrow> link \<Rightarrow> ('k, link) nlm" where
  "LinkSetLearning K mode l = setProtinfoAttr K 8 mode l"

definition LinkSetRootBlock :: "'k kernel \<Rightarrow> bool \<Rightarrow> link \<Rightarrow> ('k, link) nlm" where
  "LinkSetRootBlock K mode l = setProtinfoAttr K 6 mode l"

definition LinkSetFlood :: "'k kernel \<Rightarrow> bool \<Rightarrow> link \<Rightarrow> ('k, link) nlm" where
  "LinkSetFlood K mode l = setProtinfoAttr K 9 mode l"

section \<open>Creating links\<close>

definition boolAttr :: "bool \<Rightarrow> bytes" where
  "boolAttr b = Uint8Attr (if b then 1 else 0)"

definition vxlanAddr :: "int \<Rightarrow> int \<Rightarrow> bytes option \<Rightarrow> nl_data list" where
  "vxlanAddr attr4 attr6 addr = (case addr of
       None \<Rightarrow> []
     | Some a \<Rightarrow> (case To4 a of
          Some ip \<Rightarrow> [NewRtAttr attr4 ip]
        | None \<Rightarrow> (case To16 a of Some ip \<Rightarrow> [NewRtAttr attr6 ip] | None \<Rightarrow> [])))"

definition addVxlanAttrs :: "bool \<Rightarrow> Vxlan \<Rightarrow> nl_data \<Rightarrow> nl_data" where
  "addVxlanAttrs be vx linkInfo = addChild linkInfo (foldl addChild (NewRtAttr 2 [])
     ([NewRtAttr 1 (Uint32Attr be (of_int (vx_VxlanId vx)))] @
      (if vx_VtepDevIndex vx \<noteq> 0 then [NewRtAttr 3 (Uint32Attr be (of_int (vx_VtepDevIndex vx)))] else []) @
      vxlanAddr 4 17 (vx_SrcAddr vx) @ vxlanAddr 2 16 (vx_Group vx) @
      [NewRtAttr 5 (Uint8Attr (of_int (vx_TTL vx))), NewRtAttr 6 (Uint8Attr (of_int (vx_TOS vx))),
       NewRtAttr 7 (boolAttr (vx_Learning vx)), NewRtAttr 11 (boolAttr (vx_Proxy vx)),
       NewRtAttr 12 (boolAttr (vx_RSC vx)), NewRtAttr 13 (boolAttr (vx_L2miss vx)),
       NewRtAttr 14 (boolAttr (vx_L3miss vx))] @
      (if vx_GBP vx then [NewRtAttr 23 (boolAttr (vx_GBP vx))] else []) @
      (if vx_NoAge vx then [NewRtAttr 8 (Uint32Attr be 0)]
       else if vx_Age vx > 0 then [NewRtAttr 8 (Uint32Attr be (of_int (vx_Age vx)))] else []) @
      (if vx_Limit vx > 0 then [NewRtAttr 9 (Uint32Attr be (of_int (vx_Limit vx)))] else []) @
      (if vx_Port vx > 0 then [NewRtAttr 15 (Uint16Attr be (of_int (vx_Port vx)))] else []) @
      (if vx_PortLow vx > 0 \<or> vx_PortHigh vx > 0
       then [NewRtAttr 10 (put16 True (of_int (vx_PortLow vx)) @ put16 True (of_int (vx_PortHigh vx)))] else [])))"

definition vethPeer :: "bool \<Rightarrow> LinkAttrs \<Rightarrow> string \<Rightarrow> nl_data" where
  "vethPeer be base peerName = foldl addChild (NewRtAttr 1 [])
     ([IfInfo (NewIfInfomsg 0), NewRtAttr 3 (ZeroTerminated peerName)] @
      (if la_TxQLen base \<ge> 0 then [NewRtAttr 13 (Uint32Attr be (of_int (la_TxQLen base)))] else []) @
      (if la_MTU base > 0 then [NewRtAttr 4 (Uint32Attr be (of_int (la_MTU base)))] else []))"

text \<open>The attribute that says what kind of device to make. A mode beyond the table panics.\<close>

definition linkInfoAttr :: "bool \<Rightarrow> link \<Rightarrow> nl_data go" where
  "linkInfoAttr be l =
     (let linkInfo = addChild (NewRtAttr 18 []) (NewRtAttr 1 (NonZeroTerminated (linkType l))) in
      case l of
        Vlan a vlanId \<Rightarrow> Ok (addChild linkInfo (addChild (NewRtAttr 2 []) (NewRtAttr 1 (put16 be (of_int vlanId)))))
      | Veth base peerName \<Rightarrow> Ok (addChild linkInfo (addChild (NewRtAttr 2 []) (vethPeer be base peerName)))
      | VxlanLink a vx \<Rightarrow> Ok (addVxlanAttrs be vx linkInfo)
      | IPVlan a mode \<Rightarrow> Ok (addChild linkInfo (addChild (NewRtAttr 2 []) (NewRtAttr 1 (Uint16Attr be mode))))
      | Macvlan a mode \<Rightarrow>
          if mode \<noteq> 0 then bind_go (indexGo macvlanModes (unat mode)) (\<lambda>m.
            Ok (addChild linkInfo (addChild (NewRtAttr 2 []) (NewRtAttr 1 (Uint32Attr be m)))))
          else Ok linkInfo
      | _ \<Rightarrow> Ok linkInfo)"

text \<open>The request without the header of the message and the kind: an ipvlan needs a parent.\<close>

definition linkAddAttrs :: "bool \<Rightarrow> link \<Rightarrow> nl_data list go" where
  "linkAddAttrs be l = (let base = Attrs l in
     if la_ParentIndex base = 0 \<and> linkType l = ''ipvlan''
     then Err (ErrNew ''Can't create ipvlan link without ParentIndex'')
     else bind_go (linkInfoAttr be l) (\<lambda>linkInfo. Ok (
       (if la_ParentIndex base \<noteq> 0 then [NewRtAttr 5 (put32 be (of_int (la_ParentIndex base)))] else []) @
       [NewRtAttr 3 (ZeroTerminated (la_Name base))] @
       (if la_MTU base > 0 then [NewRtAttr 4 (Uint32Attr be (of_int (la_MTU base)))] else []) @
       (if la_TxQLen base \<ge> 0 then [NewRtAttr 13 (Uint32Attr be (of_int (la_TxQLen base)))] else []) @
       (case la_Namespace base of NoNs \<Rightarrow> []
          | NsPid p \<Rightarrow> [NewRtAttr 19 (Uint32Attr be (of_int p))]
          | NsFd f \<Rightarrow> [NewRtAttr 28 (Uint32Attr be (of_int f))]) @
       [linkInfo])))"

text \<open>After the creation: the index, and the master, which cannot be set during the creation.\<close>

definition finishLink :: "'k kernel \<Rightarrow> link \<Rightarrow> ('k, link) nlm" where
  "finishLink K l = bindN (ensureIndex K (Attrs l)) (\<lambda>base.
     if la_MasterIndex base \<noteq> 0 then LinkSetMasterByIndex K (la_MasterIndex base) (setAttrs base l)
     else liftN (Ok (setAttrs base l)))"

definition onKernel :: "('k, 'a) gom \<Rightarrow> ('k, 'a) nlm" where
  "onKernel m s = (case m (kern s) of (r, k) \<Rightarrow> Some (r, s\<lparr>kern := k\<rparr>))"

text \<open>A tun or tap device is made through its own file.\<close>

definition tunName :: "string \<Rightarrow> bytes" where
  "tunName name = (let b = take 15 (stringBytes name) in b @ replicate (16 - length b) 0)"

definition tuntapSetup :: "'k kernel \<Rightarrow> string \<Rightarrow> 16 word \<Rightarrow> nat \<Rightarrow> ('k, unit) gom" where
  "tuntapSetup K name mode fd k =
     (case k_tunSetIff K fd (tunName name) (0x2000 OR 0x8000 OR mode) k of
        (errno, k1) \<Rightarrow> if errno \<noteq> 0 then (Err (Errorf ''Tuntap IOCTL TUNSETIFF failed, errno %v'' [EErr (Errno errno)]), k1)
          else (case k_tunSetPersist K fd k1 of
              (errno', k2) \<Rightarrow> if errno' \<noteq> 0
                then (Err (Errorf ''Tuntap IOCTL TUNSETPERSIST failed, errno %v'' [EErr (Errno errno')]), k2) else (Ok (), k2)))"

definition LinkAddTuntap :: "'k kernel \<Rightarrow> LinkAttrs \<Rightarrow> 16 word \<Rightarrow> ('k, link) nlm" where
  "LinkAddTuntap K base mode =
     (if mode < 1 \<or> mode > 2 then liftN (Err (Errorf ''Tuntap.Mode %v unknown!'' [EInt (uint mode)]))
      else bindN (onKernel (k_openTun K)) (\<lambda>fd s.
        map_option (apsnd (\<lambda>s. s\<lparr>kern := k_close K fd (kern s)\<rparr>))
          (bindN (onKernel (tuntapSetup K (la_Name base) mode fd)) (\<lambda>_. finishLink K (Tuntap base mode)) s)))"

definition nlLinkAdd :: "'k kernel \<Rightarrow> link \<Rightarrow> ('k, link) nlm" where
  "nlLinkAdd K l =
     (if la_Name (Attrs l) = '''' then liftN (Err (ErrNew ''LinkAttrs.Name cannot be empty!''))
      else (case l of
          Tuntap base mode \<Rightarrow> LinkAddTuntap K base mode
        | _ \<Rightarrow> bindN (NewNetlinkRequest 16 (0x400 OR 0x200 OR 4)) (\<lambda>req.
            bindN (liftN (linkAddAttrs (k_bigEndian K) l)) (\<lambda>attrs.
            bindN (execRoute K 0 (fold AddData attrs (AddData (IfInfo (NewIfInfomsg 0)) req))) (\<lambda>_.
            finishLink K l)))))"

section \<open>Reading attributes\<close>

text \<open>The values of attributes that were serialised.\<close>

lemma sub_view:
  assumes "wf_slice v" "sl_bytes v = b @ rest" "length b = n"
  shows "\<exists>s. sl_sub v 0 n = Ok s \<and> take n (fst s) = b"
proof -
  have "n \<le> snd v" using snd_sl [OF assms(1)] assms(2,3) by simp
  with sl_sub_within [OF assms(1), of 0 n] sl_prefix [OF assms(1), of n] assms(2,3) show ?thesis by auto
qed

lemma u32_view [simp]: "wf_slice v \<Longrightarrow> sl_bytes v = put32 be w \<Longrightarrow> u32 be v = Ok (uint w)"
  using sub_view [of v "put32 be w" "[]" 4] by (auto simp: u32_def)

lemma u16_view [simp]: "wf_slice v \<Longrightarrow> sl_bytes v = put16 be w \<Longrightarrow> u16 be v = Ok (uint w)"
  using sub_view [of v "put16 be w" "[]" 2] by (auto simp: u16_def)

lemma firstBytes_view [simp]: "wf_slice v \<Longrightarrow> sl_bytes v = b \<Longrightarrow> length b = n \<Longrightarrow> firstBytes n v = Ok b"
  using sub_view [of v b "[]" n] by (auto simp: firstBytes_def)

lemma sl_at_view [simp]: "wf_slice v \<Longrightarrow> sl_bytes v = b # bs \<Longrightarrow> sl_at v 0 = Ok b"
  by (cases v; cases "fst v"; cases "snd v") (auto simp: sl_at_def sl_bytes_def)

lemma byteBool_view [simp]: "wf_slice v \<Longrightarrow> sl_bytes v = [b] \<Longrightarrow> byteBool v = Ok (b \<noteq> 0)"
  by (simp add: byteBool_def)

lemma sl_init_view:
  assumes "wf_slice v" "sl_bytes v = xs @ [x]"
  shows "\<exists>n. sl_init v = Ok n \<and> sl_bytes n = xs"
proof -
  have n: "snd v = Suc (length xs)" using snd_sl [OF assms(1)] assms(2) by simp
  with sl_sub_within [OF assms(1), of 0 "length xs"] assms(2) show ?thesis by (auto simp: sl_init_def)
qed

text \<open>
  \<open>reads be f ds g\<close>: the loop with body \<open>f\<close> over the parsed form of the attributes \<open>ds\<close> changes
  its variable by \<open>g\<close>.
\<close>

definition reads :: "bool \<Rightarrow> (NetlinkRouteAttr \<Rightarrow> 'b \<Rightarrow> 'b go) \<Rightarrow> nl_data list \<Rightarrow> ('b \<Rightarrow> 'b) \<Rightarrow> bool" where
  "reads be f ds g \<longleftrightarrow> (\<forall>as x. list_all2 (attr_view be) as ds \<longrightarrow> fold_go f as x = Ok (g x))"

lemma fold_go_append: "fold_go f (xs @ ys) b = bind_go (fold_go f xs b) (fold_go f ys)"
proof (induction xs arbitrary: b)
  case (Cons x xs)
  then show ?case by (cases "f x b") auto
qed simp

lemma reads_Nil: "reads be f [] id"
  by (simp add: reads_def)

lemma reads_append:
  assumes "reads be f ds g" "reads be f es h"
  shows "reads be f (ds @ es) (h \<circ> g)"
  using assms unfolding reads_def by (auto simp: list_all2_append2 fold_go_append)

lemma reads_one:
  assumes "\<And>a x. attr_view be a d \<Longrightarrow> f a x = Ok (g x)"
  shows "reads be f [d] g"
  using assms by (auto simp: reads_def list_all2_Cons2)

lemma reads_Cons:
  assumes "\<And>a x. attr_view be a d \<Longrightarrow> f a x = Ok (g x)" "reads be f ds h"
  shows "reads be f (d # ds) (h \<circ> g)"
  using reads_append [OF reads_one [OF assms(1)] assms(2)] by simp

lemma reads_if:
  "(b \<Longrightarrow> reads be f ds g) \<Longrightarrow> reads be f (if b then ds else []) (\<lambda>x. if b then g x else x)"
  by (simp add: reads_def)

lemma nested_read:
  assumes "attr_view be a (RtAttr t [] cs)" "cs \<noteq> []" "list_all attr_ok cs" "reads be f cs g"
  shows "\<exists>as. ParseRouteAttr be (ra_Value a) = Ok as \<and> (\<forall>x. fold_go f as x = Ok (g x))"
proof -
  have "wf_slice (ra_Value a)" "sl_bytes (ra_Value a) = concat (map (encode be) cs)"
    using assms(1,2) by (simp_all add: attr_view_def padded_def)
  from ParseRouteAttr_encoded [OF this assms(3)] assms(4) show ?thesis by (auto simp: reads_def)
qed

lemma uint_of_int [simp]:
  "0 \<le> n \<Longrightarrow> n < 2 ^ LENGTH('a) \<Longrightarrow> uint (of_int n :: 'a::len word) = n"
  by (simp add: take_bit_int_eq_self unsigned_of_int)

text \<open>The attributes that \<open>addVxlanAttrs\<close> writes.\<close>

definition vxlanAttrs :: "bool \<Rightarrow> Vxlan \<Rightarrow> nl_data list" where
  "vxlanAttrs be vx = (case addVxlanAttrs be vx (NewRtAttr 18 []) of
     RtAttr _ _ [RtAttr _ _ cs] \<Rightarrow> cs | _ \<Rightarrow> [])"

definition plainAddr :: "bytes option \<Rightarrow> bool" where
  "plainAddr a \<longleftrightarrow> (case a of None \<Rightarrow> True | Some ip \<Rightarrow> length ip = 4 \<or> length ip = 16 \<and> To4 ip = None)"

definition wf_vxlan :: "Vxlan \<Rightarrow> bool" where
  "wf_vxlan vx \<longleftrightarrow> plainAddr (vx_SrcAddr vx) \<and> plainAddr (vx_Group vx) \<and>
     vx_VxlanId vx \<in> {0 ..< 2 ^ 32} \<and> vx_VtepDevIndex vx \<in> {0 ..< 2 ^ 32} \<and>
     vx_TTL vx \<in> {0 ..< 256} \<and> vx_TOS vx \<in> {0 ..< 256} \<and> vx_Age vx \<in> {0 ..< 2 ^ 32} \<and>
     vx_Limit vx \<in> {0 ..< 2 ^ 32} \<and> vx_Port vx \<in> {0 ..< 2 ^ 16} \<and> (vx_NoAge vx \<longrightarrow> vx_Age vx = 0)"

lemma foldl_addChild: "foldl addChild (RtAttr t d cs) xs = RtAttr t d (cs @ xs)"
  by (induction xs arbitrary: cs) simp_all

lemma reads_vxlanAddr:
  assumes "plainAddr a"
  shows "reads be (parseVxlanDatum be) (vxlanAddr 4 17 a) (\<lambda>x. case a of None \<Rightarrow> x | Some ip \<Rightarrow> x\<lparr>vx_SrcAddr := Some ip\<rparr>)"
    and "reads be (parseVxlanDatum be) (vxlanAddr 2 16 a) (\<lambda>x. case a of None \<Rightarrow> x | Some ip \<Rightarrow> x\<lparr>vx_Group := Some ip\<rparr>)"
  using assms
  by (auto simp: vxlanAddr_def plainAddr_def To4_def To16_def reads_Nil [unfolded id_def] NewRtAttr_def
      attr_view_def parseVxlanDatum_def Let_def split: option.splits if_splits intro!: reads_one)

lemma reads_vxlan_one:
  fixes vx :: Vxlan
  assumes "wf_vxlan vx"
  shows "reads be (parseVxlanDatum be) [NewRtAttr 1 (Uint32Attr be (of_int (vx_VxlanId vx)))] (\<lambda>x. x\<lparr>vx_VxlanId := vx_VxlanId vx\<rparr>)"
    "reads be (parseVxlanDatum be) [NewRtAttr 3 (Uint32Attr be (of_int (vx_VtepDevIndex vx)))] (\<lambda>x. x\<lparr>vx_VtepDevIndex := vx_VtepDevIndex vx\<rparr>)"
    "reads be (parseVxlanDatum be) [NewRtAttr 5 (Uint8Attr (of_int (vx_TTL vx))), NewRtAttr 6 (Uint8Attr (of_int (vx_TOS vx))),
       NewRtAttr 7 (boolAttr (vx_Learning vx)), NewRtAttr 11 (boolAttr (vx_Proxy vx)),
       NewRtAttr 12 (boolAttr (vx_RSC vx)), NewRtAttr 13 (boolAttr (vx_L2miss vx)), NewRtAttr 14 (boolAttr (vx_L3miss vx))]
       (\<lambda>x. x\<lparr>vx_TTL := vx_TTL vx, vx_TOS := vx_TOS vx, vx_Learning := vx_Learning vx, vx_Proxy := vx_Proxy vx,
          vx_RSC := vx_RSC vx, vx_L2miss := vx_L2miss vx, vx_L3miss := vx_L3miss vx\<rparr>)"
    "reads be (parseVxlanDatum be) [NewRtAttr 23 (boolAttr True)] (\<lambda>x. x\<lparr>vx_GBP := True\<rparr>)"
    "reads be (parseVxlanDatum be) [NewRtAttr 8 (Uint32Attr be (of_int (vx_Age vx)))] (\<lambda>x. x\<lparr>vx_Age := vx_Age vx, vx_NoAge := (vx_Age vx = 0)\<rparr>)"
    "reads be (parseVxlanDatum be) [NewRtAttr 9 (Uint32Attr be (of_int (vx_Limit vx)))] (\<lambda>x. x\<lparr>vx_Limit := vx_Limit vx\<rparr>)"
    "reads be (parseVxlanDatum be) [NewRtAttr 15 (Uint16Attr be (of_int (vx_Port vx)))] (\<lambda>x. x\<lparr>vx_Port := vx_Port vx\<rparr>)"
    "reads be (parseVxlanDatum be) [NewRtAttr 10 (put16 True lo @ put16 True hi)] (\<lambda>x. x)"
  using assms
  by (auto simp: reads_def list_all2_Cons2 attr_view_def NewRtAttr_def parseVxlanDatum_def Let_def wf_vxlan_def
      Uint32Attr_def Uint16Attr_def Uint8Attr_def boolAttr_def)

lemma vxlanAttrs_eq:
  "vxlanAttrs be vx =
     [NewRtAttr 1 (Uint32Attr be (of_int (vx_VxlanId vx)))] @
     ((if vx_VtepDevIndex vx \<noteq> 0 then [NewRtAttr 3 (Uint32Attr be (of_int (vx_VtepDevIndex vx)))] else []) @
     (vxlanAddr 4 17 (vx_SrcAddr vx) @ (vxlanAddr 2 16 (vx_Group vx) @
     ([NewRtAttr 5 (Uint8Attr (of_int (vx_TTL vx))), NewRtAttr 6 (Uint8Attr (of_int (vx_TOS vx))),
       NewRtAttr 7 (boolAttr (vx_Learning vx)), NewRtAttr 11 (boolAttr (vx_Proxy vx)),
       NewRtAttr 12 (boolAttr (vx_RSC vx)), NewRtAttr 13 (boolAttr (vx_L2miss vx)),
       NewRtAttr 14 (boolAttr (vx_L3miss vx))] @
     ((if vx_GBP vx then [NewRtAttr 23 (boolAttr (vx_GBP vx))] else []) @
     ((if vx_NoAge vx then [NewRtAttr 8 (Uint32Attr be 0)]
       else if vx_Age vx > 0 then [NewRtAttr 8 (Uint32Attr be (of_int (vx_Age vx)))] else []) @
     ((if vx_Limit vx > 0 then [NewRtAttr 9 (Uint32Attr be (of_int (vx_Limit vx)))] else []) @
     ((if vx_Port vx > 0 then [NewRtAttr 15 (Uint16Attr be (of_int (vx_Port vx)))] else []) @
     (if vx_PortLow vx > 0 \<or> vx_PortHigh vx > 0
       then [NewRtAttr 10 (put16 True (of_int (vx_PortLow vx)) @ put16 True (of_int (vx_PortHigh vx)))] else [])))))))))"
  unfolding vxlanAttrs_def addVxlanAttrs_def
  by (simp only: NewRtAttr_def foldl_addChild addChild.simps append_Nil) (simp only: nl_data.case list.case append_assoc)

lemma reads_vxlan:
  assumes "wf_vxlan vx"
  shows "\<exists>g. reads be (parseVxlanDatum be) (vxlanAttrs be vx) g \<and>
    g zeroVxlan = vx\<lparr>vx_PortLow := 0, vx_PortHigh := 0\<rparr>"
proof -
  note one = reads_vxlan_one [OF assms, of be]
  have addr: "plainAddr (vx_SrcAddr vx)" "plainAddr (vx_Group vx)" using assms by (simp_all add: wf_vxlan_def)
  have gbp: "reads be (parseVxlanDatum be) (if vx_GBP vx then [NewRtAttr 23 (boolAttr (vx_GBP vx))] else [])
      (\<lambda>x. if vx_GBP vx then x\<lparr>vx_GBP := True\<rparr> else x)"
    using one(4) by (auto simp: reads_Nil [unfolded id_def])
  have age: "reads be (parseVxlanDatum be) (if vx_NoAge vx then [NewRtAttr 8 (Uint32Attr be 0)]
       else if vx_Age vx > 0 then [NewRtAttr 8 (Uint32Attr be (of_int (vx_Age vx)))] else [])
      (\<lambda>x. if vx_NoAge vx \<or> vx_Age vx > 0 then x\<lparr>vx_Age := vx_Age vx, vx_NoAge := (vx_Age vx = 0)\<rparr> else x)"
    using one(5) assms by (auto simp: wf_vxlan_def reads_Nil [unfolded id_def])
  have all: "reads be (parseVxlanDatum be) (vxlanAttrs be vx)
      ((\<lambda>x. if vx_PortLow vx > 0 \<or> vx_PortHigh vx > 0 then x else x) \<circ>
       (\<lambda>x. if vx_Port vx > 0 then x\<lparr>vx_Port := vx_Port vx\<rparr> else x) \<circ>
       (\<lambda>x. if vx_Limit vx > 0 then x\<lparr>vx_Limit := vx_Limit vx\<rparr> else x) \<circ>
       (\<lambda>x. if vx_NoAge vx \<or> vx_Age vx > 0 then x\<lparr>vx_Age := vx_Age vx, vx_NoAge := (vx_Age vx = 0)\<rparr> else x) \<circ>
       (\<lambda>x. if vx_GBP vx then x\<lparr>vx_GBP := True\<rparr> else x) \<circ>
       (\<lambda>x. x\<lparr>vx_TTL := vx_TTL vx, vx_TOS := vx_TOS vx, vx_Learning := vx_Learning vx, vx_Proxy := vx_Proxy vx,
          vx_RSC := vx_RSC vx, vx_L2miss := vx_L2miss vx, vx_L3miss := vx_L3miss vx\<rparr>) \<circ>
       (\<lambda>x. case vx_Group vx of None \<Rightarrow> x | Some ip \<Rightarrow> x\<lparr>vx_Group := Some ip\<rparr>) \<circ>
       (\<lambda>x. case vx_SrcAddr vx of None \<Rightarrow> x | Some ip \<Rightarrow> x\<lparr>vx_SrcAddr := Some ip\<rparr>) \<circ>
       (\<lambda>x. if vx_VtepDevIndex vx \<noteq> 0 then x\<lparr>vx_VtepDevIndex := vx_VtepDevIndex vx\<rparr> else x) \<circ>
       (\<lambda>x. x\<lparr>vx_VxlanId := vx_VxlanId vx\<rparr>))"
    unfolding vxlanAttrs_eq by (intro reads_append reads_if one reads_vxlanAddr addr gbp age)
  have "vx_Age vx > 0 \<or> vx_Age vx = 0" "vx_Limit vx > 0 \<or> vx_Limit vx = 0" "vx_Port vx > 0 \<or> vx_Port vx = 0"
    "vx_NoAge vx \<longrightarrow> vx_Age vx = 0"
    using assms by (auto simp: wf_vxlan_def)
  then show ?thesis
    by - (rule exI, rule conjI, rule all, cases vx, auto simp: zeroVxlan_def split: option.splits)
qed

section \<open>The kernel's description of a device\<close>

text \<open>
  How the kernel describes a device, for the devices whose description determines them: a veth
  device does not name its peer, and the mode of an ipvlan device is not covered.
\<close>

fun infoData :: "bool \<Rightarrow> link \<Rightarrow> nl_data list" where
  "infoData be (Vlan a i) = [RtAttr 1 (put16 be (of_int i)) []]"
| "infoData be (VxlanLink a vx) = vxlanAttrs be vx"
| "infoData be (Macvlan a m) = [RtAttr 1 (put32 be (macvlanModes ! unat m)) []]"
| "infoData be (Macvtap a m) = [RtAttr 1 (put32 be (macvlanModes ! unat m)) []]"
| "infoData be _ = []"

definition infoAttrs :: "bool \<Rightarrow> link \<Rightarrow> nl_data list" where
  "infoAttrs be l = (if infoData be l = [] then [RtAttr 1 (ZeroTerminated (linkType l)) []]
     else [RtAttr 1 (ZeroTerminated (linkType l)) [], RtAttr 2 [] (infoData be l)])"

definition describe :: "bool \<Rightarrow> link \<Rightarrow> nl_data list" where
  "describe be l = (let a = Attrs l in
     [RtAttr 3 (ZeroTerminated (la_Name a)) [], RtAttr 13 (put32 be (of_int (la_TxQLen a))) [],
      RtAttr 4 (put32 be (of_int (la_MTU a))) [], RtAttr 5 (put32 be (of_int (la_ParentIndex a))) [],
      RtAttr 10 (put32 be (of_int (la_MasterIndex a))) [], RtAttr 1 (la_HardwareAddr a) []] @
     (case l of Device _ \<Rightarrow> [] | _ \<Rightarrow> [RtAttr 18 [] (infoAttrs be l)]))"

definition wf_attrs :: "LinkAttrs \<Rightarrow> bool" where
  "wf_attrs a \<longleftrightarrow> la_TxQLen a \<in> {0 ..< 2 ^ 32} \<and> la_MTU a \<in> {0 ..< 2 ^ 32} \<and> la_ParentIndex a \<in> {0 ..< 2 ^ 32} \<and>
     la_MasterIndex a \<in> {0 ..< 2 ^ 32} \<and> la_Index a \<in> {- (2 ^ 31) ..< 2 ^ 31} \<and> la_Namespace a = NoNs \<and>
     (la_HardwareAddr a = [] \<or> (\<exists>b \<in> set (la_HardwareAddr a). b \<noteq> 0))"

fun wf_kind :: "link \<Rightarrow> bool" where
  "wf_kind (Vlan a i) \<longleftrightarrow> i \<in> {0 ..< 2 ^ 16}"
| "wf_kind (VxlanLink a vx) \<longleftrightarrow> wf_vxlan vx \<and> vx_PortLow vx = 0 \<and> vx_PortHigh vx = 0"
| "wf_kind (Macvlan a m) \<longleftrightarrow> m \<in> {1, 2, 3, 4, 5}"
| "wf_kind (Macvtap a m) \<longleftrightarrow> m \<in> {1, 2, 3, 4, 5}"
| "wf_kind (Veth a p) \<longleftrightarrow> p = ''''"
| "wf_kind (GenericLink a t) \<longleftrightarrow>
     t \<notin> {''dummy'', ''ifb'', ''bridge'', ''vlan'', ''veth'', ''vxlan'', ''ipvlan'', ''macvlan'', ''macvtap''}"
| "wf_kind (IPVlan a m) \<longleftrightarrow> False"
| "wf_kind (Tuntap a m) \<longleftrightarrow> False"
| "wf_kind _ \<longleftrightarrow> True"

lemma read_kind:
  assumes "attr_view be a (RtAttr 1 (ZeroTerminated t) [])"
  shows "parseInfo be a l = Ok (Some (linkOfKind t))"
proof -
  have "wf_slice (ra_Value a)" "sl_bytes (ra_Value a) = stringBytes t @ [0]" "ra_Type a = 1"
    using assms by (simp_all add: attr_view_def ZeroTerminated_def)
  with sl_init_view [of "ra_Value a" "stringBytes t" 0] show ?thesis by (auto simp: parseInfo_def)
qed

lemma read_data:
  assumes "wf_kind l" "infoData be l \<noteq> []" "list_all2 (attr_view be) as (infoData be l)"
  shows "parseInfoData be as (Some (linkOfKind (linkType l))) = Ok (Some (setAttrs zeroAttrs l))"
  using assms
proof (cases l)
  case (VxlanLink a vx)
  with assms reads_vxlan [of vx be] obtain g where
    "reads be (parseVxlanDatum be) (vxlanAttrs be vx) g" "g zeroVxlan = vx" by auto
  with assms VxlanLink show ?thesis by (simp add: linkOfKind_def parseVxlanData_def reads_def)
next
  case (Macvlan a m)
  with assms show ?thesis
    by (auto simp: list_all2_Cons2 attr_view_def parseMacvlanData_def linkOfKind_def macvlanModes_def)
next
  case (Macvtap a m)
  with assms show ?thesis
    by (auto simp: list_all2_Cons2 attr_view_def parseMacvlanData_def linkOfKind_def macvlanModes_def)
qed (auto simp: list_all2_Cons2 attr_view_def parseVlanData_def linkOfKind_def)

lemma linkOfKind_plain:
  "wf_kind l \<Longrightarrow> infoData be l = [] \<Longrightarrow> \<forall>a. l \<noteq> Device a \<Longrightarrow> linkOfKind (linkType l) = setAttrs zeroAttrs l"
  by (cases l) (auto simp: linkOfKind_def vxlanAttrs_eq)

lemma reads_info:
  assumes "wf_kind l" "\<forall>a. l \<noteq> Device a" "list_all attr_ok (infoAttrs be l)" "list_all attr_ok (infoData be l)"
  shows "reads be (parseInfo be) (infoAttrs be l) (\<lambda>_. Some (setAttrs zeroAttrs l))"
proof (cases "infoData be l = []")
  case True
  with linkOfKind_plain [OF assms(1) True assms(2)] show ?thesis
    by (simp add: infoAttrs_def) (rule reads_one, simp add: read_kind)
next
  case False
  have "fold_go (parseInfo be) as x = Ok (Some (setAttrs zeroAttrs l))"
    if v: "list_all2 (attr_view be) as (infoAttrs be l)" for as x
  proof -
    obtain a b where as: "as = [a, b]" "attr_view be a (RtAttr 1 (ZeroTerminated (linkType l)) [])"
      "attr_view be b (RtAttr 2 [] (infoData be l))"
      using v False by (auto simp: infoAttrs_def list_all2_Cons2)
    have "wf_slice (ra_Value b)" "sl_bytes (ra_Value b) = concat (map (encode be) (infoData be l))" "ra_Type b = 2"
      using as(3) False by (simp_all add: attr_view_def padded_def)
    with ParseRouteAttr_encoded [of "ra_Value b" be "infoData be l"] assms(4) obtain ds where
      "ParseRouteAttr be (ra_Value b) = Ok ds" "list_all2 (attr_view be) ds (infoData be l)" by blast
    with as \<open>ra_Type b = 2\<close> read_kind [OF as(2)] read_data [OF assms(1) False] show ?thesis
      by (simp add: parseInfo_def [of be b])
  qed
  then show ?thesis by (simp add: reads_def)
qed

fun is_attr :: "nl_data \<Rightarrow> bool" where
  "is_attr (RtAttr t d cs) \<longleftrightarrow> True"
| "is_attr _ \<longleftrightarrow> False"

lemma children_ok:
  assumes "attr_ok (RtAttr t d cs)" "list_all is_attr cs"
  shows "list_all attr_ok cs"
proof -
  have "nl_Len c < 2 ^ 16" if "c \<in> set cs" for c
  proof -
    have "nl_Len c \<le> rtaAlignOf (nl_Len c)" by simp
    also have "\<dots> \<le> sum_list (map (\<lambda>c. rtaAlignOf (nl_Len c)) cs)" using that by (intro member_le_sum_list) auto
    also have "\<dots> \<le> rtaAlignOf (sum_list (map (\<lambda>c. rtaAlignOf (nl_Len c)) cs) + 4 + length d)"
      by (rule order_trans [OF _ rtaAlign_ge]) simp
    also have "\<dots> = nl_Len (RtAttr t d cs)" using that by auto
    finally show ?thesis using assms(1) by simp
  qed
  moreover have "attr_ok c" if "is_attr c" "nl_Len c < 2 ^ 16" for c using that by (cases c) auto
  ultimately show ?thesis using assms(2) by (auto simp: list_all_iff)
qed

lemma infoData_attrs: "list_all is_attr (infoData be l)"
  by (cases l) (simp_all add: vxlanAttrs_eq vxlanAddr_def NewRtAttr_def split: option.splits)

lemma reads_linkinfo:
  assumes "wf_kind l" "\<forall>a. l \<noteq> Device a" "attr_ok (RtAttr 18 [] (infoAttrs be l))"
    and "attr_view be a (RtAttr 18 [] (infoAttrs be l))"
  shows "parseLinkAttr be a (base, x) = Ok (base, Some (setAttrs zeroAttrs l))"
proof -
  have ok: "list_all attr_ok (infoAttrs be l)"
    by (rule children_ok [OF assms(3)]) (simp add: infoAttrs_def)
  then have "list_all attr_ok (infoData be l)"
    using infoData_attrs [of be l] children_ok [of 2 "[]" "infoData be l"]
    by (cases "infoData be l = []") (auto simp: infoAttrs_def)
  with reads_info [OF assms(1,2) ok] have "reads be (parseInfo be) (infoAttrs be l) (\<lambda>_. Some (setAttrs zeroAttrs l))" .
  moreover have "infoAttrs be l \<noteq> []" by (simp add: infoAttrs_def)
  ultimately obtain as where
    "ParseRouteAttr be (ra_Value a) = Ok as" "\<forall>x. fold_go (parseInfo be) as x = Ok (Some (setAttrs zeroAttrs l))"
    using nested_read [OF assms(4) _ ok] by blast
  moreover have "ra_Type a = 18" using assms(4) by (simp add: attr_view_def)
  ultimately show ?thesis by (simp add: parseLinkAttr_def Let_def)
qed

lemma read_name:
  assumes "attr_view be a (RtAttr 3 (ZeroTerminated n) [])"
  shows "parseLinkAttr be a (base, l) = Ok (base\<lparr>la_Name := n\<rparr>, l)"
proof -
  have "wf_slice (ra_Value a)" "sl_bytes (ra_Value a) = stringBytes n @ [0]" "ra_Type a = 3"
    using assms by (simp_all add: attr_view_def ZeroTerminated_def)
  with sl_init_view [of "ra_Value a" "stringBytes n" 0] show ?thesis by (auto simp: parseLinkAttr_def Let_def)
qed

lemma linkDeserialize_describe:
  assumes "wf_slice s" "sl_bytes s = serializeIfInfomsg be m @ concat (map (encode be) (describe be l))"
    and "wf_attrs (Attrs l)" "wf_kind l" "list_all attr_ok (describe be l)"
    and "sint (ii_Index m) = la_Index (Attrs l)" "linkFlags (ii_Flags m) = la_Flags (Attrs l)"
  shows "linkDeserialize be s = Ok l"
proof -
  let ?a = "Attrs l" and ?z = "zeroAttrs\<lparr>la_Index := la_Index (Attrs l), la_Flags := la_Flags (Attrs l)\<rparr>"
  obtain t where t: "sl_from s 16 = Ok t" "wf_slice t" "sl_bytes t = concat (map (encode be) (describe be l))"
    using DeserializeIfInfomsg_encoded(2) [OF assms(1,2)] by blast
  obtain as where as: "ParseRouteAttr be t = Ok as" "list_all2 (attr_view be) as (describe be l)"
    using ParseRouteAttr_encoded [OF t(2,3) assms(5)] by blast
  obtain a1 a2 a3 a4 a5 a6 rest where as': "as = [a1, a2, a3, a4, a5, a6] @ rest"
    and v: "attr_view be a1 (RtAttr 3 (ZeroTerminated (la_Name ?a)) [])"
      "attr_view be a2 (RtAttr 13 (put32 be (of_int (la_TxQLen ?a))) [])"
      "attr_view be a3 (RtAttr 4 (put32 be (of_int (la_MTU ?a))) [])"
      "attr_view be a4 (RtAttr 5 (put32 be (of_int (la_ParentIndex ?a))) [])"
      "attr_view be a5 (RtAttr 10 (put32 be (of_int (la_MasterIndex ?a))) [])"
      "attr_view be a6 (RtAttr 1 (la_HardwareAddr ?a) [])"
    and r: "list_all2 (attr_view be) rest (case l of Device _ \<Rightarrow> [] | _ \<Rightarrow> [RtAttr 18 [] (infoAttrs be l)])"
    using as(2) by (auto simp: describe_def Let_def list_all2_Cons2)
  have "fold_go (parseLinkAttr be) [a1, a2, a3, a4, a5, a6] (?z, None) = Ok (?a, None)"
    using v(2-6) assms(3) read_name [OF v(1)]
    by (cases ?a) (auto simp: attr_view_def parseLinkAttr_def [of be a2] parseLinkAttr_def [of be a3]
        parseLinkAttr_def [of be a4] parseLinkAttr_def [of be a5] parseLinkAttr_def [of be a6]
        Let_def wf_attrs_def zeroAttrs_def)
  then have f: "fold_go (parseLinkAttr be) as (?z, None) = fold_go (parseLinkAttr be) rest (?a, None)"
    unfolding as' fold_go_append by simp
  have d: "linkDeserialize be s = bind_go (fold_go (parseLinkAttr be) rest (?a, None))
      (\<lambda>(base, l). Ok (setAttrs base (case l of Some l' \<Rightarrow> l' | None \<Rightarrow> Device zeroAttrs)))"
    using DeserializeIfInfomsg_encoded(1) [OF assms(1,2)] t(1) as(1) f assms(6,7) by (simp add: linkDeserialize_def)
  show ?thesis
  proof (cases "\<exists>a. l = Device a")
    case True
    then have "rest = []" using r by auto
    with d True show ?thesis by auto
  next
    case False
    then have "(case l of Device _ \<Rightarrow> [] | _ \<Rightarrow> [RtAttr 18 [] (infoAttrs be l)]) = [RtAttr 18 [] (infoAttrs be l)]"
      by (cases l) auto
    then obtain a7 where "rest = [a7]" "attr_view be a7 (RtAttr 18 [] (infoAttrs be l))"
      "attr_ok (RtAttr 18 [] (infoAttrs be l))"
      using r assms(5) by (auto simp: list_all2_Cons2 describe_def Let_def)
    with d reads_linkinfo [of l be a7] assms(4) False have "linkDeserialize be s = Ok (setAttrs ?a (setAttrs zeroAttrs l))"
      by auto
    then show ?thesis by (cases l) auto
  qed
qed

section \<open>Requests and their answers\<close>

text \<open>The kernel accepts the request and answers it with one message; \<open>k'\<close> is its state after the socket is closed.\<close>

definition answers :: "'k kernel \<Rightarrow> NetlinkRequest \<Rightarrow> 'k \<Rightarrow> NlMsghdr \<Rightarrow> bytes \<Rightarrow> 'k \<Rightarrow> bool" where
  "answers K req k h d k' \<longleftrightarrow> (\<exists>fd k2 k3. sent K 0 req k fd (nh_Pid h) k2 \<and> nh_Seq h = nh_Seq (nr_hdr req) \<and>
     k_recvfrom K fd k2 = (Ok (datagram (k_bigEndian K) [(h, d)]), k3) \<and> fits K [(h, d)] \<and>
     k_pagesize K < 2 ^ 32 \<and> k' = k_close K fd k3)"

text \<open>An acknowledgement with the error number \<open>n\<close>; 0 is success.\<close>

definition acks :: "'k kernel \<Rightarrow> NetlinkRequest \<Rightarrow> 'k \<Rightarrow> nat \<Rightarrow> 'k \<Rightarrow> bool" where
  "acks K req k n k' \<longleftrightarrow> n < 2 ^ 31 \<and> (\<exists>h rest. nh_Type h = 2 \<and>
     answers K req k h (put32 (k_bigEndian K) (- of_nat n) @ rest) k')"

lemma execRoute_ack:
  assumes "acks K req (kern s) n k'"
  shows "execRoute K resType req s = Some (if n = 0 then Ok [] else Err (Errno (int n)), s\<lparr>kern := k'\<rparr>)"
proof -
  obtain h rest fd k2 k3 where h: "nh_Type h = 2" "n < 2 ^ 31" "sent K 0 req (kern s) fd (nh_Pid h) k2"
    "nh_Seq h = nh_Seq (nr_hdr req)" "k' = k_close K fd k3" "k_pagesize K < 2 ^ 32"
    "fits K [(h, put32 (k_bigEndian K) (- of_nat n) @ rest)]"
    "k_recvfrom K fd k2 = (Ok (datagram (k_bigEndian K) [(h, put32 (k_bigEndian K) (- of_nat n) @ rest)]), k3)"
    using assms unfolding acks_def answers_def by blast
  have "(of_nat n :: 32 word) = 0 \<longleftrightarrow> n = 0"
    using h(2) by (simp add: word_of_nat_eq_0_iff) (auto dest: dvd_imp_le)
  then show ?thesis
    using receiveLoop_one(1) [OF h(8,7,6,4) refl h(1) refl, of resType] kernelError_errno [OF _ h(2)]
      Execute_sent [OF h(3), of resType] h(5)
    by (auto simp: execRoute_def)
qed

lemma execRoute_one:
  assumes "answers K req (kern s) h d k'" "nh_Type h \<noteq> 2" "nh_Type h \<noteq> 3" "resType = 0 \<or> nh_Type h = resType"
    and "nh_Flags h AND 2 = 0"
  shows "\<exists>m. execRoute K resType req s = Some (Ok [m], s\<lparr>kern := k'\<rparr>) \<and> wf_slice m \<and> sl_bytes m = d"
proof -
  obtain fd k2 k3 where h: "sent K 0 req (kern s) fd (nh_Pid h) k2"
    "nh_Seq h = nh_Seq (nr_hdr req)" "k' = k_close K fd k3" "k_pagesize K < 2 ^ 32" "fits K [(h, d)]"
    "k_recvfrom K fd k2 = (Ok (datagram (k_bigEndian K) [(h, d)]), k3)"
    using assms(1) unfolding answers_def by blast
  obtain m where "receiveLoop K fd (nh_Seq (nr_hdr req)) (nh_Pid h) resType [] k2 = Some (Ok [m], k3)"
    "wf_slice m" "sl_bytes m = d"
    using receiveLoop_one(2) [OF h(6,5,4,2) refl assms(2-5)] by blast
  with Execute_sent [OF h(1), of resType] h(3) show ?thesis by (auto simp: execRoute_def)
qed

section \<open>Properties\<close>

definition nextRequest :: "16 word \<Rightarrow> 16 word \<Rightarrow> nl_data list \<Rightarrow> 'k nl_state \<Rightarrow> NetlinkRequest" where
  "nextRequest proto flags ds s = \<lparr>nr_hdr = \<lparr>nh_Len = 16, nh_Type = proto, nh_Flags = 1 OR flags,
     nh_Seq = nextSeqNr s + 1, nh_Pid = 0\<rparr>, nr_Data = ds\<rparr>"

lemma NewNetlinkRequest_run:
  "bindN (NewNetlinkRequest proto flags) f s = f (nextRequest proto flags [] s) (s\<lparr>nextSeqNr := nextSeqNr s + 1\<rparr>)"
  by (simp add: NewNetlinkRequest_def Let_def nextRequest_def nl_monad)

lemma AddData_next: "AddData d (nextRequest p f ds s) = nextRequest p f (ds @ [d]) s"
  by (simp add: AddData_def nextRequest_def)

lemma fold_AddData_next: "fold AddData es (nextRequest p f ds s) = nextRequest p f (ds @ es) s"
  by (induction es arbitrary: ds) (simp_all add: AddData_next)

definition lookupRequest :: "string \<Rightarrow> 'k nl_state \<Rightarrow> NetlinkRequest" where
  "lookupRequest name s = nextRequest 18 4 [IfInfo (NewIfInfomsg 0), RtAttr 3 (ZeroTerminated name) []] s"

lemma nlLinkByName_run:
  assumes "\<not> lookupByDump s"
  shows "nlLinkByName K name s = tryN (execGetLink K (lookupRequest name s)) (\<lambda>l. liftN (Ok l)) (\<lambda>e.
    if e = EINVAL then bindN (modifyN (\<lambda>s. s\<lparr>lookupByDump := True\<rparr>)) (\<lambda>_. linkByNameDump K name)
    else liftN (Err e)) (s\<lparr>nextSeqNr := nextSeqNr s + 1\<rparr>)"
  using assms
  by (simp add: nlLinkByName_def bindN_readN NewNetlinkRequest_run linkRequest_def NewRtAttr_def AddData_next
      lookupRequest_def)

text \<open>The bytes describe the link.\<close>

definition describes :: "bool \<Rightarrow> link \<Rightarrow> bytes \<Rightarrow> bool" where
  "describes be l d \<longleftrightarrow> (\<exists>m. d = serializeIfInfomsg be m @ concat (map (encode be) (describe be l)) \<and>
     wf_attrs (Attrs l) \<and> wf_kind l \<and> list_all attr_ok (describe be l) \<and>
     sint (ii_Index m) = la_Index (Attrs l) \<and> linkFlags (ii_Flags m) = la_Flags (Attrs l))"

lemma linkDeserialize_describes:
  "wf_slice s \<Longrightarrow> describes be l (sl_bytes s) \<Longrightarrow> linkDeserialize be s = Ok l"
  using linkDeserialize_describe [of s be] by (auto simp: describes_def)

lemma nlLinkByName_found:
  assumes "\<not> lookupByDump s" "answers K (lookupRequest name s) (kern s) h d k'"
    and "nh_Type h = 16" "nh_Flags h AND 2 = 0" "describes (k_bigEndian K) l d"
  shows "nlLinkByName K name s = Some (Ok l, s\<lparr>nextSeqNr := nextSeqNr s + 1, kern := k'\<rparr>)"
proof -
  let ?s = "s\<lparr>nextSeqNr := nextSeqNr s + 1\<rparr>"
  obtain x where x: "execRoute K 0 (lookupRequest name s) ?s = Some (Ok [x], ?s\<lparr>kern := k'\<rparr>)" "wf_slice x" "sl_bytes x = d"
    using execRoute_one [of K "lookupRequest name s" ?s h d k' 0] assms(2-4) by auto
  have "linkDeserialize (k_bigEndian K) x = Ok l"
    using linkDeserialize_describes [OF x(2)] x(3) assms(5) by blast
  with x(1) have "execGetLink K (lookupRequest name s) ?s = Some (Ok l, ?s\<lparr>kern := k'\<rparr>)"
    by (simp add: execGetLink_def liftN_def)
  then show ?thesis unfolding nlLinkByName_run [OF assms(1)] by (simp add: liftN_def)
qed

lemma nlLinkByName_refused:
  assumes "\<not> lookupByDump s" "acks K (lookupRequest name s) (kern s) n k'"
  shows "n = 19 \<or> n = 0 \<Longrightarrow> nlLinkByName K name s =
      Some (Err (ErrNew ''Link not found''), s\<lparr>nextSeqNr := nextSeqNr s + 1, kern := k'\<rparr>)"
    and "n = 22 \<Longrightarrow> nlLinkByName K name s =
      linkByNameDump K name (s\<lparr>nextSeqNr := nextSeqNr s + 1, kern := k', lookupByDump := True\<rparr>)"
    and "n \<notin> {19, 22} \<Longrightarrow> n \<noteq> 0 \<Longrightarrow> nlLinkByName K name s =
      Some (Err (Errno (int n)), s\<lparr>nextSeqNr := nextSeqNr s + 1, kern := k'\<rparr>)"
proof -
  let ?s = "s\<lparr>nextSeqNr := nextSeqNr s + 1\<rparr>"
  have x: "execRoute K 0 (lookupRequest name s) ?s = Some (if n = 0 then Ok [] else Err (Errno (int n)), ?s\<lparr>kern := k'\<rparr>)"
    using execRoute_ack [of K "lookupRequest name s" ?s n k' 0] assms(2) by simp
  note run = nlLinkByName_run [OF assms(1)]
  show "n = 19 \<or> n = 0 \<Longrightarrow> nlLinkByName K name s =
      Some (Err (ErrNew ''Link not found''), s\<lparr>nextSeqNr := nextSeqNr s + 1, kern := k'\<rparr>)"
    and "n = 22 \<Longrightarrow> nlLinkByName K name s =
      linkByNameDump K name (s\<lparr>nextSeqNr := nextSeqNr s + 1, kern := k', lookupByDump := True\<rparr>)"
    and "n \<notin> {19, 22} \<Longrightarrow> n \<noteq> 0 \<Longrightarrow> nlLinkByName K name s =
      Some (Err (Errno (int n)), s\<lparr>nextSeqNr := nextSeqNr s + 1, kern := k'\<rparr>)"
    using x unfolding run by (auto simp: execGetLink_def nl_monad)
qed

lemma vxlanAttrs_ok:
  assumes "wf_vxlan vx"
  shows "list_all attr_ok (vxlanAttrs be vx)"
  using assms
  by (auto simp: vxlanAttrs_eq NewRtAttr_def Uint32Attr_def Uint16Attr_def Uint8Attr_def boolAttr_def vxlanAddr_def
      To4_def To16_def wf_vxlan_def plainAddr_def split: option.splits if_splits)

text \<open>The device that \<open>Join\<close> creates, as the library gets it.\<close>

definition vethLink :: "string \<Rightarrow> link" where
  "vethLink suffix = Veth (zeroAttrs\<lparr>la_Name := nl_Name (vethPair suffix)\<rparr>) (nl_PeerName (vethPair suffix))"

text \<open>Concrete devices and answers.\<close>

definition lab_device :: link where
  "lab_device = Device (zeroAttrs\<lparr>la_Name := ''eth0'', la_Index := 2, la_MTU := 1500,
     la_HardwareAddr := [2, 66, 10, 1, 0, 1], la_Flags := 19\<rparr>)"

definition lab_info :: IfInfomsg where
  "lab_info = \<lparr>ii_Family = 0, ii_Type = 1, ii_Index = 2, ii_Flags = 0x1043, ii_Change = 0\<rparr>"

definition lab_description :: bytes where
  "lab_description = datagram False [(lab_hdr 16 0 1,
     serializeIfInfomsg False lab_info @ concat (map (encode False) (describe False lab_device)))]"

definition lab_refusal_nl :: "nat \<Rightarrow> bytes" where
  "lab_refusal_nl n = datagram False [(lab_hdr 2 0 1, put32 False (- of_nat n))]"

definition lab_nl :: "bytes list \<Rightarrow> lab_kern nl_state" where
  "lab_nl ds = \<lparr>nextSeqNr = 0, lookupByDump = False, kern = lab_kern ds\<rparr>"

definition lab_ack :: bytes where
  "lab_ack = datagram False [(lab_hdr 2 0 1, put32 False 0 @ [])]"

definition lab_veth :: link where
  "lab_veth = Veth (zeroAttrs\<lparr>la_Name := ''ovs-veth0-4f9a8'', la_Index := 7, la_MTU := 1500, la_Flags := 18\<rparr>) ''''"

definition lab_veth_info :: IfInfomsg where
  "lab_veth_info = \<lparr>ii_Family = 0, ii_Type = 1, ii_Index = 7, ii_Flags = 0x1002, ii_Change = 0\<rparr>"

definition lab_veth_description :: bytes where
  "lab_veth_description = datagram False [(lab_hdr 16 0 2,
     serializeIfInfomsg False lab_veth_info @ concat (map (encode False) (describe False lab_veth)))]"

definition the_bytes :: "NetlinkRequest \<Rightarrow> bytes" where
  "the_bytes req = (case serializeRequest False req of Ok b \<Rightarrow> b | _ \<Rightarrow> [])"

lemma serializeRequest_lab: "serializeRequest False req = Ok (the_bytes req)"
  by (simp add: the_bytes_def serializeRequest_encode)

lemma lab_answers:
  assumes "nh_Pid h = 42" "nh_Seq h = nh_Seq (nr_hdr req)" "fits lab_kernel [(h, d)]"
  shows "answers lab_kernel req \<lparr>lk_replies = datagram False [(h, d)] # ds, lk_sent = bs, lk_open = 0\<rparr> h d
    \<lparr>lk_replies = ds, lk_sent = bs @ [the_bytes req], lk_open = 0\<rparr>"
proof -
  let ?k = "\<lparr>lk_replies = datagram False [(h, d)] # ds, lk_sent = bs, lk_open = 0\<rparr>"
  have "sent lab_kernel 0 req ?k 3 (nh_Pid h) (?k\<lparr>lk_open := 1, lk_sent := bs @ [the_bytes req]\<rparr>)"
    using assms(1) serializeRequest_lab [of req]
    by (simp add: sent_def getNetlinkSocket_def Send_def GetPid_def lab_kernel_def go_monad)
  then show ?thesis unfolding answers_def
    using assms(2,3) by (intro exI conjI) (assumption | simp add: lab_kernel_def)+
qed

lemma lab_lookup:
  "nh_Pid (lab_hdr ty fl q) = 42" "nh_Seq (lab_hdr ty fl q) = q" "nh_Type (lab_hdr ty fl q) = ty"
  "nh_Flags (lab_hdr ty fl q) = fl" "nh_Seq (nr_hdr (lookupRequest name (lab_nl ds))) = 1"
  "kern (lab_nl ds) = \<lparr>lk_replies = ds, lk_sent = [], lk_open = 0\<rparr>"
  "lab_refusal_nl n = datagram False [(lab_hdr 2 0 1, put32 False (- of_nat n) @ [])]"
  by (simp_all add: lab_hdr_def lookupRequest_def nextRequest_def lab_nl_def lab_kern_def lab_refusal_nl_def)

text \<open>The lookup of a link by its name asks the kernel for that name and returns the link that
  the kernel describes; an unknown name is reported as such; other refusals are passed on; and when
  the kernel does not know the request (EINVAL) this is remembered, and the name is searched in the
  list of all links from then on.\<close>

lemma link_lookup:
  assumes "\<not> lookupByDump s"
  shows "(\<forall>h d l k'. answers K (lookupRequest name s) (kern s) h d k' \<and> nh_Type h = 16 \<and> nh_Flags h AND 2 = 0 \<and>
        describes (k_bigEndian K) l d \<longrightarrow>
      nlLinkByName K name s = Some (Ok l, s\<lparr>nextSeqNr := nextSeqNr s + 1, kern := k'\<rparr>)) \<and>
    (\<forall>n k'. acks K (lookupRequest name s) (kern s) n k' \<longrightarrow>
      nlLinkByName K name s =
        (if n = 22 then linkByNameDump K name (s\<lparr>nextSeqNr := nextSeqNr s + 1, kern := k', lookupByDump := True\<rparr>)
         else Some (Err (if n \<in> {0, 19} then ErrNew ''Link not found'' else Errno (int n)),
           s\<lparr>nextSeqNr := nextSeqNr s + 1, kern := k'\<rparr>)))"
  using nlLinkByName_found [OF assms] nlLinkByName_refused [OF assms] by auto



text \<open>A VXLAN device that is created and then read back is the same, but for the range of source
  ports: the attribute is written and never read, because the test for the error of reading it is
  inverted.\<close>

lemma vxlan_port_range_lost:
  assumes "wf_vxlan vx" "wf_slice s" "sl_bytes s = concat (map (encode be) (vxlanAttrs be vx))"
  shows "\<exists>as. ParseRouteAttr be s = Ok as \<and>
    parseVxlanData be as zeroVxlan = Ok (vx\<lparr>vx_PortLow := 0, vx_PortHigh := 0\<rparr>)"
proof -
  obtain as where "ParseRouteAttr be s = Ok as" "list_all2 (attr_view be) as (vxlanAttrs be vx)"
    using ParseRouteAttr_encoded [OF assms(2,3) vxlanAttrs_ok [OF assms(1)]] by blast
  with reads_vxlan [OF assms(1), of be] show ?thesis by (auto simp: reads_def parseVxlanData_def)
qed

end
