(* ===== verification/Netlink_Addr.thy ===== *)
theory Netlink_Addr
  imports Netlink_Link
begin

text \<open>
  Addresses over netlink (\<open>netlink/addr.go\<close>, \<open>netlink/addr_linux.go\<close>): adding an address to a
  link, removing it, and listing the addresses.
\<close>

section \<open>Addresses\<close>

record Addr =
  ad_IPNet :: "ipnet option"
  ad_Label :: string

definition GetIPFamily :: "bytes \<Rightarrow> 8 word" where
  "GetIPFamily ip = (if length ip \<le> 4 then 2 else if To4 ip \<noteq> None then 2 else 10)"

text \<open>An address that is neither of IPv4 nor of IPv6 length is the nil slice.\<close>

definition addrBytes :: "bytes \<Rightarrow> bytes" where
  "addrBytes ip = (case (if GetIPFamily ip = 2 then To4 ip else To16 ip) of Some b \<Rightarrow> b | None \<Rightarrow> [])"

definition addrAttrs :: "Addr \<Rightarrow> bytes \<Rightarrow> nl_data list" where
  "addrAttrs addr ip = [NewRtAttr 2 (addrBytes ip), NewRtAttr 1 (addrBytes ip)] @
     (if ad_Label addr \<noteq> '''' then [NewRtAttr 3 (ZeroTerminated (ad_Label addr))] else [])"

definition addrHandle :: "'k kernel \<Rightarrow> link \<Rightarrow> Addr \<Rightarrow> NetlinkRequest \<Rightarrow> ('k, link) nlm" where
  "addrHandle K l addr req = (let base = Attrs l in
     if ad_Label addr \<noteq> '''' \<and> \<not> hasPrefix (ad_Label addr) (la_Name base)
     then liftN (Err (ErrNew ''label must begin with interface name''))
     else bindN (ensureIndex K base) (\<lambda>base'.
       case ad_IPNet addr of
         None \<Rightarrow> liftN (Panic NilDereference)
       | Some net \<Rightarrow>
           bindN (execRoute K 0 (fold AddData (addrAttrs addr (net_IP net)) (AddData (IfAddr
               ((NewIfAddrmsg (GetIPFamily (net_IP net)))\<lparr>ia_Index := of_int (la_Index base'),
                  ia_Prefixlen := of_nat (maskSize (net_Mask net))\<rparr>)) req)))
             (\<lambda>_. liftN (Ok (setAttrs base' l)))))"

definition nlAddrAdd :: "'k kernel \<Rightarrow> link \<Rightarrow> Addr \<Rightarrow> ('k, link) nlm" where
  "nlAddrAdd K l addr = bindN (NewNetlinkRequest 20 (0x400 OR 0x200 OR 4)) (addrHandle K l addr)"

definition AddrDel :: "'k kernel \<Rightarrow> link \<Rightarrow> Addr \<Rightarrow> ('k, link) nlm" where
  "AddrDel K l addr = bindN (NewNetlinkRequest 21 4) (addrHandle K l addr)"

text \<open>The addresses that one message has: the destination, the local address, the label.\<close>

definition parseAddrAttr :: "8 word \<Rightarrow> NetlinkRouteAttr \<Rightarrow> ipnet option \<times> ipnet option \<times> string \<Rightarrow>
    (ipnet option \<times> ipnet option \<times> string) go" where
  "parseAddrAttr prefixlen attr = (\<lambda>(dst, loc, label).
     let v = sl_bytes (ra_Value attr); net = \<lparr>net_IP = v, net_Mask = CIDRMask (unat prefixlen) (8 * length v)\<rparr> in
     if ra_Type attr = 1 then Ok (Some net, loc, label)
     else if ra_Type attr = 2 then Ok (dst, Some net, label)
     else if ra_Type attr = 3 then bind_go (sl_init (ra_Value attr)) (\<lambda>s. Ok (dst, loc, bytesString (sl_bytes s)))
     else Ok (dst, loc, label))"

text \<open>One message: \<open>None\<close> when it is about another link.\<close>

definition addrOf :: "bool \<Rightarrow> IfAddrmsg \<Rightarrow> gslice \<Rightarrow> Addr option go" where
  "addrOf be msg m = bind_go (sl_from m 8) (\<lambda>rest.
     bind_go (ParseRouteAttr be rest) (\<lambda>attrs.
     bind_go (fold_go (parseAddrAttr (ia_Prefixlen msg)) attrs (None, None, []))
       (\<lambda>(dst, loc, label). Ok (Some \<lparr>ad_IPNet = (if loc \<noteq> None then loc else dst), ad_Label = label\<rparr>))))"

definition addrDeserialize :: "bool \<Rightarrow> int option \<Rightarrow> gslice \<Rightarrow> Addr option go" where
  "addrDeserialize be index m =
     bind_go (DeserializeIfAddrmsg be m) (\<lambda>msg.
     case index of
       Some i \<Rightarrow> if ia_Index msg \<noteq> of_int i then Ok None else addrOf be msg m
     | None \<Rightarrow> addrOf be msg m)"

fun somes :: "'a option list \<Rightarrow> 'a list" where
  "somes [] = []"
| "somes (None # xs) = somes xs"
| "somes (Some x # xs) = x # somes xs"

definition nlAddrList :: "'k kernel \<Rightarrow> link option \<Rightarrow> 8 word \<Rightarrow> ('k, Addr list) nlm" where
  "nlAddrList K l family = bindN (NewNetlinkRequest 22 0x300) (\<lambda>req.
     bindN (execRoute K 20 (AddData (IfInfo (NewIfInfomsg family)) req)) (\<lambda>msgs.
     bindN (case l of
         None \<Rightarrow> liftN (Ok None)
       | Some l' \<Rightarrow> bindN (ensureIndex K (Attrs l')) (\<lambda>base. liftN (Ok (Some (la_Index base)))))
       (\<lambda>index. liftN (map_go_res somes
         (traverse_go (addrDeserialize (k_bigEndian K) index) msgs)))))"

section \<open>Addresses as text\<close>

text \<open>A nil \<open>IPNet\<close> is printed as \<open><nil>\<close>; \<open>IP.Equal\<close> takes an IPv4 address and its IPv6 form for equal.\<close>

definition AddrString :: "Addr \<Rightarrow> string" where
  "AddrString a = trimSpace (sprintfStrings ''%s %s''
     [case ad_IPNet a of None \<Rightarrow> ''<nil>'' | Some net \<Rightarrow> IPNetString net, ad_Label a])"

definition ParseAddr :: "string \<Rightarrow> Addr go" where
  "ParseAddr s =
     (let parts = splitOn (CHR '' '') s; s' = (if length parts > 1 then parts ! 0 else s);
          label = (if length parts > 1 then parts ! 1 else '''')
      in bind_go (ParseIPNet s') (\<lambda>m. Ok \<lparr>ad_IPNet = Some m, ad_Label = label\<rparr>))"

definition ipEqual :: "bytes \<Rightarrow> bytes \<Rightarrow> bool" where
  "ipEqual ip x \<longleftrightarrow>
     (if length ip = length x then ip = x
      else if length ip = 4 \<and> length x = 16 then take 12 x = v4InV6Prefix \<and> ip = drop 12 x
      else if length ip = 16 \<and> length x = 4 then take 12 ip = v4InV6Prefix \<and> drop 12 ip = x
      else False)"

text \<open>\<open>Equal\<close>; an address without an \<open>IPNet\<close> is a nil pointer.\<close>

definition AddrEqual :: "Addr \<Rightarrow> Addr \<Rightarrow> bool go" where
  "AddrEqual a x = (case (ad_IPNet a, ad_IPNet x) of
       (Some n, Some m) \<Rightarrow> Ok (ipEqual (net_IP n) (net_IP m) \<and> maskSize (net_Mask n) = maskSize (net_Mask m))
     | _ \<Rightarrow> Panic NilDereference)"

definition NewIPNet :: "bytes \<Rightarrow> ipnet" where
  "NewIPNet ip = \<lparr>net_IP = ip, net_Mask = CIDRMask 32 32\<rparr>"

section \<open>The kernel's description of an address\<close>

record addr_entry =
  ae_index :: "32 word"
  ae_ip :: bytes
  ae_ones :: nat
  ae_label :: string

definition entryAddr :: "addr_entry \<Rightarrow> Addr" where
  "entryAddr e = \<lparr>ad_IPNet = Some \<lparr>net_IP = addrBytes (ae_ip e),
     net_Mask = CIDRMask (ae_ones e) (8 * length (addrBytes (ae_ip e)))\<rparr>, ad_Label = ae_label e\<rparr>"

definition addrMsg :: "addr_entry \<Rightarrow> IfAddrmsg" where
  "addrMsg e = (NewIfAddrmsg (GetIPFamily (ae_ip e)))\<lparr>ia_Index := ae_index e, ia_Prefixlen := of_nat (ae_ones e)\<rparr>"

definition addrMessage :: "bool \<Rightarrow> addr_entry \<Rightarrow> bytes" where
  "addrMessage be e = serializeIfAddrmsg be (addrMsg e) @ concat (map (encode be) (addrAttrs (entryAddr e) (ae_ip e)))"

definition wf_entry :: "addr_entry \<Rightarrow> bool" where
  "wf_entry e \<longleftrightarrow> length (addrBytes (ae_ip e)) \<in> {4, 16} \<and> ae_ones e \<le> 8 * length (addrBytes (ae_ip e)) \<and>
     length (ae_label e) < 65000"

lemma DeserializeIfAddrmsg_encoded:
  assumes "wf_slice s" "sl_bytes s = serializeIfAddrmsg be m @ rest"
  shows "DeserializeIfAddrmsg be s = Ok m" "\<exists>t. sl_from s 8 = Ok t \<and> wf_slice t \<and> sl_bytes t = rest"
proof -
  have n: "snd s = 8 + length rest" using snd_sl [OF assms(1)] assms(2) by simp
  have mem: "fst s = sl_bytes s @ drop (snd s) (fst s)" by (simp add: sl_bytes_def)
  obtain t where "sl_sub s 0 8 = Ok t" "fst t = fst s" using sl_sub_within [OF assms(1), of 0 8] n by auto
  then show "DeserializeIfAddrmsg be s = Ok m"
    by (simp add: DeserializeIfAddrmsg_def) (subst mem, simp add: assms(2))
  show "\<exists>t. sl_from s 8 = Ok t \<and> wf_slice t \<and> sl_bytes t = rest"
    using sl_sub_within [OF assms(1), of 8 "snd s"] n assms(2) by (auto simp: sl_from_def)
qed

lemma read_label:
  assumes "attr_view be a (RtAttr 3 (ZeroTerminated label) [])"
  shows "parseAddrAttr p a (x, y, z) = Ok (x, y, label)"
proof -
  have "wf_slice (ra_Value a)" "sl_bytes (ra_Value a) = stringBytes label @ [0]" "ra_Type a = 3"
    using assms by (simp_all add: attr_view_def ZeroTerminated_def)
  with sl_init_view [of "ra_Value a" "stringBytes label" 0] show ?thesis by (auto simp: parseAddrAttr_def Let_def)
qed

lemma addrOf_message:
  assumes "wf_entry e" "wf_slice s" "sl_bytes s = addrMessage be e"
  shows "addrOf be (addrMsg e) s = Ok (Some (entryAddr e))"
proof -
  let ?net = "\<lparr>net_IP = addrBytes (ae_ip e), net_Mask = CIDRMask (ae_ones e) (8 * length (addrBytes (ae_ip e)))\<rparr>"
  have ones: "unat (ia_Prefixlen (addrMsg e)) = ae_ones e"
    using assms(1) by (auto simp: addrMsg_def wf_entry_def unat_of_nat take_bit_eq_mod)
  obtain t where t: "sl_from s 8 = Ok t" "wf_slice t" "sl_bytes t = concat (map (encode be) (addrAttrs (entryAddr e) (ae_ip e)))"
    using DeserializeIfAddrmsg_encoded(2) [of s be "addrMsg e"] assms(2,3) by (auto simp: addrMessage_def)
  have "list_all attr_ok (addrAttrs (entryAddr e) (ae_ip e))"
    using assms(1) by (auto simp: addrAttrs_def NewRtAttr_def wf_entry_def entryAddr_def ZeroTerminated_def stringBytes_def)
  then obtain as where as: "ParseRouteAttr be t = Ok as" "list_all2 (attr_view be) as (addrAttrs (entryAddr e) (ae_ip e))"
    using ParseRouteAttr_encoded [OF t(2,3)] by blast
  then obtain a1 a2 rest where as': "as = [a1, a2] @ rest" "attr_view be a1 (RtAttr 2 (addrBytes (ae_ip e)) [])"
      "attr_view be a2 (RtAttr 1 (addrBytes (ae_ip e)) [])"
    and rest: "list_all2 (attr_view be) rest
      (if ae_label e \<noteq> '''' then [RtAttr 3 (ZeroTerminated (ae_label e)) []] else [])"
    by (auto simp: addrAttrs_def NewRtAttr_def list_all2_Cons2 entryAddr_def cong: if_cong)
  have "fold_go (parseAddrAttr (ia_Prefixlen (addrMsg e))) [a1, a2] (None, None, []) = Ok (Some ?net, Some ?net, [])"
    using as'(2,3) by (simp add: attr_view_def parseAddrAttr_def Let_def ones)
  moreover have "fold_go (parseAddrAttr (ia_Prefixlen (addrMsg e))) rest (Some ?net, Some ?net, []) =
      Ok (Some ?net, Some ?net, ae_label e)"
    using rest by (cases "ae_label e = ''''") (auto simp: list_all2_Cons2 read_label)
  ultimately show ?thesis
    using t(1) as(1) by (simp add: addrOf_def as'(1) fold_go_append [of _ "[a1, a2]" rest, simplified] entryAddr_def)
qed

lemma addrDeserialize_message:
  assumes "wf_entry e" "wf_slice s" "sl_bytes s = addrMessage be e"
  shows "addrDeserialize be (Some i) s = Ok (if ae_index e = of_int i then Some (entryAddr e) else None)"
  using addrOf_message [OF assms] DeserializeIfAddrmsg_encoded(1) [of s be "addrMsg e"] assms(2,3)
  by (auto simp: addrDeserialize_def addrMessage_def addrMsg_def)

section \<open>Properties\<close>

lemma addrList_messages:
  assumes "map sl_bytes res = map (addrMessage be) es" "list_all wf_slice res" "list_all wf_entry es"
  shows "map_go_res somes (traverse_go (addrDeserialize be (Some i)) res) =
    Ok (map entryAddr (filter (\<lambda>e. ae_index e = of_int i) es))"
  using assms
proof (induction res arbitrary: es)
  case (Cons r res)
  then obtain e es' where es: "es = e # es'" by (cases es) auto
  with Cons.IH [of es'] Cons.prems have IH: "map_go_res somes (traverse_go (addrDeserialize be (Some i)) res) =
      Ok (map entryAddr (filter (\<lambda>e. ae_index e = of_int i) es'))" by simp
  have "addrDeserialize be (Some i) r = Ok (if ae_index e = of_int i then Some (entryAddr e) else None)"
    using Cons.prems by (intro addrDeserialize_message) (auto simp: es)
  with IH show ?case by (auto simp: es)
qed simp

text \<open>The addresses of a link are those that the kernel lists for its index, in the order in which
  it lists them and however it spreads them over datagrams, with the network masks of the listed
  prefix lengths, for IPv4 and IPv6 alike.\<close>

lemma addresses_listed:
  assumes "sent K 0 (nextRequest 22 0x300 [IfInfo (NewIfInfomsg family)] s) (kern s) fd pid k2" "k_pagesize K < 2 ^ 32"
    and "delivers K fd k2 (map (datagram (k_bigEndian K)) (dgs @ [ms @ [(h, d)]])) k3"
    and "\<forall>m \<in> set (dgs @ [ms @ [(h, d)]]). fits K m"
    and "concat dgs @ ms = map (\<lambda>(h, e). (h, addrMessage (k_bigEndian K) e)) es"
    and "list_all (\<lambda>(h, e). dump_part (nextSeqNr s + 1) pid h \<and> nh_Type h = 20 \<and> wf_entry e) es"
    and "nh_Seq h = nextSeqNr s + 1" "nh_Pid h = pid" "nh_Type h = 3" "la_Index (Attrs l) \<noteq> 0"
  shows "nlAddrList K (Some l) family s =
    Some (Ok (map entryAddr (filter (\<lambda>e. ae_index e = of_int (la_Index (Attrs l))) (map snd es))),
      s\<lparr>nextSeqNr := nextSeqNr s + 1, kern := k_close K fd k3\<rparr>)"
proof -
  let ?req = "nextRequest 22 0x300 [IfInfo (NewIfInfomsg family)] s" and ?s = "s\<lparr>nextSeqNr := nextSeqNr s + 1\<rparr>"
  have parts: "list_all (\<lambda>(h, d). dump_part (nextSeqNr s + 1) pid h) (concat dgs @ ms)"
    using assms(6) by (auto simp: assms(5) list_all_iff)
  have want: "wanted 20 (concat dgs @ ms) = map (\<lambda>(h, e). addrMessage (k_bigEndian K) e) es"
    using assms(6) by (simp add: assms(5) wanted_def filter_map o_def case_prod_unfold list_all_iff)
  obtain res where res: "Execute K 0 20 ?req (kern s) = Some (Ok res, k_close K fd k3)"
    "map sl_bytes res = map (\<lambda>(h, e). addrMessage (k_bigEndian K) e) es" "list_all wf_slice res"
    using Execute_dump [OF assms(1,2) _ assms(3,4) parts assms(7-9), of 20] unfolding want
    by (auto simp: nextRequest_def)
  have "map_go_res somes
      (traverse_go (addrDeserialize (k_bigEndian K) (Some (la_Index (Attrs l)))) res) =
    Ok (map entryAddr (filter (\<lambda>e. ae_index e = of_int (la_Index (Attrs l))) (map snd es)))"
    using addrList_messages [of res "k_bigEndian K" "map snd es" "la_Index (Attrs l)"] res(2,3) assms(6)
    by (simp add: list_all_iff o_def case_prod_unfold)
  moreover have "execRoute K 20 ?req ?s = Some (Ok res, ?s\<lparr>kern := k_close K fd k3\<rparr>)"
    using res(1) by (simp add: execRoute_def)
  ultimately show ?thesis
    using assms(10) by (simp add: nlAddrList_def NewNetlinkRequest_run AddData_next ensureIndex_def) (simp add: liftN_def)
qed

definition lab_entries :: "addr_entry list" where
  "lab_entries = [\<lparr>ae_index = 1, ae_ip = [127, 0, 0, 1], ae_ones = 8, ae_label = ''lo''\<rparr>,
     \<lparr>ae_index = 2, ae_ip = [10, 1, 0, 1], ae_ones = 24, ae_label = ''eth0''\<rparr>,
     \<lparr>ae_index = 2, ae_ip = [254, 128, 0, 0, 0, 0, 0, 0, 0, 0, 0, 0, 0, 0, 0, 1], ae_ones = 64, ae_label = ''''\<rparr>]"

section \<open>Round trip of the text\<close>

lemma simpleMaskLength_CIDRMask:
  assumes "nbits = 32 \<or> nbits = 128" "n \<le> nbits"
  shows "simpleMaskLength (CIDRMask n nbits) = Some n"
proof -
  have b: "maskBits (CIDRMask n nbits) = map (\<lambda>k. k < n) [0 ..< nbits]"
    using assms maskBits_CIDR [of n "nbits div 8"] by (auto simp: CIDRMask_def)
  then show ?thesis
    using assms(2) by (simp add: simpleMaskLength_def map_less_upt takeWhile_append list_all_iff)
qed

lemma length_CIDRMask: "nbits = 32 \<or> nbits = 128 \<Longrightarrow> n \<le> nbits \<Longrightarrow> length (CIDRMask n nbits) = nbits div 8"
  by (auto simp: CIDRMask_def)

lemma IPString_mapped: "To4 ip = Some p4 \<Longrightarrow> IPString (Some p4) = IPString (Some ip)"
  by (auto simp: IPString_def To4_def split: if_splits)

lemma IPNetString_cidr:
  assumes "wf_cidr ip n"
  shows "IPNetString \<lparr>net_IP = ip, net_Mask = CIDRMask n (cidrBits ip)\<rparr> = IPString (Some ip) @ ''/'' @ itoa (int n)"
  using assms IPString_mapped [of ip] simpleMaskLength_CIDRMask [of "cidrBits ip" n] length_CIDRMask [of "cidrBits ip" n]
  by (auto simp: IPNetString_def networkNumberAndMask_def wf_cidr_def cidrBits_def split: option.splits)

lemma plain_graph: "plainText s \<Longrightarrow> list_all isGraph s"
proof -
  have "isHex c \<Longrightarrow> isGraph c" for c by (auto simp: isHex_def hexVal_def isGraph_def Let_def split: if_splits)
  moreover have "isGraph (CHR '':'')" "isGraph (CHR ''.'')" by code_simp+
  ultimately show "plainText s \<Longrightarrow> list_all isGraph s" by (auto simp: plainText_def list_all_iff)
qed

lemma cidr_graph:
  assumes "wf_cidr ip n"
  shows "list_all isGraph (IPString (Some ip) @ ''/'' @ itoa (int n))" (is "list_all _ ?t")
proof -
  have "plainText (IPString (Some ip))"
    using assms by (auto simp: IPString_def plainText_ipv4 plainText_ipv6 wf_cidr_def split: option.split)
  moreover have "plainText (itoa (int n))"
    using natDigits_digits [of n] isDigit_isHex by (auto simp: itoa_def plainText_def list_all_iff)
  moreover have "isGraph (CHR ''/'')" by code_simp
  ultimately show ?thesis using plain_graph by simp
qed

lemma graph_no_space: "list_all isGraph s \<Longrightarrow> CHR '' '' \<notin> set s"
proof -
  have "\<not> isGraph (CHR '' '')" by code_simp
  then show "list_all isGraph s \<Longrightarrow> CHR '' '' \<notin> set s" by (auto simp: list_all_iff)
qed

lemma graph_ends: "list_all isGraph s \<Longrightarrow> s \<noteq> [] \<Longrightarrow> isGraph (hd s) \<and> isGraph (last s)"
  by (simp add: list_all_iff)

text \<open>The text of an address is parsed back to the address: IPv4 in dotted and IPv6 in shortened
  hexadecimal notation, with the prefix length and with or without a label.\<close>

lemma addr_text_roundtrip:
  assumes "wf_cidr ip n" "list_all isGraph label"
  shows "ParseAddr (AddrString \<lparr>ad_IPNet = Some \<lparr>net_IP = ip, net_Mask = CIDRMask n (cidrBits ip)\<rparr>, ad_Label = label\<rparr>) =
    Ok \<lparr>ad_IPNet = Some \<lparr>net_IP = ip, net_Mask = CIDRMask n (cidrBits ip)\<rparr>, ad_Label = label\<rparr>"
proof -
  define t where "t = IPString (Some ip) @ ''/'' @ itoa (int n)"
  have graph: "list_all isGraph t" and ne: "t \<noteq> []" using cidr_graph [OF assms(1)] by (simp_all add: t_def)
  have parse: "ParseIPNet t = Ok \<lparr>net_IP = ip, net_Mask = CIDRMask n (cidrBits ip)\<rparr>"
    using ParseCIDR_String [OF assms(1)] by (simp add: ParseIPNet_def t_def)
  have split: "splitOn (CHR '' '') t = [t]" "splitOn (CHR '' '') (t @ CHR '' '' # label) = [t, label]"
    using graph_no_space [OF graph] graph_no_space [OF assms(2)] by (simp_all add: splitOn_no_sep splitOn_append_sep)
  have print: "AddrString \<lparr>ad_IPNet = Some \<lparr>net_IP = ip, net_Mask = CIDRMask n (cidrBits ip)\<rparr>, ad_Label = label\<rparr> =
      (if label = '''' then t else t @ '' '' @ label)"
  proof (cases "label = ''''")
    case True
    then show ?thesis using trimSpace_graph(2) [OF ne] graph_ends [OF graph ne] IPNetString_cidr [OF assms(1)]
      by (simp add: AddrString_def t_def)
  next
    case False
    then show ?thesis
      using trimSpace_graph(1) [of "t @ '' '' @ label"] graph_ends [OF graph ne] graph_ends [OF assms(2)] ne
        IPNetString_cidr [OF assms(1), folded t_def]
      by (simp add: AddrString_def hd_append)
  qed
  show ?thesis unfolding print using split parse by (simp add: ParseAddr_def Let_def)
qed

end
