(* ===== verification/Ovs_Netlink.thy ===== *)
theory Ovs_Netlink
  imports Netlink_Addr Ovs_Utils
begin

text \<open>
  The plugin on top of the netlink library: an environment whose link and address calls are those
  of the library, on a given kernel. What the plugin does with an interface becomes the requests
  that the kernel gets.
\<close>

section \<open>Environments that use the library\<close>

definition nlOf :: "link \<Rightarrow> nl_link" where
  "nlOf l = \<lparr>nl_Name = la_Name (Attrs l), nl_Index = la_Index (Attrs l),
     nl_PeerName = (case l of Veth _ p \<Rightarrow> p | _ \<Rightarrow> '''')\<rparr>"

definition linkOf :: "nl_link \<Rightarrow> link" where
  "linkOf l = Veth (zeroAttrs\<lparr>la_Name := nl_Name l, la_Index := nl_Index l\<rparr>) (nl_PeerName l)"

text \<open>Whenever a call of the library returns, the call of the environment does the same.\<close>

definition netlink_env :: "'k kernel \<Rightarrow> 'k nl_state env \<Rightarrow> bool" where
  "netlink_env K env \<longleftrightarrow>
     (\<forall>l s r t. nlLinkAdd K (linkOf l) s = Some (r, t) \<longrightarrow> LinkAdd env l s = (map_go_res nlOf r, t)) \<and>
     (\<forall>l s r t. nlLinkDel K (linkOf l) s = Some (r, t) \<longrightarrow> LinkDel env l s = (map_go_res (\<lambda>_. ()) r, t)) \<and>
     (\<forall>l s r t. nlLinkSetUp K (linkOf l) s = Some (r, t) \<longrightarrow> LinkSetUp env l s = (map_go_res (\<lambda>_. ()) r, t)) \<and>
     (\<forall>n s r t. nlLinkByName K n s = Some (r, t) \<longrightarrow> LinkByName env n s = (map_go_res nlOf r, t)) \<and>
     (\<forall>l a s r t. nlAddrAdd K (linkOf l) \<lparr>ad_IPNet = Some a, ad_Label = ''''\<rparr> s = Some (r, t) \<longrightarrow>
        AddrAdd env l a s = (map_go_res (\<lambda>_. ()) r, t))"

text \<open>An environment with these calls; a call that never returns ends the model's run.\<close>

definition returned :: "('a \<Rightarrow> 'b) \<Rightarrow> ('k, 'a) nlm \<Rightarrow> ('k nl_state, 'b) gom" where
  "returned f m s = (case m s of Some (r, t) \<Rightarrow> (map_go_res f r, t) | None \<Rightarrow> (Fatal ''blocked'', s))"

definition withNetlink :: "'k kernel \<Rightarrow> 'k nl_state env \<Rightarrow> 'k nl_state env" where
  "withNetlink K env = env
     \<lparr>LinkAdd := \<lambda>l. returned nlOf (nlLinkAdd K (linkOf l)),
      LinkDel := \<lambda>l. returned (\<lambda>_. ()) (nlLinkDel K (linkOf l)),
      LinkSetUp := \<lambda>l. returned (\<lambda>_. ()) (nlLinkSetUp K (linkOf l)),
      LinkByName := \<lambda>n. returned nlOf (nlLinkByName K n),
      AddrAdd := \<lambda>l a. returned (\<lambda>_. ()) (nlAddrAdd K (linkOf l) \<lparr>ad_IPNet = Some a, ad_Label = ''''\<rparr>)\<rparr>"

lemma netlink_env_with: "netlink_env K (withNetlink K env)"
  by (simp add: netlink_env_def withNetlink_def returned_def)

section \<open>Requests\<close>

lemma linkOf_nlOf: "Attrs (linkOf (nlOf l)) = zeroAttrs\<lparr>la_Name := la_Name (Attrs l), la_Index := la_Index (Attrs l)\<rparr>"
  by (simp add: linkOf_def nlOf_def)

lemma changeLink_ack:
  assumes "la_Index (Attrs l) \<noteq> 0"
    and "acks K (nextRequest proto 4 (IfInfo (msg\<lparr>ii_Index := of_int (la_Index (Attrs l))\<rparr>) # attrs) s) (kern s) n k'"
  shows "changeLink K proto msg attrs l s =
    Some (if n = 0 then Ok l else Err (Errno (int n)), s\<lparr>nextSeqNr := nextSeqNr s + 1, kern := k'\<rparr>)"
proof -
  let ?s = "s\<lparr>nextSeqNr := nextSeqNr s + 1\<rparr>"
  have "execRoute K 0 (nextRequest proto 4 (IfInfo (msg\<lparr>ii_Index := of_int (la_Index (Attrs l))\<rparr>) # attrs) s) ?s =
      Some (if n = 0 then Ok [] else Err (Errno (int n)), ?s\<lparr>kern := k'\<rparr>)"
    using execRoute_ack [of K _ ?s n k' 0] assms(2) by simp
  moreover have "setAttrs (Attrs l) l = l" by (cases l) auto
  ultimately show ?thesis
    using assms(1) by (simp add: changeLink_def ensureIndex_def NewNetlinkRequest_run AddData_next fold_AddData_next)
      (simp add: liftN_def)
qed

lemma nlAddrAdd_ack:
  assumes "la_Index (Attrs l) \<noteq> 0"
    and "acks K (nextRequest 20 (0x400 OR 0x200 OR 4) [IfAddr \<lparr>ia_Family = GetIPFamily (net_IP net),
        ia_Prefixlen = of_nat (maskSize (net_Mask net)), ia_Flags = 0, ia_Scope = 0, ia_Index = of_int (la_Index (Attrs l))\<rparr>,
        RtAttr 2 (addrBytes (net_IP net)) [], RtAttr 1 (addrBytes (net_IP net)) []] s) (kern s) n k'"
  shows "nlAddrAdd K l \<lparr>ad_IPNet = Some net, ad_Label = ''''\<rparr> s =
    Some (if n = 0 then Ok l else Err (Errno (int n)), s\<lparr>nextSeqNr := nextSeqNr s + 1, kern := k'\<rparr>)"
proof -
  let ?s = "s\<lparr>nextSeqNr := nextSeqNr s + 1\<rparr>"
  note x = execRoute_ack [of K _ ?s n k' 0, simplified, OF assms(2)]
  moreover have "setAttrs (Attrs l) l = l" by (cases l) auto
  ultimately show ?thesis
    using assms(1)
    by (simp add: nlAddrAdd_def NewNetlinkRequest_run addrHandle_def ensureIndex_def AddData_next addrAttrs_def
        NewRtAttr_def NewIfAddrmsg_def Let_def) (simp add: liftN_def)
qed

lemma onWorld_call: "m (world s) = (r, w) \<Longrightarrow> onWorld m s = (r, s\<lparr>world := w\<rparr>)"
  by (simp add: onWorld_def)

text \<open>The link of that name, as the plugin sees it.\<close>

lemma found_on_kernel:
  assumes "netlink_env K env" "\<not> lookupByDump (world s)"
    and "answers K (lookupRequest name (world s)) (kern (world s)) h d k1" "nh_Type h = 16" "nh_Flags h AND 2 = 0"
    and "describes (k_bigEndian K) l d"
  shows "onWorld (LinkByName env name) s =
    (Ok (nlOf l), s\<lparr>world := (world s)\<lparr>nextSeqNr := nextSeqNr (world s) + 1, kern := k1\<rparr>\<rparr>)"
proof -
  have "nlLinkByName K name (world s) = Some (Ok l, (world s)\<lparr>nextSeqNr := nextSeqNr (world s) + 1, kern := k1\<rparr>)"
    using assms(2-6) by (rule nlLinkByName_found)
  then have "LinkByName env name (world s) =
      (map_go_res nlOf (Ok l), (world s)\<lparr>nextSeqNr := nextSeqNr (world s) + 1, kern := k1\<rparr>)"
    using assms(1) unfolding netlink_env_def by metis
  then show ?thesis by (intro onWorld_call) simp
qed

section \<open>Properties\<close>


text \<open>An environment in which nothing else happens.\<close>

definition idle :: "'a \<Rightarrow> 'w \<Rightarrow> 'a go \<times> 'w" where
  "idle a w = (Ok a, w)"

definition idle_env :: "'w env" where
  "idle_env =
     \<lparr>rpc_call = (\<lambda>_ _. idle JNull), net_dial = (\<lambda>_. idle ()),
      LinkAdd = idle, LinkDel = (\<lambda>_. idle ()), LinkSetUp = (\<lambda>_. idle ()),
      LinkByName = (\<lambda>n. idle \<lparr>nl_Name = n, nl_Index = 1, nl_PeerName = ''''\<rparr>),
      AddrList = (\<lambda>_. idle []), AddrAdd = (\<lambda>_ _. idle ()), InterfaceByName = (\<lambda>_. idle ()),
      InterfaceAddrs = (\<lambda>_. idle []),
      Sleep = (\<lambda>_. idle ()), LookPath = idle, cmdRun = (\<lambda>_ _. idle ()),
      cmdCombinedOutput = (\<lambda>_ _. idle ('''', None)), cmdOutput = (\<lambda>_ _. idle ''''),
      cmdStdoutPipe = (\<lambda>_. idle ()), cmdStderrPipe = (\<lambda>_. idle ()), cmdStart = (\<lambda>_. idle ()),
      cmdReadStderr = (\<lambda>_. idle ''''), cmdReadStdout = (\<lambda>_. idle ''''), cmdWait = (\<lambda>_. idle ()),
      Passthrough = (\<lambda>_. idle ''''), osCreate = (\<lambda>_. idle ()), osWrite = (\<lambda>_ _. idle ()),
      osRemove = (\<lambda>_. idle ()), NewDockerClient = (\<lambda>_. idle ())\<rparr>"

definition lab_plugin :: "'w \<Rightarrow> 'w plugin" where
  "lab_plugin w = \<lparr>networks = [], ovsdb = None, ovsdbCache = [], contextCache = [], iptablesPath = '''',
     supportsXlock = False, firewalldRunning = False, world = w\<rparr>"

definition lab_ack_at :: "32 word \<Rightarrow> bytes" where
  "lab_ack_at seq = datagram False [(lab_hdr 2 0 seq, put32 False 0 @ [])]"

lemma lab_acks:
  assumes "nh_Seq (nr_hdr req) = seq"
  shows "acks lab_kernel req \<lparr>lk_replies = lab_ack_at seq # ds, lk_sent = bs, lk_open = 0\<rparr> 0
    \<lparr>lk_replies = ds, lk_sent = bs @ [the_bytes req], lk_open = 0\<rparr>"
proof -
  have "fits lab_kernel [(lab_hdr 2 0 seq, put32 False 0 @ [])]"
    by (simp add: fits_def datagram_def length_encodeMsg rtaAlignOf_def) (simp add: lab_kernel_def)
  then have "answers lab_kernel req \<lparr>lk_replies = lab_ack_at seq # ds, lk_sent = bs, lk_open = 0\<rparr> (lab_hdr 2 0 seq)
      (put32 False 0 @ []) \<lparr>lk_replies = ds, lk_sent = bs @ [the_bytes req], lk_open = 0\<rparr>"
    using lab_answers [of "lab_hdr 2 0 seq" req "put32 False 0 @ []" ds bs] assms
    unfolding lab_ack_at_def by (simp add: lab_lookup)
  moreover have "k_bigEndian lab_kernel = False" by (simp add: lab_kernel_def)
  ultimately show ?thesis
    unfolding acks_def by (intro conjI exI [of _ "lab_hdr 2 0 seq"] exI [of _ "[]"]) (auto simp: lab_lookup)
qed

lemma lab_device_described:
  "describes False lab_device (serializeIfInfomsg False lab_info @ concat (map (encode False) (describe False lab_device)))"
proof -
  have "wf_attrs (Attrs lab_device)" "wf_kind lab_device"
    by (simp_all add: lab_device_def wf_attrs_def zeroAttrs_def)
  moreover have "list_all attr_ok (describe False lab_device)" "sint (ii_Index lab_info) = la_Index (Attrs lab_device)"
    "linkFlags (ii_Flags lab_info) = la_Flags (Attrs lab_device)" by code_simp+
  ultimately show ?thesis unfolding describes_def by blast
qed


end
