(* ===== verification/Hub.thy ===== *)
theory Hub
  imports Go_Prelude
begin

text \<open>
  The event dispatcher \<open>cenkalti/hub/hub.go\<close>. A handler is a number here; publishing an event
  gives the list of the handlers that are called.

  The cancel function works on a copy of the slice header: the array is shared with the map, the
  length is not. It takes the lock first, and gives it back only on its way through; a second call
  returns with the lock held, and every later operation waits for ever (\<open>None\<close>).
\<close>

section \<open>The hub\<close>

record hub_handler =
  hh_f :: nat
  hh_id :: "64 word"

record hub =
  hub_subscribers :: "(int, hub_handler list) gomap"
  hub_seq :: "64 word"
  hub_locked :: bool
  hub_cancelled :: "64 word list"

definition newHub :: hub where
  "newHub = \<lparr>hub_subscribers = [], hub_seq = 0, hub_locked = False, hub_cancelled = []\<rparr>"

definition subscribersOf :: "hub \<Rightarrow> int \<Rightarrow> hub_handler list" where
  "subscribersOf h kind = (case go_lookup (hub_subscribers h) kind of Some a \<Rightarrow> a | None \<Rightarrow> [])"

text \<open>\<open>Subscribe\<close> returns the function that cancels the subscription: it is known by its number.\<close>

definition hubSubscribe :: "int \<Rightarrow> nat \<Rightarrow> hub \<Rightarrow> (64 word \<times> hub) option" where
  "hubSubscribe kind f h = (if hub_locked h then None else
     let i = hub_seq h + 1
     in Some (i, h\<lparr>hub_seq := i,
          hub_subscribers := go_update kind (subscribersOf h kind @ [\<lparr>hh_f = f, hh_id = i\<rparr>]) (hub_subscribers h)\<rparr>))"

text \<open>The position of the handler, and the array after the assignment \<open>a[i], a = a[len(a)-1], a[:len(a)-1]\<close>.\<close>

fun position :: "64 word \<Rightarrow> hub_handler list \<Rightarrow> nat option" where
  "position i [] = None"
| "position i (x # xs) = (if hh_id x = i then Some 0 else map_option Suc (position i xs))"

definition cancel :: "int \<Rightarrow> 64 word \<Rightarrow> hub \<Rightarrow> hub option" where
  "cancel kind i h = (if hub_locked h then None
     else if i \<in> set (hub_cancelled h) then Some (h\<lparr>hub_locked := True\<rparr>)
     else let a = subscribersOf h kind; h' = h\<lparr>hub_cancelled := i # hub_cancelled h\<rparr> in
       (case position i a of
          None \<Rightarrow> Some (if a = [] then h'\<lparr>hub_subscribers := go_delete kind (hub_subscribers h)\<rparr> else h')
        | Some p \<Rightarrow> Some (if length a = 1 then h'\<lparr>hub_subscribers := go_delete kind (hub_subscribers h)\<rparr>
            else h'\<lparr>hub_subscribers := go_update kind (a[p := last a]) (hub_subscribers h)\<rparr>)))"

definition Publish :: "int \<Rightarrow> hub \<Rightarrow> nat list option" where
  "Publish kind h = (if hub_locked h then None else Some (map hh_f (subscribersOf h kind)))"

section \<open>What cancelling does\<close>

lemma subscribersOf_update:
  "subscribersOf (h\<lparr>hub_subscribers := go_update k v (hub_subscribers h)\<rparr>) k' =
     (if k' = k then v else subscribersOf h k')"
  by (simp add: subscribersOf_def)

lemma position_append: "i \<notin> hh_id ` set xs \<Longrightarrow> hh_id x = i \<Longrightarrow> position i (xs @ x # ys) = Some (length xs)"
  by (induction xs) auto

text \<open>Cancelling a subscription does not remove it properly: of several handlers of a kind, the
  one that was subscribed last stays subscribed when it is cancelled, and when another one is
  cancelled the last one is called twice from then on. Only the single handler of a kind is
  removed. Cancelling twice leaves the hub locked for ever.\<close>

lemma hub_cancel:
  assumes "subscribersOf h kind = xs @ x # ys" "hh_id x = i" "i \<notin> hh_id ` set xs" "\<not> hub_locked h"
    and "i \<notin> set (hub_cancelled h)"
  shows "\<exists>h'. cancel kind i h = Some h' \<and>
    Publish kind h' = Some (if xs = [] \<and> ys = [] then []
      else map hh_f xs @ hh_f (last (x # ys)) # map hh_f ys) \<and>
    (\<exists>h''. cancel kind i h' = Some h'' \<and> (\<forall>k f j. Publish k h'' = None \<and> hubSubscribe k f h'' = None \<and> cancel k j h'' = None))"
proof -
  have p: "position i (xs @ x # ys) = Some (length xs)" using assms(2,3) by (simp add: position_append)
  let ?h = "h\<lparr>hub_cancelled := i # hub_cancelled h\<rparr>"
  have "cancel kind i h = Some (if xs = [] \<and> ys = [] then ?h\<lparr>hub_subscribers := go_delete kind (hub_subscribers h)\<rparr>
      else ?h\<lparr>hub_subscribers := go_update kind (xs @ last (x # ys) # ys) (hub_subscribers h)\<rparr>)"
    using assms p by (simp add: cancel_def Let_def)
  then show ?thesis using assms(4)
    by (auto simp: Publish_def cancel_def hubSubscribe_def subscribersOf_def)
qed

definition lab_hub :: hub where
  "lab_hub = (case hubSubscribe 1 10 newHub of Some (_, h) \<Rightarrow>
     (case hubSubscribe 1 20 h of Some (_, h') \<Rightarrow> h' | None \<Rightarrow> h) | None \<Rightarrow> newHub)"

end
