(* ===== verification/Dbus_Signature.thy ===== *)
theory Dbus_Signature
  imports Go_Prelude
begin

text \<open>
  Type signatures of D-Bus, \<open>godbus/dbus/sig.go\<close>, and the types they stand for,
  \<open>godbus/dbus/dbus.go\<close>. Package iptables reaches firewalld through this library.

  A Go type (\<open>reflect.Type\<close>) is a \<open>dtype\<close>: the kinds that the library tells apart, \<open>TInterface\<close> for
  \<open>interface{}\<close>, and \<open>TOther\<close> for a type that D-Bus cannot represent (\<open>int\<close>, channels, functions). An array
  type is a slice type here, because both are encoded alike. The fields of a struct are those that are
  encoded, that is, exported and not tagged with a dash.

  The library signals errors by panics that carry an error value, which \<open>Decode\<close> and \<open>Encode\<close> recover.
  Hence a returned error and a panic are both a \<open>dbus_error\<close> on the left of a sum; \<open>RuntimeError\<close> is a
  panic that the Go runtime raises, and no function returns it as an error unless it recovers it.
\<close>

section \<open>Types and errors\<close>

datatype dtype =
    TByte | TBool | TInt16 | TUint16 | TInt32 | TUint32 | TInt64 | TUint64 | TFloat64
  | TString | TSignature | TObjectPath | TVariant | TUnixFDIndex | TUnixFD
  | TInterface | TOther string | TPtr dtype | TSlice dtype | TMap dtype dtype | TStruct string "dtype list"

datatype dbus_error =
    SignatureError string string
  | InvalidTypeError dtype
  | FormatError string
  | InvalidMessageError string
  | RuntimeError go_panic
  | DbusErr goerr

abbreviation interfacesType :: dtype where
  "interfacesType \<equiv> TSlice TInterface"

definition sigToType :: "char \<Rightarrow> dtype option" where
  "sigToType c = map_of [(CHR ''y'', TByte), (CHR ''b'', TBool), (CHR ''n'', TInt16), (CHR ''q'', TUint16),
     (CHR ''i'', TInt32), (CHR ''u'', TUint32), (CHR ''x'', TInt64), (CHR ''t'', TUint64), (CHR ''d'', TFloat64),
     (CHR ''s'', TString), (CHR ''g'', TSignature), (CHR ''o'', TObjectPath), (CHR ''v'', TVariant),
     (CHR ''h'', TUnixFDIndex)] c"

fun isKeyType :: "dtype \<Rightarrow> bool" where
  "isKeyType t \<longleftrightarrow> t \<in> {TByte, TUint16, TUint32, TUint64, TInt16, TInt32, TInt64, TFloat64, TString,
     TObjectPath, TUnixFD, TUnixFDIndex}"

fun alignment :: "dtype \<Rightarrow> nat" where
  "alignment TVariant = 1"
| "alignment TObjectPath = 4"
| "alignment TSignature = 1"
| "alignment TByte = 1"
| "alignment TUint16 = 2"
| "alignment TInt16 = 2"
| "alignment TUint32 = 4"
| "alignment TInt32 = 4"
| "alignment TUnixFD = 4"
| "alignment TUnixFDIndex = 4"
| "alignment TString = 4"
| "alignment (TSlice e) = (if e = TInterface then 8 else 4)"
| "alignment (TMap k v) = 4"
| "alignment TUint64 = 8"
| "alignment TInt64 = 8"
| "alignment TFloat64 = 8"
| "alignment (TStruct n ts) = 8"
| "alignment (TPtr t) = alignment t"
| "alignment TBool = 1"
| "alignment TInterface = 1"
| "alignment (TOther n) = 1"

section \<open>Signatures of types\<close>

fun getSignature :: "dtype \<Rightarrow> string go" where
  "getSignature TByte = Ok ''y''"
| "getSignature TBool = Ok ''b''"
| "getSignature TInt16 = Ok ''n''"
| "getSignature TUint16 = Ok ''q''"
| "getSignature TInt32 = Ok ''i''"
| "getSignature TUnixFD = Ok ''h''"
| "getSignature TUint32 = Ok ''u''"
| "getSignature TUnixFDIndex = Ok ''h''"
| "getSignature TInt64 = Ok ''x''"
| "getSignature TUint64 = Ok ''t''"
| "getSignature TFloat64 = Ok ''d''"
| "getSignature (TPtr t) = getSignature t"
| "getSignature TString = Ok ''s''"
| "getSignature TObjectPath = Ok ''o''"
| "getSignature TVariant = Ok ''v''"
| "getSignature TSignature = Ok ''g''"
| "getSignature (TStruct n ts) = bind_go (traverse_go getSignature ts) (\<lambda>ss. Ok (''('' @ concat ss @ '')''))"
| "getSignature (TSlice t) = bind_go (getSignature t) (\<lambda>s. Ok (''a'' @ s))"
| "getSignature (TMap k v) = (if \<not> isKeyType k then Panic (UserPanic ''dbus: invalid type'')
     else bind_go (getSignature k) (\<lambda>sk. bind_go (getSignature v) (\<lambda>sv. Ok (''a{'' @ sk @ sv @ ''}''))))"
| "getSignature TInterface = Panic (UserPanic ''dbus: invalid type'')"
| "getSignature (TOther n) = Panic (UserPanic ''dbus: invalid type'')"

definition SignatureOf :: "dtype list \<Rightarrow> string go" where
  "SignatureOf ts = bind_go (traverse_go getSignature ts) (\<lambda>ss. Ok (concat ss))"

section \<open>Parsing signatures\<close>

fun findMatchingFrom :: "char \<Rightarrow> char \<Rightarrow> int \<Rightarrow> nat \<Rightarrow> string \<Rightarrow> nat option" where
  "findMatchingFrom left right n i [] = None"
| "findMatchingFrom left right n i (v # s) =
     (let n' = (if v = left then n + 1 else if v = right then n - 1 else n) in
      if n' = 0 then Some i else findMatchingFrom left right n' (Suc i) s)"

definition findMatching :: "string \<Rightarrow> char \<Rightarrow> char \<Rightarrow> nat option" where
  "findMatching s left right = findMatchingFrom left right 0 0 s"

text \<open>
  \<open>validSingle\<close> gives the rest of the string after one complete type; \<open>validAll\<close> is the loop over
  the fields of a struct, and the loop of \<open>ParseSignature\<close>. The test on the lengths in \<open>validAll\<close> is not in the code. It
  is there for the termination of the definition and always holds (\<open>validAll_loop\<close> below).
\<close>

function validSingle :: "string \<Rightarrow> nat \<Rightarrow> dbus_error + string"
  and validAll :: "string \<Rightarrow> nat \<Rightarrow> dbus_error + unit" where
  "validSingle s depth =
     (if s = '''' then Inl (SignatureError s ''empty signature'')
      else if depth > 64 then Inl (SignatureError s ''container nesting too deep'')
      else if s ! 0 \<in> set ''ybnqiuxtdsgovh'' then Inr (drop 1 s)
      else if s ! 0 = CHR ''a'' then
        (if length s > 1 \<and> s ! 1 = CHR ''{'' then
           (case findMatching (drop 1 s) (CHR ''{'') (CHR ''}'') of
              None \<Rightarrow> Inl (SignatureError s (''unmatched '{'' @ [CHR 0x27]))
            | Some j \<Rightarrow>
                (let i = j + 1; s' = take (i - 2) (drop 2 s) in
                 if s' = '''' then Inl (RuntimeError IndexOutOfRange)
                 else (case validSingle (take 1 s') (depth + 1) of Inl e \<Rightarrow> Inl e
                   | Inr _ \<Rightarrow> (case validSingle (drop 1 s') (depth + 1) of Inl e \<Rightarrow> Inl e
                       | Inr nr \<Rightarrow> if nr \<noteq> '''' then Inl (SignatureError s' ''too many types in dict'')
                           else Inr (drop (i + 1) s)))))
         else validSingle (drop 1 s) (depth + 1))
      else if s ! 0 = CHR ''('' then
        (case findMatching s (CHR ''('') (CHR '')'') of
           None \<Rightarrow> Inl (SignatureError s (''unmatched ')'' @ [CHR 0x27]))
         | Some i \<Rightarrow> (case validAll (take (i - 1) (drop 1 s)) (depth + 1) of
             Inl e \<Rightarrow> Inl e | Inr _ \<Rightarrow> Inr (drop (i + 1) s)))
      else Inl (SignatureError s ''invalid type character''))"
| "validAll s depth =
     (if s = '''' then Inr ()
      else (case validSingle s depth of Inl e \<Rightarrow> Inl e
        | Inr rem \<Rightarrow> if length rem < length s then validAll rem depth else Inl (RuntimeError IndexOutOfRange)))"
  by pat_completeness auto
termination
  by (relation "measure (\<lambda>x. case x of Inl (s, _) \<Rightarrow> 2 * length s | Inr (s, _) \<Rightarrow> 2 * length s + 1)")
     (auto simp: min_def length_greater_0_conv [symmetric] simp del: length_greater_0_conv)

declare validSingle.simps [simp del] validAll.simps [simp del]

definition ParseSignature :: "string \<Rightarrow> dbus_error + string" where
  "ParseSignature s =
     (if length s = 0 then Inr ''''
      else if length s > 255 then Inl (SignatureError s ''too long'')
      else (case validAll s 0 of Inl e \<Rightarrow> Inl e | Inr _ \<Rightarrow> Inr s))"

text \<open>\<open>Single\<close> returns \<open>err != nil && r == ""\<close>; the rest \<open>r\<close> is empty whenever there is an error.\<close>

definition Single :: "string \<Rightarrow> bool go" where
  "Single s = (case validSingle s 0 of
       Inl (RuntimeError p) \<Rightarrow> Panic p
     | Inl e \<Rightarrow> Ok True
     | Inr r \<Rightarrow> Ok False)"


text \<open>\<open>typeFor\<close> is called with one complete type; a panic of it is recovered by \<open>Decode\<close>.\<close>

definition lastIndex :: "char \<Rightarrow> string \<Rightarrow> nat option" where
  "lastIndex c s = (if c \<in> set s then Some (length s - 1 - length (takeWhile (\<lambda>x. x \<noteq> c) (rev s))) else None)"

function typeFor :: "string \<Rightarrow> dbus_error + dtype" where
  "typeFor s = (case validSingle s 0 of Inl e \<Rightarrow> Inl e | Inr _ \<Rightarrow>
     (case sigToType (s ! 0) of Some t \<Rightarrow> Inr t
      | None \<Rightarrow>
          if s ! 0 = CHR ''a'' then
            (if s ! 1 = CHR ''{'' then
               (case (lastIndex (CHR ''}'') s, sigToType (s ! 2)) of
                  (Some i, Some k) \<Rightarrow> (case typeFor (take (i - 3) (drop 3 s)) of Inl e \<Rightarrow> Inl e | Inr v \<Rightarrow> Inr (TMap k v))
                | _ \<Rightarrow> Inl (RuntimeError NilDereference))
             else (case typeFor (drop 1 s) of Inl e \<Rightarrow> Inl e | Inr e \<Rightarrow> Inr (TSlice e)))
          else if s ! 0 = CHR ''('' then Inr interfacesType
          else Inl (RuntimeError NilDereference)))"
  by pat_completeness auto
termination
  by (relation "measure length")
     (auto simp: min_def length_greater_0_conv [symmetric] validSingle.simps simp del: length_greater_0_conv split: if_splits)

declare typeFor.simps [simp del]

section \<open>The grammar of signatures\<close>

text \<open>The types that a signature can stand for, their signatures and their container nesting.\<close>

fun basicType :: "dtype \<Rightarrow> bool" where
  "basicType t \<longleftrightarrow> t \<in> {TByte, TBool, TInt16, TUint16, TInt32, TUint32, TInt64, TUint64, TFloat64, TString,
     TSignature, TObjectPath, TVariant, TUnixFDIndex}"

fun wireType :: "dtype \<Rightarrow> bool" where
  "wireType (TSlice t) \<longleftrightarrow> wireType t"
| "wireType (TMap k v) \<longleftrightarrow> basicType k \<and> wireType v"
| "wireType (TStruct n ts) \<longleftrightarrow> list_all wireType ts"
| "wireType t \<longleftrightarrow> basicType t"

fun sigString :: "dtype \<Rightarrow> string" where
  "sigString TByte = ''y''"
| "sigString TBool = ''b''"
| "sigString TInt16 = ''n''"
| "sigString TUint16 = ''q''"
| "sigString TInt32 = ''i''"
| "sigString TUint32 = ''u''"
| "sigString TInt64 = ''x''"
| "sigString TUint64 = ''t''"
| "sigString TFloat64 = ''d''"
| "sigString TString = ''s''"
| "sigString TSignature = ''g''"
| "sigString TObjectPath = ''o''"
| "sigString TVariant = ''v''"
| "sigString (TSlice t) = CHR ''a'' # sigString t"
| "sigString (TMap k v) = ''a{'' @ sigString k @ sigString v @ ''}''"
| "sigString (TStruct n ts) = ''('' @ concat (map sigString ts) @ '')''"
| "sigString _ = ''h''"

fun nesting :: "dtype \<Rightarrow> nat" where
  "nesting (TSlice t) = Suc (nesting t)"
| "nesting (TMap k v) = Suc (nesting v)"
| "nesting (TStruct n ts) = foldr (\<lambda>t. max (Suc (nesting t))) ts 0"
| "nesting t = 0"


lemma findMatching_skip:
  assumes "n > 0" and "(l, r) = (CHR ''{'', CHR ''}'') \<or> (l, r) = (CHR ''('', CHR '')'')"
  shows "findMatchingFrom l r n i (sigString t @ rest) = findMatchingFrom l r n (i + length (sigString t)) rest"
  using assms
proof (induction t arbitrary: n i rest)
  case (TStruct name ts)
  have fields: "findMatchingFrom l r m j (concat (map sigString ts') @ rest') =
      findMatchingFrom l r m (j + length (concat (map sigString ts'))) rest'"
    if "m > 0" "set ts' \<subseteq> set ts" for m j ts' rest'
    using that
  proof (induction ts' arbitrary: j)
    case (Cons t ts')
    then show ?case using TStruct.IH [of t m j] TStruct.prems(2) by (simp add: add.assoc)
  qed simp
  show ?case using TStruct.prems by (auto simp: fields Let_def ac_simps)
next
  case (TMap k v)
  then show ?case by (auto simp: Let_def ac_simps)
qed (auto simp: Let_def)

lemma findMatching_struct:
  "findMatching (''('' @ concat (map sigString ts) @ '')'' @ rest) (CHR ''('') (CHR '')'') = Some (1 + length (concat (map sigString ts)))"
proof -
  have "findMatchingFrom (CHR ''('') (CHR '')'') 1 j (concat (map sigString ts) @ '')'' @ rest) =
      Some (j + length (concat (map sigString ts)))" for j
  proof (induction ts arbitrary: j)
    case (Cons t ts)
    then show ?case using findMatching_skip [of 1 "CHR ''(''" "CHR '')''" j t] by (simp add: add.assoc)
  qed simp
  then show ?thesis by (simp add: findMatching_def)
qed

lemma findMatching_dict:
  "findMatching (''{'' @ sigString k @ sigString v @ ''}'' @ rest) (CHR ''{'') (CHR ''}'') =
     Some (1 + length (sigString k) + length (sigString v))"
  using findMatching_skip [of 1 "CHR ''{''" "CHR ''}''"] by (simp add: findMatching_def)

lemma findMatching_bound:
  "findMatchingFrom l r n i s = Some j \<Longrightarrow> i \<le> j \<and> j < i + length s"
proof (induction s arbitrary: n i)
  case (Cons c s)
  then show ?case by (fastforce simp: Let_def split: if_splits)
qed simp

lemma findMatching_right:
  assumes "findMatchingFrom l r n i s = Some j" "n > 0" "l \<noteq> r"
  shows "s ! (j - i) = r"
  using assms
proof (induction s arbitrary: n i)
  case (Cons c s)
  show ?case
  proof (cases "(if c = l then n + 1 else if c = r then n - 1 else n) = 0")
    case True
    then show ?thesis using Cons.prems by (auto simp: Let_def split: if_splits)
  next
    case False
    then have rec: "findMatchingFrom l r (if c = l then n + 1 else if c = r then n - 1 else n) (Suc i) s = Some j"
      using Cons.prems(1) by (simp add: Let_def)
    moreover have "(if c = l then n + 1 else if c = r then n - 1 else n) > 0" using Cons.prems(2) False by auto
    ultimately have "s ! (j - Suc i) = r" using Cons.IH Cons.prems(3) by blast
    moreover have "j \<ge> Suc i" using findMatching_bound [OF rec] by simp
    ultimately show ?thesis by (simp add: nth_Cons' Suc_diff_le)
  qed
qed simp

text \<open>After an opening bracket, the position that is found is that of a closing one.\<close>

lemma findMatching_split:
  assumes "findMatching (l # s) l r = Some i" "l \<noteq> r"
  shows "l # s = l # take (i - 1) s @ r # drop i s" "i > 0" "i \<le> length s"
proof -
  have m: "findMatchingFrom l r 1 1 s = Some i" using assms(1) by (simp add: findMatching_def)
  then have b: "i > 0" "i \<le> length s" using findMatching_bound by fastforce+
  have "s ! (i - 1) = r" using findMatching_right [OF m] assms(2) by simp
  then show "l # s = l # take (i - 1) s @ r # drop i s"
    using id_take_nth_drop [of "i - 1" s] b by simp
  show "i > 0" "i \<le> length s" by (fact b)+
qed


lemma sigString_length [simp]: "length (sigString t) > 0" "sigString t \<noteq> []"
  by (cases t; simp)+

lemma sigString_single: "wireType t \<Longrightarrow> length (sigString t) \<le> 1 \<Longrightarrow> basicType t"
  by (cases t) auto

lemma basic_wire: "basicType t \<Longrightarrow> wireType t \<and> nesting t = 0"
  by (cases t) simp_all

lemma basic_char:
  assumes "s ! 0 \<in> set ''ybnqiuxtdsgovh''" "s \<noteq> []"
  shows "\<exists>t. basicType t \<and> wireType t \<and> nesting t = 0 \<and> s = sigString t @ drop 1 s"
proof -
  have "sigString ` {t. basicType t} = {''y'', ''b'', ''n'', ''q'', ''i'', ''u'', ''x'', ''t'', ''d'', ''s'', ''g'', ''o'', ''v'', ''h''}"
    by (simp only: basicType.simps Collect_mem_eq image_insert image_empty sigString.simps)
  moreover have "[s ! 0] \<in> {''y'', ''b'', ''n'', ''q'', ''i'', ''u'', ''x'', ''t'', ''d'', ''s'', ''g'', ''o'', ''v'', ''h''}"
    using assms(1) by simp
  ultimately have "[s ! 0] \<in> sigString ` {t. basicType t}" by (simp only:)
  then obtain t where t: "basicType t" "sigString t = [s ! 0]" by (elim imageE CollectE) simp
  moreover have "s = [s ! 0] @ drop 1 s" using assms(2) by (cases s) simp_all
  ultimately show ?thesis using basic_wire [OF t(1)] by metis
qed

lemma validSingle_dict:
  assumes "s = CHR ''a'' # CHR ''{'' # body @ CHR ''}'' # rest" "depth \<le> 64"
    and "findMatching (drop 1 s) (CHR ''{'') (CHR ''}'') = Some (Suc (length body))"
  shows "validSingle s depth =
    (if body = '''' then Inl (RuntimeError IndexOutOfRange)
     else (case validSingle (take 1 body) (depth + 1) of Inl e \<Rightarrow> Inl e
       | Inr _ \<Rightarrow> (case validSingle (drop 1 body) (depth + 1) of Inl e \<Rightarrow> Inl e
           | Inr nr \<Rightarrow> if nr \<noteq> '''' then Inl (SignatureError body ''too many types in dict'') else Inr rest)))"
  using assms by (subst validSingle.simps) (auto simp: Let_def split: sum.split)

lemma validSingle_struct:
  assumes "s = CHR ''('' # body @ CHR '')'' # rest" "depth \<le> 64"
    and "findMatching s (CHR ''('') (CHR '')'') = Some (Suc (length body))"
  shows "validSingle s depth = (case validAll body (depth + 1) of Inl e \<Rightarrow> Inl e | Inr _ \<Rightarrow> Inr rest)"
  using assms by (subst validSingle.simps) (auto split: sum.split)

lemma validSingle_slice:
  assumes "s = CHR ''a'' # s'" "s' = [] \<or> s' ! 0 \<noteq> CHR ''{''" "depth \<le> 64"
  shows "validSingle s depth = validSingle s' (depth + 1)"
  using assms by (subst validSingle.simps) auto


lemma nesting_struct: "nesting (TStruct n ts) + d \<le> 64 \<longleftrightarrow> d \<le> 64 \<and> (\<forall>t \<in> set ts. nesting t + Suc d \<le> 64)"
  by (induction ts) auto

lemma validSingle_cases:
  assumes "validSingle s depth = Inr rest"
  obtains (basic) t where "basicType t" "s = sigString t @ rest" "depth \<le> 64"
  | (dict) body where "s = ''a{'' @ body @ ''}'' @ rest" "depth \<le> 64" "body \<noteq> ''''"
      "\<exists>r. validSingle (take 1 body) (depth + 1) = Inr r" "validSingle (drop 1 body) (depth + 1) = Inr ''''"
      "length body < length s"
  | (slice) s' where "s = CHR ''a'' # s'" "depth \<le> 64" "validSingle s' (depth + 1) = Inr rest"
  | (struct) body where "s = ''('' @ body @ '')'' @ rest" "depth \<le> 64" "validAll body (depth + 1) = Inr ()"
proof -
  have s: "s \<noteq> []" and d: "depth \<le> 64" using assms by (auto simp: validSingle.simps split: if_splits)
  then obtain c s0 where cs: "s = c # s0" by (cases s) auto
  define B where "B = set ''ybnqiuxtdsgovh''"
  consider (b) "s ! 0 \<in> B" | (m) s' where "s = CHR ''a'' # CHR ''{'' # s'"
    | (a) s' where "s = CHR ''a'' # s'" "s' = [] \<or> s' ! 0 \<noteq> CHR ''{''"
    | (t) s' where "s = CHR ''('' # s'" | (x) "s ! 0 \<notin> B" "s ! 0 \<noteq> CHR ''a''" "s ! 0 \<noteq> CHR ''(''"
    using that cs by (cases "c \<in> B"; cases s0; cases "c = CHR ''a''"; cases "c = CHR ''(''"; cases "s0 ! 0 = CHR ''{''") auto
  then show thesis
  proof cases
    case b
    then have c: "s ! 0 \<in> set ''ybnqiuxtdsgovh''" by (simp add: B_def)
    then have "rest = drop 1 s" using assms s d by (subst (asm) validSingle.simps) (simp del: list.set)
    then show thesis using basic_char [OF c s] basic d by blast
  next
    case m
    then obtain i where i: "findMatching (CHR ''{'' # s') (CHR ''{'') (CHR ''}'') = Some i"
      using assms d by (auto simp: validSingle.simps split: option.splits)
    note sp = findMatching_split [OF i, simplified]
    define body where "body = take (i - 1) s'"
    have s': "s' = body @ CHR ''}'' # drop i s'" "i = Suc (length body)"
      using sp by (simp_all add: body_def)
    have "validSingle s depth = (if body = '''' then Inl (RuntimeError IndexOutOfRange)
       else (case validSingle (take 1 body) (depth + 1) of Inl e \<Rightarrow> Inl e
         | Inr _ \<Rightarrow> (case validSingle (drop 1 body) (depth + 1) of Inl e \<Rightarrow> Inl e
           | Inr nr \<Rightarrow> if nr \<noteq> '''' then Inl (SignatureError body ''too many types in dict'') else Inr (drop i s'))))"
      by (rule validSingle_dict) (use m i s' d in auto)
    then show thesis using assms dict [of body] m s'(1) d by (auto split: if_splits sum.splits)
  next
    case a
    then show thesis using validSingle_slice [OF a d] assms slice d by simp
  next
    case t
    then obtain i where i: "findMatching (CHR ''('' # s') (CHR ''('') (CHR '')'') = Some i"
      using assms d by (auto simp: validSingle.simps split: option.splits)
    note sp = findMatching_split [OF i, simplified]
    define body where "body = take (i - 1) s'"
    have s': "s' = body @ CHR '')'' # drop i s'" "i = Suc (length body)"
      using sp by (simp_all add: body_def)
    have "validSingle s depth = (case validAll body (depth + 1) of Inl e \<Rightarrow> Inl e | Inr _ \<Rightarrow> Inr (drop i s'))"
      by (rule validSingle_struct) (use t i s' d in auto)
    then show thesis using assms struct [of body] t s'(1) d by (auto split: sum.splits)
  next
    case x
    then show thesis using assms s d by (simp add: validSingle.simps B_def)
  qed
qed

lemma valid_sound_step:
  assumes IH: "\<And>s' d' rest. length s' < length s \<Longrightarrow> validSingle s' d' = Inr rest \<Longrightarrow>
      \<exists>t. wireType t \<and> nesting t + d' \<le> 64 \<and> s' = sigString t @ rest"
    "\<And>s' d'. length s' < length s \<Longrightarrow> validAll s' d' = Inr () \<Longrightarrow>
      \<exists>ts. list_all (\<lambda>t. wireType t \<and> nesting t + d' \<le> 64) ts \<and> s' = concat (map sigString ts)"
    and v: "validSingle s d = Inr rest"
  shows "\<exists>t. wireType t \<and> nesting t + d \<le> 64 \<and> s = sigString t @ rest"
  using v
proof (cases rule: validSingle_cases)
  case (basic t)
  then show ?thesis using basic_wire by fastforce
next
  case (dict body)
  have len: "length (take 1 body) < length s" "length (drop 1 body) < length s" using dict(3,6) by auto
  obtain r where "validSingle (take 1 body) (d + 1) = Inr r" using dict(4) by blast
  then obtain k where k: "wireType k" "take 1 body = sigString k @ r" using IH(1) [OF len(1)] by blast
  have "length (take 1 body) = 1" using dict(3) by (cases body) auto
  then have "length (sigString k) + length r = 1" by (metis k(2) length_append)
  moreover have "length (sigString k) \<ge> 1" using sigString_length(1) [of k] by linarith
  ultimately have kb: "length r = 0" "length (sigString k) \<le> 1" by linarith+
  obtain w where w: "wireType w" "nesting w + Suc d \<le> 64" "drop 1 body = sigString w"
    using IH(1) [OF len(2) dict(5)] by auto
  have "body = sigString k @ sigString w" using k(2) kb(1) w(3) by (metis append_Nil2 append_take_drop_id length_0_conv)
  moreover have "basicType k" using sigString_single k(1) kb(2) by blast
  ultimately have "wireType (TMap k w) \<and> nesting (TMap k w) + d \<le> 64 \<and> s = sigString (TMap k w) @ rest"
    using dict(1) w by simp
  then show ?thesis by blast
next
  case (slice s')
  then obtain t where "wireType t" "nesting t + Suc d \<le> 64" "s' = sigString t @ rest"
    using IH(1) [of s' "d + 1" rest] by auto
  then show ?thesis using slice(1) by (intro exI [of _ "TSlice t"]) simp
next
  case (struct body)
  then obtain ts where "list_all (\<lambda>t. wireType t \<and> nesting t + Suc d \<le> 64) ts" "body = concat (map sigString ts)"
    using IH(2) [of body "d + 1"] by auto
  then show ?thesis using struct nesting_struct [of _ ts d]
    by (intro exI [of _ "TStruct '''' ts"]) (auto simp: list_all_iff)
qed

lemma valid_sound:
  "(\<forall>rest. validSingle s d = Inr rest \<longrightarrow> (\<exists>t. wireType t \<and> nesting t + d \<le> 64 \<and> s = sigString t @ rest)) \<and>
   (validAll s d = Inr () \<longrightarrow> (\<exists>ts. list_all (\<lambda>t. wireType t \<and> nesting t + d \<le> 64) ts \<and> s = concat (map sigString ts)))"
proof (induction "length s" arbitrary: s d rule: less_induct)
  case less
  have single: "\<exists>t. wireType t \<and> nesting t + d \<le> 64 \<and> s = sigString t @ rest" if "validSingle s d = Inr rest" for rest
    by (rule valid_sound_step [OF _ _ that]) (use less.hyps in blast)+
  have "\<exists>ts. list_all (\<lambda>t. wireType t \<and> nesting t + d \<le> 64) ts \<and> s = concat (map sigString ts)"
    if all: "validAll s d = Inr ()"
  proof (cases "s = []")
    case False
    then obtain rem where r: "validSingle s d = Inr rem" "length rem < length s" "validAll rem d = Inr ()"
      using all by (subst (asm) validAll.simps) (auto split: sum.splits if_splits)
    obtain t where t: "wireType t" "nesting t + d \<le> 64" "s = sigString t @ rem" using single [OF r(1)] by blast
    obtain ts where "list_all (\<lambda>t. wireType t \<and> nesting t + d \<le> 64) ts" "rem = concat (map sigString ts)"
      using less.hyps [OF r(2)] r(3) by blast
    then show ?thesis using t by (intro exI [of _ "t # ts"]) simp
  qed (intro exI [of _ "[]"], simp)
  then show ?case using single by blast
qed

lemma validSingle_sound:
  "validSingle s d = Inr rest \<Longrightarrow> \<exists>t. wireType t \<and> nesting t + d \<le> 64 \<and> s = sigString t @ rest"
  using valid_sound by blast

text \<open>The loop without the test on the lengths.\<close>

lemma validAll_loop:
  "validAll s depth = (if s = '''' then Inr () else (case validSingle s depth of Inl e \<Rightarrow> Inl e | Inr rem \<Rightarrow> validAll rem depth))"
  using validSingle_sound [of s depth] by (subst validAll.simps) (fastforce split: sum.split)

section \<open>Every signature of the grammar is accepted\<close>

lemma validSingle_basic: "basicType t \<Longrightarrow> d \<le> 64 \<Longrightarrow> validSingle (sigString t @ rest) d = Inr rest"
  by (cases t) (simp_all add: validSingle.simps)

lemma sigString_no_brace: "sigString t ! 0 \<noteq> CHR ''{''"
  by (cases t) simp_all

lemma validSingle_complete:
  "wireType t \<Longrightarrow> nesting t + d \<le> 64 \<Longrightarrow> validSingle (sigString t @ rest) d = Inr rest"
proof (induction t arbitrary: d rest)
  case (TSlice t)
  then show ?case
    using validSingle_slice [of "sigString (TSlice t) @ rest" "sigString t @ rest" d] sigString_no_brace [of t]
    by (simp add: nth_append)
next
  case (TMap k v)
  then have "basicType k" "length (sigString k) = 1" by auto
  then have "take 1 (sigString k @ sigString v) = sigString k" "drop 1 (sigString k @ sigString v) = sigString v" by auto
  moreover have "validSingle (sigString k) (d + 1) = Inr ''''" "validSingle (sigString v) (d + 1) = Inr ''''"
    using validSingle_basic [of k "d + 1" "''''"] TMap.IH(2) [of "d + 1" "''''"] TMap.prems \<open>basicType k\<close> by simp_all
  ultimately show ?case
    using validSingle_dict [of "sigString (TMap k v) @ rest" "sigString k @ sigString v" rest d]
      findMatching_dict [of k v rest] TMap.prems by simp
next
  case (TStruct n ts)
  have "validAll (concat (map sigString us)) (Suc d) = Inr ()" if "set us \<subseteq> set ts" for us
    using that
  proof (induction us)
    case (Cons u us)
    then show ?case using TStruct.IH [of u "Suc d"] TStruct.prems nesting_struct [of n ts d]
      by (subst validAll_loop) (auto simp: list_all_iff)
  qed (simp add: validAll.simps)
  then show ?case
    using validSingle_struct [of "sigString (TStruct n ts) @ rest" "concat (map sigString ts)" rest d]
      findMatching_struct [of ts rest] TStruct.prems nesting_struct [of n ts d] by simp
qed (simp_all add: validSingle.simps)


text \<open>The Go type that \<open>typeFor\<close> gives to values of a type: structs become slices of \<open>interface{}\<close>.\<close>

fun decodedType :: "dtype \<Rightarrow> dtype" where
  "decodedType (TSlice t) = TSlice (decodedType t)"
| "decodedType (TMap k v) = TMap k (decodedType v)"
| "decodedType (TStruct n ts) = interfacesType"
| "decodedType t = t"

lemma sigToType_basic: "basicType t \<Longrightarrow> sigToType (sigString t ! 0) = Some t \<and> length (sigString t) = 1"
  by (cases t) (simp_all add: sigToType_def)

lemma lastIndex_snoc: "lastIndex c (s @ [c]) = Some (length s)"
  by (simp add: lastIndex_def)

lemma typeFor_sigString: "wireType t \<Longrightarrow> nesting t \<le> 64 \<Longrightarrow> typeFor (sigString t) = Inr (decodedType t)"
proof (induction t)
  case (TSlice t)
  then have "validSingle (sigString (TSlice t)) 0 = Inr ''''"
    using validSingle_complete [of "TSlice t" 0 "''''"] by simp
  then show ?case using TSlice sigString_no_brace [of t]
    by (subst typeFor.simps) (simp add: sigToType_def)
next
  case (TMap k v)
  then have k: "basicType k" by simp
  then obtain c where c: "sigString k = [c]" "sigToType c = Some k"
    using sigToType_basic [of k] by (cases "sigString k") auto
  have "validSingle (sigString (TMap k v)) 0 = Inr ''''"
    using validSingle_complete [of "TMap k v" 0 "''''"] TMap.prems by simp
  moreover have "lastIndex (CHR ''}'') (sigString (TMap k v)) = Some (3 + length (sigString v))"
    using lastIndex_snoc [of "CHR ''}''" "''a{'' @ sigString k @ sigString v"] c by simp
  ultimately show ?case using TMap c by (subst typeFor.simps) (simp add: sigToType_def)
next
  case (TStruct n ts)
  then show ?case using validSingle_complete [of "TStruct n ts" 0 "''''"]
    by (subst typeFor.simps) (simp add: sigToType_def)
qed (simp_all add: typeFor.simps validSingle.simps sigToType_def)

lemma ParseSignature_Ok_iff:
  "ParseSignature s = Inr s' \<longleftrightarrow> s' = s \<and> length s \<le> 255 \<and>
     (\<exists>ts. list_all (\<lambda>t. wireType t \<and> nesting t \<le> 64) ts \<and> s = concat (map sigString ts))"
proof -
  have complete: "validAll (concat (map sigString ts)) 0 = Inr ()" if "list_all (\<lambda>t. wireType t \<and> nesting t \<le> 64) ts" for ts
    using that
  proof (induction ts)
    case (Cons t ts)
    then show ?case using validSingle_complete [of t 0] by (subst validAll_loop) simp
  qed (simp add: validAll.simps)
  have "validAll s 0 = Inr () \<longleftrightarrow> (\<exists>ts. list_all (\<lambda>t. wireType t \<and> nesting t \<le> 64) ts \<and> s = concat (map sigString ts))"
    using valid_sound [of s 0] complete by auto
  then show ?thesis by (cases "s = ''''") (auto simp: ParseSignature_def validAll.simps [of "''''"] split: sum.splits)
qed

text \<open>The type of the grammar behind a Go type: pointers are followed, descriptors are sent as their index.\<close>

fun wireOf :: "dtype \<Rightarrow> dtype" where
  "wireOf (TPtr t) = wireOf t"
| "wireOf TUnixFD = TUnixFDIndex"
| "wireOf (TSlice t) = TSlice (wireOf t)"
| "wireOf (TMap k v) = TMap (wireOf k) (wireOf v)"
| "wireOf (TStruct n ts) = TStruct n (map wireOf ts)"
| "wireOf t = t"

lemma getSignature_wireOf: "getSignature t = Ok s \<Longrightarrow> wireType (wireOf t) \<and> s = sigString (wireOf t)"
proof (induction t arbitrary: s)
  case (TStruct n ts)
  have "list_all wireType (map wireOf us) \<and> concat ss = concat (map sigString (map wireOf us))"
    if "traverse_go getSignature us = Ok ss" "set us \<subseteq> set ts" for us ss
    using that
  proof (induction us arbitrary: ss)
    case (Cons u us)
    then show ?case using TStruct.IH [of u] by (auto simp: bind_go_Ok_iff)
  qed simp
  then show ?case using TStruct.prems by (auto simp: bind_go_Ok_iff)
next
  case (TMap k v)
  then show ?case by (auto simp: bind_go_Ok_iff split: if_splits)
qed (auto simp: bind_go_Ok_iff)

section \<open>Properties\<close>

text \<open>C37. ParseSignature accepts exactly the strings of at most 255 characters that are signatures of
  types with at most 64 nested containers; it returns them unchanged, and typeFor gives back the type
  (structs as slices of interfaces). In particular it accepts what SignatureOf returns, when it is not
  too long or too deep.\<close>

theorem ParseSignature_grammar:
  "(ParseSignature s = Inr s' \<longleftrightarrow> s' = s \<and> length s \<le> 255 \<and>
     (\<exists>ts. list_all (\<lambda>t. wireType t \<and> nesting t \<le> 64) ts \<and> s = concat (map sigString ts))) \<and>
   (wireType t \<and> nesting t \<le> 64 \<longrightarrow> typeFor (sigString t) = Inr (decodedType t)) \<and>
   (SignatureOf us = Ok u \<and> length u \<le> 255 \<and> list_all (\<lambda>t. nesting (wireOf t) \<le> 64) us \<longrightarrow> ParseSignature u = Inr u)"
proof -
  have "\<exists>ts. list_all (\<lambda>t. wireType t \<and> nesting t \<le> 64) ts \<and> concat ss = concat (map sigString ts)"
    if "traverse_go getSignature us = Ok ss" "list_all (\<lambda>t. nesting (wireOf t) \<le> 64) us" for ss
    using that
  proof (induction us arbitrary: ss)
    case (Cons x us)
    then obtain s0 ss0 where x: "getSignature x = Ok s0" "traverse_go getSignature us = Ok ss0" "ss = s0 # ss0"
      by (auto simp: bind_go_Ok_iff)
    then obtain ts where "list_all (\<lambda>t. wireType t \<and> nesting t \<le> 64) ts" "concat ss0 = concat (map sigString ts)"
      using Cons by auto
    then show ?case using getSignature_wireOf [OF x(1)] x(3) Cons.prems(2)
      by (intro exI [of _ "wireOf x # ts"]) simp
  qed (intro exI [of _ "[]"], simp)
  then have "ParseSignature u = Inr u"
    if "SignatureOf us = Ok u" "length u \<le> 255" "list_all (\<lambda>t. nesting (wireOf t) \<le> 64) us"
    using that by (auto simp: ParseSignature_Ok_iff SignatureOf_def bind_go_Ok_iff)
  then show ?thesis using typeFor_sigString by (intro conjI impI ParseSignature_Ok_iff) blast+
qed

theorem ParseSignature_grammar_witness:
  "ParseSignature ''a{sv}as'' = Inr ''a{sv}as'' \<and> typeFor ''a(is)'' = Inr (TSlice interfacesType) \<and>
   SignatureOf [TString, TSlice TString] = Ok ''sas'' \<and> ParseSignature ''sas'' = Inr ''sas''"
proof -
  have "list_all (\<lambda>t. wireType t \<and> nesting t \<le> 64) [TMap TString TVariant, TSlice TString] \<and>
      ''a{sv}as'' = concat (map sigString [TMap TString TVariant, TSlice TString])" by simp
  moreover have "length ''a{sv}as'' \<le> 255" by simp
  ultimately have "ParseSignature ''a{sv}as'' = Inr ''a{sv}as''"
    using ParseSignature_grammar [of "''a{sv}as''" "''a{sv}as''"] by blast
  moreover have "typeFor ''a(is)'' = Inr (TSlice interfacesType)"
    using ParseSignature_grammar [of "''''" "''''" "TSlice (TStruct '''' [TInt32, TString])"] by simp
  moreover have s: "SignatureOf [TString, TSlice TString] = Ok ''sas''" by (simp add: SignatureOf_def)
  moreover have "ParseSignature ''sas'' = Inr ''sas''"
    using ParseSignature_grammar [of "''''" "''''" TByte "[TString, TSlice TString]" "''sas''"] s by simp
  ultimately show ?thesis by blast
qed

text \<open>\<open>Single\<close> answers the opposite of its comment, and a dictionary without types stops the caller.\<close>

lemma Single_inverted: "Single s = Ok True \<Longrightarrow> \<forall>rest. validSingle s 0 \<noteq> Inr rest"
  by (auto simp: Single_def)

lemma ParseSignature_panics: "ParseSignature ''a{}'' = Inl (RuntimeError IndexOutOfRange)"
  by code_simp

end
