(* ===== verification/Dbus_Wire.thy ===== *)
theory Dbus_Wire
  imports Dbus_Signature Go_Bytes
begin

text \<open>
  The wire format of D-Bus, \<open>godbus/dbus/encoder.go\<close> and \<open>decoder.go\<close>.

  A Go value that is passed to the encoder or built by the decoder is a \<open>dval\<close>; \<open>DIface\<close> is an element
  of a slice of \<open>interface{}\<close>. A \<open>float64\<close> is its bits. A map is the list of its entries in the order of \<open>MapKeys\<close>. Interfaces and the value
  of a variant are not nil, a pointer may be. Memory is not bounded: the buffers that the decoder makes for a length it has read always exist.

  An encoder is the position of its next byte; a call gives the bytes written and the error it panics with,
  if it does. It writes into a buffer, where no write fails. A decoder is the bytes that are left
  and the position. All alignments are powers of two, so rounding up by a bit mask is rounding by division.
\<close>

section \<open>Values\<close>

datatype dval =
    DByte "8 word" | DBool bool | DInt16 "16 word" | DUint16 "16 word" | DInt32 "32 word" | DUint32 "32 word"
  | DInt64 "64 word" | DUint64 "64 word" | DFloat64 "64 word" | DString string | DSignature string
  | DObjectPath string | DVariant string dval | DUnixFDIndex "32 word" | DUnixFD "32 word"
  | DIface dval | DOther string | DPtr dtype "dval option" | DSlice dtype "dval list"
  | DMap dtype dtype "(dval \<times> dval) list" | DStruct string "dval list"

fun typeOf :: "dval \<Rightarrow> dtype" where
  "typeOf (DByte _) = TByte"
| "typeOf (DBool _) = TBool"
| "typeOf (DInt16 _) = TInt16"
| "typeOf (DUint16 _) = TUint16"
| "typeOf (DInt32 _) = TInt32"
| "typeOf (DUint32 _) = TUint32"
| "typeOf (DInt64 _) = TInt64"
| "typeOf (DUint64 _) = TUint64"
| "typeOf (DFloat64 _) = TFloat64"
| "typeOf (DString _) = TString"
| "typeOf (DSignature _) = TSignature"
| "typeOf (DObjectPath _) = TObjectPath"
| "typeOf (DVariant _ _) = TVariant"
| "typeOf (DUnixFDIndex _) = TUnixFDIndex"
| "typeOf (DUnixFD _) = TUnixFD"
| "typeOf (DIface _) = TInterface"
| "typeOf (DOther n) = TOther n"
| "typeOf (DPtr t _) = TPtr t"
| "typeOf (DSlice e _) = TSlice e"
| "typeOf (DMap k v _) = TMap k v"
| "typeOf (DStruct n vs) = TStruct n (map typeOf vs)"

text \<open>A key that is not equal to itself, which no lookup finds.\<close>

definition isNaN :: "64 word \<Rightarrow> bool" where
  "isNaN w \<longleftrightarrow> take_bit 11 (drop_bit 52 w) = 0x7ff \<and> take_bit 52 w \<noteq> 0"

fun nanKey :: "dval \<Rightarrow> bool" where
  "nanKey (DFloat64 w) \<longleftrightarrow> isNaN w"
| "nanKey _ \<longleftrightarrow> False"

fun keyEq :: "dval \<Rightarrow> dval \<Rightarrow> bool" where
  "keyEq (DFloat64 a) (DFloat64 b) \<longleftrightarrow> \<not> isNaN a \<and> (a = b \<or> take_bit 63 a = 0 \<and> take_bit 63 b = 0)"
| "keyEq a b \<longleftrightarrow> a = b"

definition setMapIndex :: "dval \<Rightarrow> dval \<Rightarrow> (dval \<times> dval) list \<Rightarrow> (dval \<times> dval) list" where
  "setMapIndex k v m = (if \<exists>e \<in> set m. keyEq k (fst e) then map (\<lambda>e. if keyEq k (fst e) then (k, v) else e) m else m @ [(k, v)])"

section \<open>The encoder\<close>

type_synonym enc = "nat \<Rightarrow> bytes \<times> dbus_error option"

definition emitE :: "bytes \<Rightarrow> enc" where
  "emitE bs pos = (bs, None)"

definition raiseE :: "dbus_error \<Rightarrow> enc" where
  "raiseE e pos = ([], Some e)"

definition seqE :: "enc \<Rightarrow> enc \<Rightarrow> enc" where
  "seqE a b pos = (case a pos of (bs, Some e) \<Rightarrow> (bs, Some e)
     | (bs, None) \<Rightarrow> (case b (pos + length bs) of (bs', e) \<Rightarrow> (bs @ bs', e)))"

definition padding :: "nat \<Rightarrow> nat \<Rightarrow> nat \<Rightarrow> nat" where
  "padding pos offset algn = (let abs = pos + offset in
     if abs mod algn \<noteq> 0 then (abs + algn - 1) div algn * algn - abs else 0)"

definition alignE :: "nat \<Rightarrow> enc" where
  "alignE n pos = emitE (replicate (padding pos 0 n) 0) pos"

definition encUint32 :: "bool \<Rightarrow> 32 word \<Rightarrow> enc" where
  "encUint32 be w = seqE (alignE (alignment TUint32)) (emitE (put32 be w))"

definition encString :: "bool \<Rightarrow> string \<Rightarrow> enc" where
  "encString be s = seqE (encUint32 be (of_nat (length s))) (emitE (stringBytes s @ [0]))"

definition encSignature :: "string \<Rightarrow> enc" where
  "encSignature s = seqE (alignE (alignment TSignature)) (seqE (emitE [of_nat (length s)]) (emitE (stringBytes s @ [0])))"

text \<open>The contents of a slice or a map go to a buffer of their own, whose length is written first.\<close>

definition encCounted :: "bool \<Rightarrow> nat \<Rightarrow> enc \<Rightarrow> enc" where
  "encCounted be algn contents pos =
     (let n = padding pos 0 4 + 4; offset = pos + n + padding pos n algn in
      case contents offset of
        (_, Some e) \<Rightarrow> raiseE e pos
      | (buf, None) \<Rightarrow> seqE (encUint32 be (of_nat (length buf))) (seqE (alignE algn) (emitE buf)) pos)"

definition tooDeep :: dbus_error where
  "tooDeep = FormatError ''input exceeds container depth limit''"

function (sequential) enc_encode :: "bool \<Rightarrow> nat \<Rightarrow> dval \<Rightarrow> enc"
  and enc_values :: "bool \<Rightarrow> nat \<Rightarrow> dval list \<Rightarrow> enc"
  and enc_entries :: "bool \<Rightarrow> nat \<Rightarrow> (dval \<times> dval) list \<Rightarrow> enc" where
  "enc_encode be depth (DByte b) = seqE (alignE (alignment TByte)) (emitE [b])"
| "enc_encode be depth (DBool b) = seqE (alignE (alignment TBool)) (encUint32 be (if b then 1 else 0))"
| "enc_encode be depth (DInt16 w) = seqE (alignE (alignment TInt16)) (emitE (put16 be w))"
| "enc_encode be depth (DUint16 w) = seqE (alignE (alignment TUint16)) (emitE (put16 be w))"
| "enc_encode be depth (DInt32 w) = seqE (alignE (alignment TInt32)) (emitE (put32 be w))"
| "enc_encode be depth (DUnixFD w) = seqE (alignE (alignment TUnixFD)) (emitE (put32 be w))"
| "enc_encode be depth (DUint32 w) = encUint32 be w"
| "enc_encode be depth (DUnixFDIndex w) = seqE (alignE (alignment TUnixFDIndex)) (emitE (put32 be w))"
| "enc_encode be depth (DInt64 w) = seqE (alignE (alignment TInt64)) (emitE (put64 be w))"
| "enc_encode be depth (DUint64 w) = seqE (alignE (alignment TUint64)) (emitE (put64 be w))"
| "enc_encode be depth (DFloat64 w) = seqE (alignE (alignment TFloat64)) (emitE (put64 be w))"
| "enc_encode be depth (DString s) = seqE (alignE (alignment TString)) (encString be s)"
| "enc_encode be depth (DObjectPath s) = seqE (alignE (alignment TObjectPath)) (encString be s)"
| "enc_encode be depth (DPtr t (Some v)) = seqE (alignE (alignment (TPtr t))) (enc_encode be depth v)"
| "enc_encode be depth (DPtr t None) = seqE (alignE (alignment (TPtr t))) (raiseE (RuntimeError NilDereference))"
| "enc_encode be depth (DSlice e vs) = seqE (alignE (alignment (TSlice e)))
     (if depth \<ge> 64 then raiseE tooDeep else encCounted be (alignment e) (enc_values be (depth + 1) vs))"
| "enc_encode be depth (DSignature s) = encSignature s"
| "enc_encode be depth (DVariant sg v) = seqE (alignE (alignment TVariant))
     (if depth \<ge> 64 then raiseE tooDeep else seqE (encSignature sg) (enc_encode be (depth + 1) v))"
| "enc_encode be depth (DStruct n vs) = seqE (alignE (alignment (TStruct n (map typeOf vs))))
     (if depth \<ge> 64 then raiseE tooDeep else enc_values be (depth + 1) vs)"
| "enc_encode be depth (DMap k v es) = seqE (alignE (alignment (TMap k v)))
     (if depth \<ge> 63 then raiseE tooDeep
      else if \<not> isKeyType k then raiseE (InvalidTypeError (TMap k v))
      else encCounted be 8 (enc_entries be (depth + 2) es))"
| "enc_encode be depth (DIface v) = seqE (alignE (alignment TInterface)) (raiseE (InvalidTypeError TInterface))"
| "enc_encode be depth (DOther n) = seqE (alignE (alignment (TOther n))) (raiseE (InvalidTypeError (TOther n)))"
| "enc_values be depth [] = emitE []"
| "enc_values be depth (v # vs) = seqE (enc_encode be depth v) (enc_values be depth vs)"
| "enc_entries be depth [] = emitE []"
| "enc_entries be depth ((k, v) # es) = seqE (alignE 8) (seqE (enc_encode be depth k)
     (seqE (if nanKey k then raiseE (RuntimeError NilDereference) else enc_encode be depth v) (enc_entries be depth es)))"
  by pat_completeness auto
termination
  by (relation "measure (\<lambda>x. case x of Inl (_, _, v) \<Rightarrow> size v
    | Inr (Inl (_, _, vs)) \<Rightarrow> size_list size vs | Inr (Inr (_, _, es)) \<Rightarrow> size_list (size_prod size size) es)") auto

text \<open>\<open>Encode\<close> recovers the panic; what was written before it stays in the buffer.\<close>

definition Encode :: "bool \<Rightarrow> dval list \<Rightarrow> enc" where
  "Encode be vs = enc_values be 0 vs"

section \<open>The decoder\<close>

type_synonym dst = "bytes \<times> nat"

abbreviation errEOF :: dbus_error where
  "errEOF \<equiv> DbusErr (ErrNew ''EOF'')"

abbreviation errUnexpectedEOF :: dbus_error where
  "errUnexpectedEOF \<equiv> DbusErr (ErrNew ''unexpected EOF'')"

definition readFull :: "nat \<Rightarrow> bytes \<Rightarrow> dbus_error + bytes \<times> bytes" where
  "readFull n bs = (if n \<le> length bs then Inr (take n bs, drop n bs)
     else if bs = [] then Inl errEOF else Inl errUnexpectedEOF)"

text \<open>A read that succeeds moves the position on.\<close>

definition readD :: "nat \<Rightarrow> dst \<Rightarrow> dbus_error + bytes \<times> dst" where
  "readD n st = (case readFull n (fst st) of Inl e \<Rightarrow> Inl e | Inr (bs, rest) \<Rightarrow> Inr (bs, rest, snd st + n))"

definition alignD :: "nat \<Rightarrow> dst \<Rightarrow> dbus_error + dst" where
  "alignD n st = (if snd st mod n \<noteq> 0
     then (case readD ((snd st + n - 1) div n * n - snd st) st of Inl e \<Rightarrow> Inl e | Inr (_, st') \<Rightarrow> Inr st')
     else Inr st)"

definition bindD :: "dbus_error + 'a \<Rightarrow> ('a \<Rightarrow> dbus_error + 'b) \<Rightarrow> dbus_error + 'b" where
  "bindD r f = (case r of Inl e \<Rightarrow> Inl e | Inr a \<Rightarrow> f a)"

definition decByte :: "dst \<Rightarrow> dbus_error + 8 word \<times> dst" where
  "decByte st = bindD (alignD (alignment TByte) st) (\<lambda>st.
     bindD (readD 1 st) (\<lambda>(bs, st). Inr (hd bs, st)))"

definition decWord :: "dtype \<Rightarrow> nat \<Rightarrow> bool \<Rightarrow> dst \<Rightarrow> dbus_error + 'a::len word \<times> dst" where
  "decWord t n be st = bindD (alignD (alignment t) st) (\<lambda>st.
     bindD (readD n st) (\<lambda>(bs, st). Inr (getNative be bs, st)))"

definition decUint32 :: "bool \<Rightarrow> dst \<Rightarrow> dbus_error + 32 word \<times> dst" where
  "decUint32 be st = decWord TUint32 4 be st"

text \<open>The bytes of a string, without the last one.\<close>

definition decChars :: "nat \<Rightarrow> dst \<Rightarrow> dbus_error + string \<times> dst" where
  "decChars n st = bindD (readD (n + 1) st) (\<lambda>(bs, st). Inr (bytesString (butlast bs), st))"

definition decString :: "bool \<Rightarrow> dst \<Rightarrow> dbus_error + string \<times> dst" where
  "decString be st = bindD (alignD (alignment TString) st) (\<lambda>st.
     bindD (decUint32 be st) (\<lambda>(len, st). decChars (unat len) st))"

definition decSignature :: "dst \<Rightarrow> dbus_error + string \<times> dst" where
  "decSignature st = bindD (alignD (alignment TSignature) st) (\<lambda>st.
     bindD (decByte st) (\<lambda>(len, st).
     bindD (decChars (unat len) st) (\<lambda>(s, st).
     bindD (ParseSignature s) (\<lambda>sg. Inr (sg, st)))))"

definition mapD :: "('a \<Rightarrow> 'b) \<Rightarrow> dbus_error + 'a \<times> dst \<Rightarrow> dbus_error + 'b \<times> dst" where
  "mapD f r = bindD r (\<lambda>(a, st). Inr (f a, st))"


text \<open>\<open>decode\<close> on the types that are not containers; \<open>None\<close> for a container.\<close>

definition decBasic :: "bool \<Rightarrow> dtype \<Rightarrow> dst \<Rightarrow> (dbus_error + dval \<times> dst) option" where
  "decBasic be t st = (case t of
       TByte \<Rightarrow> Some (mapD DByte (decByte st))
     | TBool \<Rightarrow> Some (bindD (decUint32 be st) (\<lambda>(i, st).
         if i = 0 then Inr (DBool False, st) else if i = 1 then Inr (DBool True, st)
         else Inl (FormatError ''invalid value for boolean'')))
     | TInt16 \<Rightarrow> Some (mapD DInt16 (decWord TInt16 2 be st))
     | TInt32 \<Rightarrow> Some (mapD DInt32 (decWord TInt32 4 be st))
     | TInt64 \<Rightarrow> Some (mapD DInt64 (decWord TInt64 8 be st))
     | TUint16 \<Rightarrow> Some (mapD DUint16 (decWord TUint16 2 be st))
     | TUint32 \<Rightarrow> Some (mapD DUint32 (decUint32 be st))
     | TUint64 \<Rightarrow> Some (mapD DUint64 (decWord TUint64 8 be st))
     | TFloat64 \<Rightarrow> Some (mapD DFloat64 (decWord TFloat64 8 be st))
     | TString \<Rightarrow> Some (mapD DString (decString be st))
     | TObjectPath \<Rightarrow> Some (mapD DObjectPath (decString be st))
     | TSignature \<Rightarrow> Some (mapD DSignature (decSignature st))
     | TUnixFDIndex \<Rightarrow> Some (mapD DUnixFDIndex (decUint32 be st))
     | _ \<Rightarrow> None)"

text \<open>The signature of the value of a variant.\<close>

definition decVariantSig :: "dst \<Rightarrow> dbus_error + string \<times> dst" where
  "decVariantSig st = bindD (decSignature st) (\<lambda>(sg, st).
     if length sg = 0 then Inl (FormatError ''variant signature is empty'')
     else bindD (validSingle sg 0) (\<lambda>rem.
       if rem \<noteq> '''' then Inl (FormatError ''variant signature has multiple types'') else Inr (sg, st)))"

text \<open>The length of an array and the padding after it: where its contents end.\<close>

definition decCounted :: "bool \<Rightarrow> nat \<Rightarrow> dst \<Rightarrow> dbus_error + nat \<times> dst" where
  "decCounted be algn st = bindD (decUint32 be st) (\<lambda>(len, st).
     bindD (alignD algn st) (\<lambda>st. Inr (snd st + unat len, st)))"

text \<open>
  The recursion of \<open>decode\<close> and of its three loops. \<open>DecElems\<close>, \<open>DecEntries\<close> and \<open>DecFields\<close> are the loops
  over the elements of an array, the entries of a map and the fields of a struct, with the position where the loop
  ends, or the rest of the signature, and what was decoded so far. \<open>None\<close> is a loop that does not end.
\<close>

datatype dtask =
    DecSingle string nat
  | DecElems dtype string nat nat "dval list"
  | DecEntries dtype dtype string string nat nat "(dval \<times> dval) list"
  | DecFields string nat "dval list"

abbreviation thenD :: "(dbus_error + 'a) option \<Rightarrow> ('a \<Rightarrow> (dbus_error + 'b) option) \<Rightarrow> (dbus_error + 'b) option" where
  "thenD r f \<equiv> Option.bind r (\<lambda>x. case x of Inl e \<Rightarrow> Some (Inl e) | Inr a \<Rightarrow> f a)"

partial_function (option) dec_decode :: "bool \<Rightarrow> dtask \<Rightarrow> dst \<Rightarrow> (dbus_error + dval \<times> dst) option" where
  "dec_decode be task st = (case task of
     DecSingle s depth \<Rightarrow>
       thenD (Some (typeFor s)) (\<lambda>t. thenD (Some (alignD (alignment t) st)) (\<lambda>st.
         (case decBasic be t st of Some r \<Rightarrow> Some r
          | None \<Rightarrow>
            (if t = TVariant then
               (if depth \<ge> 64 then Some (Inl tooDeep)
                else thenD (Some (decVariantSig st)) (\<lambda>(sg, st).
                  thenD (dec_decode be (DecSingle sg (depth + 1)) st) (\<lambda>(v, st). Some (Inr (DVariant sg v, st)))))
             else if s ! 0 = CHR ''a'' \<and> length s > 1 \<and> s ! 1 = CHR ''{'' then
               (let ksig = take 1 (drop 2 s); vsig = butlast (drop 3 s) in
                thenD (Some (typeFor ksig)) (\<lambda>kt. thenD (Some (typeFor vsig)) (\<lambda>vt.
                  if depth \<ge> 63 then Some (Inl tooDeep)
                  else thenD (Some (decCounted be 8 st)) (\<lambda>(stop, st).
                    dec_decode be (DecEntries kt vt ksig vsig (depth + 2) stop []) st))))
             else if s ! 0 = CHR ''a'' then
               (if depth \<ge> 64 then Some (Inl tooDeep)
                else thenD (Some (typeFor (drop 1 s))) (\<lambda>et.
                  thenD (Some (decCounted be (alignment et) st)) (\<lambda>(stop, st).
                    dec_decode be (DecElems et (drop 1 s) (depth + 1) stop []) st)))
             else
               (if depth \<ge> 64 then Some (Inl tooDeep)
                else thenD (Some (alignD 8 st)) (\<lambda>st.
                  dec_decode be (DecFields (butlast (drop 1 s)) (depth + 1) []) st))))))
   | DecElems et s depth stop vs \<Rightarrow>
       (if snd st < stop then
          thenD (dec_decode be (DecSingle s depth) st) (\<lambda>(v, st). dec_decode be (DecElems et s depth stop (vs @ [v])) st)
        else Some (Inr (DSlice et vs, st)))
   | DecEntries kt vt ksig vsig depth stop m \<Rightarrow>
       (if snd st < stop then
          thenD (Some (alignD 8 st)) (\<lambda>st.
            if \<not> isKeyType kt then Some (Inl (InvalidTypeError (TMap kt vt)))
            else thenD (dec_decode be (DecSingle ksig depth) st) (\<lambda>(kv, st).
              thenD (dec_decode be (DecSingle vsig depth) st) (\<lambda>(vv, st).
                dec_decode be (DecEntries kt vt ksig vsig depth stop (setMapIndex kv vv m)) st)))
        else Some (Inr (DMap kt vt m, st)))
   | DecFields s depth vs \<Rightarrow>
       (if s \<noteq> '''' then
          thenD (Some (validSingle s 0)) (\<lambda>rem.
            thenD (dec_decode be (DecSingle (take (length s - length rem) s) depth) st) (\<lambda>(v, st).
              dec_decode be (DecFields rem depth (vs @ [v])) st))
        else Some (Inr (DSlice TInterface (map DIface vs), st))))"

declare dec_decode.simps [code]

text \<open>
  The loop of \<open>Decode\<close>. An error of \<open>validSingle\<close> that it returns is lost: the deferred function sets
  \<open>err\<close> to what \<open>recover\<close> gives, which is nil when nothing panicked. Then the result is nil without an error.
\<close>

partial_function (option) decLoop :: "bool \<Rightarrow> string \<Rightarrow> dval list \<Rightarrow> dst \<Rightarrow> (dbus_error + dval list \<times> dst) option" where
  "decLoop be s vs st =
     (if s \<noteq> '''' then
        (case validSingle s 0 of
           Inl (RuntimeError p) \<Rightarrow> Some (Inl (RuntimeError p))
         | Inl e \<Rightarrow> Some (Inr ([], st))
         | Inr rem \<Rightarrow>
             thenD (dec_decode be (DecSingle (take (length s - length rem) s) 0) st) (\<lambda>(v, st).
               decLoop be rem (vs @ [v]) st))
      else Some (Inr (vs, st)))"

declare decLoop.simps [code]

definition Decode :: "bool \<Rightarrow> string \<Rightarrow> dst \<Rightarrow> (dbus_error + dval list \<times> dst) option" where
  "Decode be sg st = map_option (\<lambda>r. case r of
       Inl e \<Rightarrow> Inl (if e = errEOF \<or> e = errUnexpectedEOF then FormatError ''unexpected EOF'' else e)
     | Inr x \<Rightarrow> Inr x) (decLoop be sg [] st)"


section \<open>What is decoded again\<close>

text \<open>
  The values that the format can carry (\<open>wfVal\<close>), and what the decoder makes of them (\<open>decoded\<close>): pointers are
  followed, descriptors become indices, and structs become slices of interfaces.
\<close>

fun wfVal :: "dval \<Rightarrow> bool" where
  "wfVal (DSignature s) \<longleftrightarrow> ParseSignature s = Inr s"
| "wfVal (DVariant sg v) \<longleftrightarrow> getSignature (typeOf v) = Ok sg \<and> length sg \<le> 255 \<and> nesting (wireOf (typeOf v)) \<le> 64 \<and> wfVal v"
| "wfVal (DPtr t (Some v)) \<longleftrightarrow> typeOf v = t \<and> wfVal v"
| "wfVal (DPtr t None) \<longleftrightarrow> False"
| "wfVal (DIface v) \<longleftrightarrow> False"
| "wfVal (DOther n) \<longleftrightarrow> False"
| "wfVal (DSlice e vs) \<longleftrightarrow> (\<forall>v \<in> set vs. typeOf v = e \<and> wfVal v)"
| "wfVal (DStruct n vs) \<longleftrightarrow> vs \<noteq> [] \<and> (\<forall>v \<in> set vs. wfVal v)"
| "wfVal (DMap k v es) \<longleftrightarrow> sorted_wrt (\<lambda>x y. \<not> keyEq (fst y) (fst x)) es \<and>
     (\<forall>e \<in> set es. typeOf (fst e) = k \<and> typeOf (snd e) = v \<and> wfVal (fst e) \<and> wfVal (snd e))"
| "wfVal v \<longleftrightarrow> True"

fun decoded :: "dval \<Rightarrow> dval" where
  "decoded (DVariant sg v) = DVariant sg (decoded v)"
| "decoded (DPtr t (Some v)) = decoded v"
| "decoded (DUnixFD w) = DUnixFDIndex w"
| "decoded (DSlice e vs) = DSlice (decodedType (wireOf e)) (map decoded vs)"
| "decoded (DMap k v es) = DMap (wireOf k) (decodedType (wireOf v)) (map (\<lambda>e. (decoded (fst e), decoded (snd e))) es)"
| "decoded (DStruct n vs) = DSlice TInterface (map (\<lambda>v. DIface (decoded v)) vs)"
| "decoded v = v"

lemma seqE_Ok: "seqE a b pos = (bs, None) \<longleftrightarrow>
    (\<exists>as cs. a pos = (as, None) \<and> b (pos + length as) = (cs, None) \<and> bs = as @ cs)"
  by (auto simp: seqE_def split: prod.splits option.splits)

lemma alignE_Ok: "alignE n pos = (replicate (padding pos 0 n) 0, None)"
  by (simp add: alignE_def emitE_def)

lemma raiseE_Ok [simp]: "raiseE e pos \<noteq> (bs, None)"
  by (simp add: raiseE_def)

lemma emitE_Ok: "emitE as pos = (bs, e) \<longleftrightarrow> bs = as \<and> e = None"
  by (auto simp: emitE_def)

lemma padding_aligned: "n > 0 \<Longrightarrow> (pos + padding pos 0 n) mod n = 0"
proof -
  assume n: "n > 0"
  have "(pos + n - 1) div n * n + (pos + n - 1) mod n = pos + n - 1" by (rule div_mult_mod_eq)
  moreover have "(pos + n - 1) mod n < n" using n by simp
  ultimately have "(pos + n - 1) div n * n \<ge> pos" by linarith
  then show ?thesis by (auto simp: padding_def Let_def)
qed

lemma padding_zero [simp]: "(pos + offset) mod n = 0 \<Longrightarrow> padding pos offset n = 0"
  by (simp add: padding_def)

lemma padding_shift: "padding pos k n = padding (pos + k) 0 n"
  by (simp add: padding_def)

lemma readD_append: "length xs = n \<Longrightarrow> readD n (xs @ rest, pos) = Inr (xs, rest, pos + n)"
  by (simp add: readD_def readFull_def)

lemma alignD_padding:
  "length xs = padding pos 0 n \<Longrightarrow> alignD n (xs @ rest, pos) = Inr (rest, pos + padding pos 0 n)"
  by (auto simp: alignD_def readD_append padding_def Let_def)

lemma alignD_aligned [simp]: "pos mod n = 0 \<Longrightarrow> alignD n (bs, pos) = Inr (bs, pos)"
  by (simp add: alignD_def)

lemma bindD_simps [simp]: "bindD (Inl e) f = Inl e" "bindD (Inr a) f = f a"
  by (simp_all add: bindD_def)

lemma alignment_decodedType: "wireType t \<Longrightarrow> alignment (decodedType t) = alignment t"
proof (cases t)
  case (TSlice e)
  assume "wireType t"
  then have "e \<noteq> TInterface" "decodedType e \<noteq> TInterface" using TSlice by (cases e; auto)+
  then show ?thesis using TSlice by simp
qed auto

lemma alignment_wireOf: "wireType (wireOf t) \<Longrightarrow> alignment (wireOf t) = alignment t"
proof (induction t)
  case (TSlice e)
  then have "wireOf e \<noteq> TInterface" "e \<noteq> TInterface" by (cases e; auto)+
  then show ?case by simp
qed auto

lemma alignment_pos [simp]: "alignment t > 0"
  by (induction t) auto


subsection \<open>Numbers, strings and lengths\<close>

lemma decWord_read: "pos mod alignment t = 0 \<Longrightarrow> length xs = n \<Longrightarrow>
    decWord t n be (xs @ rest, pos) = Inr (getNative be xs, rest, pos + n)"
  by (simp add: decWord_def readD_append)

lemma encUint32_Ok: "encUint32 be w pos = (bs, e) \<longleftrightarrow> bs = replicate (padding pos 0 4) 0 @ put32 be w \<and> e = None"
  by (auto simp: encUint32_def seqE_def alignE_Ok emitE_def)

lemma decUint32_read: "decUint32 be (replicate (padding pos 0 4) 0 @ put32 be w @ rest, pos) =
    Inr (w, rest, pos + padding pos 0 4 + 4)"
  by (simp add: decUint32_def decWord_def alignD_padding readD_append)

lemma decUint32_aligned: "pos mod 4 = 0 \<Longrightarrow> decUint32 be (put32 be w @ rest, pos) = Inr (w, rest, pos + 4)"
  using decUint32_read [of be pos w rest] by simp

lemma decChars_read: "decChars (length s) (stringBytes s @ 0 # rest, pos) = Inr (s, rest, pos + length s + 1)"
  using readD_append [of "stringBytes s @ [0]" "length s + 1" rest pos]
  by (simp add: decChars_def stringBytes_def [of s] length_map) (simp add: stringBytes_def [symmetric])

lemma decString_read:
  assumes "encString be s pos = (bs, None)" "pos mod 4 = 0" "length bs < 2 ^ 32"
  shows "decString be (bs @ rest, pos) = Inr (s, rest, pos + length bs)"
proof -
  have bs: "bs = put32 be (of_nat (length s)) @ stringBytes s @ [0]"
    using assms(1,2) by (auto simp: encString_def seqE_Ok encUint32_Ok emitE_Ok)
  then have "length s < 2 ^ 32" using assms(3) by (simp add: stringBytes_def)
  then have "unat (of_nat (length s) :: 32 word) = length s" by (simp add: unat_of_nat take_bit_nat_eq_self)
  then show ?thesis
    using bs assms(2) decChars_read [of s rest "pos + 4"]
    by (simp add: decString_def decUint32_aligned stringBytes_def)
qed

lemma decSignature_read:
  assumes "encSignature s pos = (bs, None)" "ParseSignature s = Inr s"
  shows "decSignature (bs @ rest, pos) = Inr (s, rest, pos + length bs)"
proof -
  have len: "length s \<le> 255" using assms(2) by (simp add: ParseSignature_Ok_iff)
  then have "unat (of_nat (length s) :: 8 word) = length s" by (simp add: unat_of_nat take_bit_nat_eq_self)
  moreover have bs: "bs = of_nat (length s) # stringBytes s @ [0]"
    using assms(1) by (auto simp: encSignature_def seqE_Ok alignE_Ok emitE_Ok)
  moreover have "decByte (of_nat (length s) # stringBytes s @ 0 # rest, pos) =
      Inr (of_nat (length s), stringBytes s @ 0 # rest, pos + 1)"
    using readD_append [of "[of_nat (length s)]" 1 "stringBytes s @ 0 # rest" pos] by (simp add: decByte_def)
  ultimately show ?thesis
    using decChars_read [of s rest "pos + 1"] assms(2) by (simp add: decSignature_def stringBytes_def)
qed

lemma decCounted_read:
  assumes "encCounted be algn contents pos = (bs, None)" "pos mod 4 = 0" "algn > 0" "length bs < 2 ^ 32"
  obtains pre buf where "pre \<noteq> []" "bs = pre @ buf" "contents (pos + length pre) = (buf, None)"
    "(pos + length pre) mod algn = 0"
    "\<And>rest. decCounted be algn (pre @ buf @ rest, pos) = Inr (pos + length bs, buf @ rest, pos + length pre)"
proof -
  define q where "q = pos + 4 + padding (pos + 4) 0 algn"
  obtain buf where buf: "contents q = (buf, None)"
    and bs: "bs = put32 be (of_nat (length buf)) @ replicate (padding (pos + 4) 0 algn) 0 @ buf"
    using assms(1,2) by (auto simp: encCounted_def Let_def q_def padding_shift [of _ 4] seqE_Ok encUint32_Ok alignE_Ok emitE_Ok
      split: prod.splits option.splits)
  have "length buf < 2 ^ 32" using bs assms(4) by simp
  then have len: "unat (of_nat (length buf) :: 32 word) = length buf" by (simp add: unat_of_nat take_bit_nat_eq_self)
  let ?pre = "put32 be (of_nat (length buf)) @ replicate (padding (pos + 4) 0 algn) 0"
  have q: "q = pos + length ?pre" by (simp add: q_def)
  show thesis
  proof (rule that [of ?pre buf])
    show "?pre \<noteq> []" by (simp flip: length_0_conv)
    show "bs = ?pre @ buf" using bs by simp
    show "contents (pos + length ?pre) = (buf, None)" using buf q by simp
    show "(pos + length ?pre) mod algn = 0" using padding_aligned [OF assms(3), of "pos + 4"] by (simp add: add.assoc)
    show "decCounted be algn (?pre @ buf @ rest, pos) = Inr (pos + length bs, buf @ rest, pos + length ?pre)" for rest
      using bs len assms(2) alignD_padding [of "replicate (padding (pos + 4) 0 algn) 0" "pos + 4" algn "buf @ rest"]
      by (simp add: decCounted_def decUint32_aligned algebra_simps)
  qed
qed


subsection \<open>One step of the decoder\<close>

lemma dec_basic: "basicType t \<Longrightarrow> t \<noteq> TVariant \<Longrightarrow>
    dec_decode be (DecSingle (sigString t) d) st = Some (bindD (alignD (alignment t) st) (\<lambda>st. the (decBasic be t st)))"
  using typeFor_sigString [of t] basic_wire [of t]
  by (subst dec_decode.simps; cases t) (simp_all add: bindD_def decBasic_def split: sum.splits)

lemma dec_variant:
  assumes "d < 64" "decVariantSig st = Inr (sg, st')"
  shows "dec_decode be (DecSingle ''v'' d) st =
    thenD (dec_decode be (DecSingle sg (d + 1)) st') (\<lambda>(v, st). Some (Inr (DVariant sg v, st)))"
proof -
  have "typeFor ''v'' = Inr TVariant" using typeFor_sigString [of TVariant] by simp
  moreover have "alignD 1 st = Inr st" by (simp add: alignD_def)
  ultimately show ?thesis using assms by (subst dec_decode.simps) (simp add: decBasic_def)
qed

lemma dec_slice:
  assumes "wireType t" "nesting t < 64" "d < 64" "alignD 4 st = Inr st'" "decCounted be (alignment t) st' = Inr (stop, st'')"
  shows "dec_decode be (DecSingle (sigString (TSlice t)) d) st = dec_decode be (DecElems (decodedType t) (sigString t) (d + 1) stop []) st''"
proof -
  have "typeFor (CHR ''a'' # sigString t) = Inr (TSlice (decodedType t))" "typeFor (sigString t) = Inr (decodedType t)"
    using typeFor_sigString [of "TSlice t"] typeFor_sigString [of t] assms(1,2) by simp_all
  moreover have "alignment (TSlice (decodedType t)) = 4" "alignment (decodedType t) = alignment t"
    using alignment_decodedType [of "TSlice t"] alignment_decodedType [of t] assms(1) by auto
  moreover have "(CHR ''a'' # sigString t) ! 1 \<noteq> CHR ''{''" using sigString_no_brace [of t] by simp
  ultimately show ?thesis using assms(3-5) by (subst dec_decode.simps) (simp add: decBasic_def del: alignment.simps)
qed

lemma dec_map:
  assumes "basicType k" "wireType v" "nesting v < 64" "d < 63" "alignD 4 st = Inr st'" "decCounted be 8 st' = Inr (stop, st'')"
  shows "dec_decode be (DecSingle (sigString (TMap k v)) d) st =
    dec_decode be (DecEntries k (decodedType v) (sigString k) (sigString v) (d + 2) stop []) st''"
proof -
  obtain c where c: "sigString k = [c]" using sigToType_basic [OF assms(1)] by (cases "sigString k") auto
  have "decodedType k = k" using assms(1) by auto
  then have "typeFor [c] = Inr k" using typeFor_sigString [of k] basic_wire [OF assms(1)] c by simp
  moreover have "typeFor (sigString (TMap k v)) = Inr (TMap k (decodedType v))"
    using typeFor_sigString [of "TMap k v"] assms(1-3) by (simp del: sigString.simps)
  moreover have "typeFor (sigString v) = Inr (decodedType v)" using typeFor_sigString [of v] assms(2,3) by simp
  ultimately show ?thesis using assms(4-6) c by (subst dec_decode.simps) (simp add: decBasic_def Let_def)
qed

lemma dec_struct:
  assumes "wireType (TStruct n ts)" "nesting (TStruct n ts) \<le> 64" "d < 64" "alignD 8 st = Inr (bs, pos)" "pos mod 8 = 0"
  shows "dec_decode be (DecSingle (sigString (TStruct n ts)) d) st = dec_decode be (DecFields (concat (map sigString ts)) (d + 1) []) (bs, pos)"
proof -
  have "typeFor (sigString (TStruct n ts)) = Inr interfacesType" using typeFor_sigString [OF assms(1,2)] by simp
  then show ?thesis using assms(3-5) by (subst dec_decode.simps) (simp add: decBasic_def butlast_append)
qed

subsection \<open>The loops\<close>

definition readsBack :: "bool \<Rightarrow> nat \<Rightarrow> dval \<Rightarrow> bool" where
  "readsBack be d v \<longleftrightarrow> (\<forall>pos bs rest. enc_encode be d v pos = (bs, None) \<longrightarrow> length bs < 2 ^ 32 \<longrightarrow> bs \<noteq> [] \<and>
     dec_decode be (DecSingle (sigString (wireOf (typeOf v))) d) (bs @ rest, pos) = Some (Inr (decoded v, rest, pos + length bs)))"

lemma readsBackD:
  assumes "readsBack be d v" "enc_encode be d v pos = (bs, None)" "length bs < 2 ^ 32"
  shows "bs \<noteq> []"
    "dec_decode be (DecSingle (sigString (wireOf (typeOf v))) d) (bs @ rest, pos) = Some (Inr (decoded v, rest, pos + length bs))"
  using assms by (auto simp: readsBack_def)

lemma dec_elems:
  assumes "\<forall>v \<in> set vs. typeOf v = e \<and> readsBack be d v" "enc_values be d vs pos = (buf, None)" "length buf < 2 ^ 32"
  shows "dec_decode be (DecElems t (sigString (wireOf e)) d (pos + length buf) acc) (buf @ rest, pos) =
    Some (Inr (DSlice t (acc @ map decoded vs), rest, pos + length buf))"
  using assms
proof (induction vs arbitrary: pos buf acc)
  case Nil
  then show ?case by (subst dec_decode.simps) (simp add: emitE_Ok)
next
  case (Cons v vs)
  then obtain as cs where enc: "enc_encode be d v pos = (as, None)" "enc_values be d vs (pos + length as) = (cs, None)" "buf = as @ cs"
    by (auto simp: seqE_Ok)
  have v: "typeOf v = e" "readsBack be d v" using Cons.prems(1) by auto
  have len: "length as < 2 ^ 32" "length cs < 2 ^ 32" using enc(3) Cons.prems(3) by auto
  note one = readsBackD [OF v(2) enc(1) len(1)]
  show ?case
    using one(1) one(2) [of "cs @ rest"] v(1) enc(3) Cons.IH [OF _ enc(2) len(2), of "acc @ [decoded v]"] Cons.prems(1)
    by (subst dec_decode.simps) (simp add: add.assoc)
qed

lemma dec_fields:
  assumes "\<forall>v \<in> set vs. wireType (wireOf (typeOf v)) \<and> nesting (wireOf (typeOf v)) \<le> 64 \<and> readsBack be d v"
    "enc_values be d vs pos = (buf, None)" "length buf < 2 ^ 32"
  shows "dec_decode be (DecFields (concat (map (\<lambda>v. sigString (wireOf (typeOf v))) vs)) d acc) (buf @ rest, pos) =
    Some (Inr (DSlice TInterface (map DIface (acc @ map decoded vs)), rest, pos + length buf))"
  using assms
proof (induction vs arbitrary: pos buf acc)
  case Nil
  then show ?case by (subst dec_decode.simps) (simp add: emitE_Ok)
next
  case (Cons v vs)
  then obtain as cs where enc: "enc_encode be d v pos = (as, None)" "enc_values be d vs (pos + length as) = (cs, None)" "buf = as @ cs"
    by (auto simp: seqE_Ok)
  have v: "wireType (wireOf (typeOf v))" "nesting (wireOf (typeOf v)) + 0 \<le> 64" "readsBack be d v" using Cons.prems(1) by auto
  have len: "length as < 2 ^ 32" "length cs < 2 ^ 32" using enc(3) Cons.prems(3) by auto
  show ?case
    using readsBackD(2) [OF v(3) enc(1) len(1), of "cs @ rest"] enc(3)
      validSingle_complete [OF v(1,2), of "concat (map (\<lambda>v. sigString (wireOf (typeOf v))) vs)"]
      Cons.IH [OF _ enc(2) len(2), of "acc @ [decoded v]"] Cons.prems(1)
    by (subst dec_decode.simps) (simp add: add.assoc)
qed


lemma keyEq_decoded: "isKeyType (typeOf a) \<Longrightarrow> typeOf b = typeOf a \<Longrightarrow> keyEq (decoded a) (decoded b) = keyEq a b"
  by (cases a; cases b) auto

lemma setMapIndex_new: "\<forall>e \<in> set m. \<not> keyEq k (fst e) \<Longrightarrow> setMapIndex k v m = m @ [(k, v)]"
  by (simp add: setMapIndex_def)

lemma dec_entries:
  assumes "\<forall>e \<in> set es. typeOf (fst e) = k \<and> typeOf (snd e) = v \<and> readsBack be d (fst e) \<and> readsBack be d (snd e)"
    "isKeyType k" "isKeyType (wireOf k)" "enc_entries be d es pos = (buf, None)" "length buf < 2 ^ 32"
    "sorted_wrt (\<lambda>x y. \<not> keyEq (fst y) (fst x)) es" "\<forall>e \<in> set es. \<forall>a \<in> set acc. \<not> keyEq (decoded (fst e)) (fst a)"
  shows "dec_decode be (DecEntries (wireOf k) vt (sigString (wireOf k)) (sigString (wireOf v)) d (pos + length buf) acc) (buf @ rest, pos) =
    Some (Inr (DMap (wireOf k) vt (acc @ map (\<lambda>e. (decoded (fst e), decoded (snd e))) es), rest, pos + length buf))"
  using assms
proof (induction es arbitrary: pos buf acc)
  case Nil
  then show ?case by (subst dec_decode.simps) (simp add: emitE_Ok)
next
  case (Cons e es)
  obtain a b where e: "e = (a, b)" by fastforce
  let ?pad = "replicate (padding pos 0 8) (0 :: 8 word)"
  obtain as bs cs where enc: "enc_encode be d a (pos + padding pos 0 8) = (as, None)"
      "enc_encode be d b (pos + padding pos 0 8 + length as) = (bs, None)"
      "enc_entries be d es (pos + padding pos 0 8 + length as + length bs) = (cs, None)" "buf = ?pad @ as @ bs @ cs"
    using Cons.prems(4) e by (auto simp: seqE_Ok alignE_Ok split: if_splits)
  have ab: "typeOf a = k" "typeOf b = v" "readsBack be d a" "readsBack be d b" using Cons.prems(1) e by auto
  have len: "length as < 2 ^ 32" "length bs < 2 ^ 32" "length cs < 2 ^ 32" using enc(4) Cons.prems(5) by auto
  note ka = readsBackD [OF ab(3) enc(1) len(1)] and vb = readsBackD [OF ab(4) enc(2) len(2)]
  have fresh: "\<forall>x \<in> set es. \<forall>y \<in> set (acc @ [(decoded a, decoded b)]). \<not> keyEq (decoded (fst x)) (fst y)"
    using Cons.prems e ab(1) by (auto simp: keyEq_decoded)
  have "setMapIndex (decoded a) (decoded b) acc = acc @ [(decoded a, decoded b)]"
    using Cons.prems(7) e by (intro setMapIndex_new) auto
  then show ?case
    using ka vb(2) [of "cs @ rest"] ka(2) [of "bs @ cs @ rest"] ab(1,2) enc(4) Cons.prems(3)
      alignD_padding [of ?pad pos 8 "as @ bs @ cs @ rest"]
      Cons.IH [OF _ Cons.prems(2,3) enc(3) len(3) _ fresh] Cons.prems(1,6) e
    by (subst dec_decode.simps) (simp add: add.assoc del: isKeyType.simps)
qed

subsection \<open>Every value is read back\<close>

lemma decWord_put:
  "pos mod alignment t = 0 \<Longrightarrow> decWord t 2 be (put16 be w @ rest, pos) = Inr (w :: 16 word, rest, pos + 2)"
  "pos mod alignment t = 0 \<Longrightarrow> decWord t 4 be (put32 be x @ rest, pos) = Inr (x :: 32 word, rest, pos + 4)"
  "pos mod alignment t = 0 \<Longrightarrow> decWord t 8 be (put64 be y @ rest, pos) = Inr (y :: 64 word, rest, pos + 8)"
  using decWord_read [where 'a = 16, of pos t "put16 be w" 2] decWord_read [where 'a = 32, of pos t "put32 be x" 4]
    decWord_read [where 'a = 64, of pos t "put64 be y" 8] by simp_all

lemma alignD_replicate: "alignD n (replicate (padding pos 0 n) 0 @ rest, pos) = Inr (rest, pos + padding pos 0 n)"
  by (rule alignD_padding) simp

lemma put_nonempty [simp]: "put16 be w \<noteq> []" "put32 be x \<noteq> []" "put64 be y \<noteq> []"
  by (simp_all flip: length_0_conv)

lemma readsBack_string:
  assumes "v = DString s \<or> v = DObjectPath s"
  shows "readsBack be d v"
proof -
  have "alignment (typeOf v) = 4" "wireOf (typeOf v) = typeOf v" "typeOf v \<noteq> TVariant" "basicType (typeOf v)" using assms by auto
  note dec = dec_basic [OF this(4,3), unfolded this(1)]
  show ?thesis unfolding readsBack_def \<open>wireOf (typeOf v) = typeOf v\<close>
  proof (intro allI impI conjI)
    fix pos bs rest assume enc: "enc_encode be d v pos = (bs, None)" and len: "length bs < 2 ^ 32"
    then obtain cs where cs: "encString be s (pos + padding pos 0 4) = (cs, None)" "bs = replicate (padding pos 0 4) 0 @ cs"
      using assms by (auto simp: seqE_Ok alignE_Ok)
    show "bs \<noteq> []" using cs by (auto simp: encString_def seqE_Ok emitE_Ok)
    have "decString be (cs @ rest, pos + padding pos 0 4) = Inr (s, rest, pos + length bs)"
      using decString_read [OF cs(1) padding_aligned] cs(2) len by (simp add: add.assoc)
    then show "dec_decode be (DecSingle (sigString (typeOf v)) d) (bs @ rest, pos) = Some (Inr (decoded v, rest, pos + length bs))"
      using assms cs(2) by (auto simp: dec alignD_replicate decBasic_def mapD_def)
  qed
qed

lemma readsBack_number:
  assumes "basicType (typeOf v)" "typeOf v \<notin> {TVariant, TSignature, TString, TObjectPath}"
  shows "readsBack be d v"
proof -
  have "typeOf v \<noteq> TVariant" using assms(2) by simp
  then show ?thesis using assms dec_basic [OF assms(1), of be d]
    by (cases v) (simp_all add: readsBack_def seqE_Ok alignE_Ok emitE_Ok encUint32_Ok decBasic_def mapD_def alignD_replicate
      decWord_put padding_aligned decUint32_aligned decUint32_read decByte_def readD_append [of "[_]", simplified])
qed


lemma readsBack_signature: "ParseSignature s = Inr s \<Longrightarrow> readsBack be d (DSignature s)"
  unfolding readsBack_def
proof (intro allI impI conjI)
  fix pos bs rest assume p: "ParseSignature s = Inr s" and enc: "enc_encode be d (DSignature s) pos = (bs, None)"
  show "bs \<noteq> []" using enc by (auto simp: encSignature_def seqE_Ok emitE_Ok)
  show "dec_decode be (DecSingle (sigString (wireOf (typeOf (DSignature s)))) d) (bs @ rest, pos) =
      Some (Inr (decoded (DSignature s), rest, pos + length bs))"
    using dec_basic [of TSignature be d] decSignature_read [of s pos bs rest] p enc by (simp add: decBasic_def mapD_def)
qed

lemma readsBack_fd: "readsBack be d (DUnixFD w)"
  using readsBack_number [of "DUnixFDIndex w" be d] by (simp add: readsBack_def)

lemma seqE_align_twice: "n > 0 \<Longrightarrow> seqE (alignE n) (seqE (alignE n) m) = seqE (alignE n) m"
  by (rule ext) (simp add: seqE_def alignE_Ok padding_aligned split: prod.split)

lemma encode_starts_aligned:
  "seqE (alignE (alignment (typeOf v))) (enc_encode be d v) = enc_encode be d v"
proof (cases v)
  case (DPtr t w)
  then show ?thesis by (cases w) (simp_all add: seqE_align_twice)
qed (simp_all add: seqE_align_twice encUint32_def encSignature_def)

lemma readsBack_ptr:
  assumes "readsBack be d v"
  shows "readsBack be d (DPtr (typeOf v) (Some v))"
proof -
  have "enc_encode be d (DPtr (typeOf v) (Some v)) pos = enc_encode be d v pos" for pos
    using encode_starts_aligned [of v be d] by simp
  then show ?thesis using assms by (simp add: readsBack_def del: enc_encode.simps)
qed

lemma readsBack_variant:
  assumes "readsBack be (d + 1) v" "getSignature (typeOf v) = Ok sg" "length sg \<le> 255" "nesting (wireOf (typeOf v)) \<le> 64"
  shows "readsBack be d (DVariant sg v)"
  unfolding readsBack_def
proof (intro allI impI)
  fix pos bs rest assume enc: "enc_encode be d (DVariant sg v) pos = (bs, None)" and len: "length bs < 2 ^ 32"
  obtain as cs where d: "d < 64" and as: "encSignature sg pos = (as, None)"
    and cs: "enc_encode be (d + 1) v (pos + length as) = (cs, None)" and bs: "bs = as @ cs"
    using enc by (auto simp: seqE_Ok alignE_Ok split: if_splits)
  have sg: "wireType (wireOf (typeOf v))" "sg = sigString (wireOf (typeOf v))" using getSignature_wireOf [OF assms(2)] by auto
  have "ParseSignature sg = Inr sg" using sg assms(3,4)
    by (subst ParseSignature_Ok_iff) (auto intro!: exI [of _ "[wireOf (typeOf v)]"])
  moreover have "validSingle sg 0 = Inr ''''"
    using validSingle_complete [of "wireOf (typeOf v)" 0 "''''"] sg assms(4) by simp
  ultimately have "decVariantSig (as @ cs @ rest, pos) = Inr (sg, cs @ rest, pos + length as)"
    using decSignature_read [OF as] sg(2) by (simp add: decVariantSig_def)
  note dec = dec_variant [OF d this, of be]
  have "length cs < 2 ^ 32" using bs len by simp
  then show "bs \<noteq> [] \<and> dec_decode be (DecSingle (sigString (wireOf (typeOf (DVariant sg v)))) d) (bs @ rest, pos) =
      Some (Inr (decoded (DVariant sg v), rest, pos + length bs))"
    using dec readsBackD [OF assms(1) cs] sg(2) bs by (simp add: add.assoc)
qed

lemma readsBack_slice:
  assumes "\<forall>v \<in> set vs. typeOf v = e \<and> readsBack be (d + 1) v" "wireType (wireOf e)" "nesting (wireOf e) < 64"
  shows "readsBack be d (DSlice e vs)"
  unfolding readsBack_def
proof (intro allI impI)
  fix pos bs rest assume enc: "enc_encode be d (DSlice e vs) pos = (bs, None)" and len: "length bs < 2 ^ 32"
  define q where "q = pos + padding pos 0 4"
  have q: "q mod 4 = 0" by (simp add: q_def padding_aligned)
  have "e \<noteq> TInterface" using assms(2) by auto
  then obtain cs where d: "d < 64" and cs: "encCounted be (alignment e) (enc_values be (d + 1) vs) q = (cs, None)"
    and bs: "bs = replicate (padding pos 0 4) 0 @ cs"
    using enc by (auto simp: seqE_Ok alignE_Ok q_def split: if_splits)
  have al: "alignD 4 (bs @ rest, pos) = Inr (cs @ rest, q)" using alignD_replicate [of 4 pos "cs @ rest"] bs by (simp add: q_def)
  have lcs: "length cs < 2 ^ 32" using bs len by simp
  obtain pre buf where pre: "pre \<noteq> []" "cs = pre @ buf" "enc_values be (d + 1) vs (q + length pre) = (buf, None)"
      "(q + length pre) mod alignment e = 0"
      "\<And>rest. decCounted be (alignment e) (pre @ buf @ rest, q) = Inr (q + length cs, buf @ rest, q + length pre)"
    by (rule decCounted_read [OF cs q alignment_pos lcs]) (rule that)
  have "length buf < 2 ^ 32" using pre(2) lcs by simp
  note loop = dec_elems [OF assms(1) pre(3) this, of "decodedType (wireOf e)" "[]" rest]
  have "alignment (wireOf e) = alignment e" using alignment_wireOf [OF assms(2)] .
  then have "dec_decode be (DecSingle (sigString (TSlice (wireOf e))) d) (bs @ rest, pos) =
      dec_decode be (DecElems (decodedType (wireOf e)) (sigString (wireOf e)) (d + 1) (q + length cs) []) (buf @ rest, q + length pre)"
    by (intro dec_slice [OF assms(2,3) d al]) (use pre(2,5) in simp)
  then show "bs \<noteq> [] \<and> dec_decode be (DecSingle (sigString (wireOf (typeOf (DSlice e vs)))) d) (bs @ rest, pos) =
      Some (Inr (decoded (DSlice e vs), rest, pos + length bs))"
    using loop pre(1,2) bs by (simp add: add.assoc q_def)
qed


lemma readsBack_map:
  assumes "\<forall>e \<in> set es. typeOf (fst e) = k \<and> typeOf (snd e) = v \<and> readsBack be (d + 2) (fst e) \<and> readsBack be (d + 2) (snd e)"
    "sorted_wrt (\<lambda>x y. \<not> keyEq (fst y) (fst x)) es" "wireType (wireOf v)" "nesting (wireOf v) < 64"
  shows "readsBack be d (DMap k v es)"
  unfolding readsBack_def
proof (intro allI impI)
  fix pos bs rest assume enc: "enc_encode be d (DMap k v es) pos = (bs, None)" and len: "length bs < 2 ^ 32"
  define q where "q = pos + padding pos 0 4"
  have q: "q mod 4 = 0" by (simp add: q_def padding_aligned)
  obtain cs where d: "d < 63" and k: "isKeyType k" and cs: "encCounted be 8 (enc_entries be (d + 2) es) q = (cs, None)"
    and bs: "bs = replicate (padding pos 0 4) 0 @ cs"
    using enc by (auto simp: seqE_Ok alignE_Ok q_def simp del: isKeyType.simps split: if_splits)
  have al: "alignD 4 (bs @ rest, pos) = Inr (cs @ rest, q)" using alignD_replicate [of 4 pos "cs @ rest"] bs by (simp add: q_def)
  have lcs: "length cs < 2 ^ 32" using bs len by simp
  obtain pre buf where pre: "pre \<noteq> []" "cs = pre @ buf" "enc_entries be (d + 2) es (q + length pre) = (buf, None)"
      "(q + length pre) mod 8 = 0"
      "\<And>rest. decCounted be 8 (pre @ buf @ rest, q) = Inr (q + length cs, buf @ rest, q + length pre)"
    by (rule decCounted_read [OF cs q zero_less_numeral lcs]) (rule that)
  have k': "basicType (wireOf k)" "isKeyType (wireOf k)" using k by auto
  have "length buf < 2 ^ 32" using pre(2) lcs by simp
  note loop = dec_entries [OF assms(1) k k'(2) pre(3) this assms(2), of "[]" "decodedType (wireOf v)" rest]
  have "dec_decode be (DecSingle (sigString (TMap (wireOf k) (wireOf v))) d) (bs @ rest, pos) =
      dec_decode be (DecEntries (wireOf k) (decodedType (wireOf v)) (sigString (wireOf k)) (sigString (wireOf v)) (d + 2) (q + length cs) [])
        (buf @ rest, q + length pre)"
    by (rule dec_map [OF k'(1) assms(3,4) d al]) (use pre(2,5) in simp)
  then show "bs \<noteq> [] \<and> dec_decode be (DecSingle (sigString (wireOf (typeOf (DMap k v es)))) d) (bs @ rest, pos) =
      Some (Inr (decoded (DMap k v es), rest, pos + length bs))"
    using loop pre(1,2) bs by (simp add: add.assoc q_def)
qed

lemma enc_values_nonempty:
  assumes "vs \<noteq> []" "\<forall>v \<in> set vs. readsBack be d v" "enc_values be d vs pos = (bs, None)" "length bs < 2 ^ 32"
  shows "bs \<noteq> []"
  using assms readsBackD(1) by (cases vs) (fastforce simp: seqE_Ok)+

lemma readsBack_struct:
  assumes "vs \<noteq> []" "\<forall>v \<in> set vs. wireType (wireOf (typeOf v)) \<and> nesting (wireOf (typeOf v)) < 64 \<and> readsBack be (d + 1) v"
  shows "readsBack be d (DStruct n vs)"
  unfolding readsBack_def
proof (intro allI impI)
  fix pos bs rest assume enc: "enc_encode be d (DStruct n vs) pos = (bs, None)" and len: "length bs < 2 ^ 32"
  define q where "q = pos + padding pos 0 8"
  have q: "q mod 8 = 0" by (simp add: q_def padding_aligned)
  obtain cs where d: "d < 64" and cs: "enc_values be (d + 1) vs q = (cs, None)" and bs: "bs = replicate (padding pos 0 8) 0 @ cs"
    using enc by (auto simp: seqE_Ok alignE_Ok q_def split: if_splits)
  have lcs: "length cs < 2 ^ 32" using bs len by simp
  let ?ts = "map (\<lambda>v. wireOf (typeOf v)) vs"
  have t: "wireType (TStruct n ?ts)" "nesting (TStruct n ?ts) \<le> 64"
    using assms(2) nesting_struct [of n ?ts 0] by (auto simp: list_all_iff Suc_le_eq)
  have f: "\<forall>v \<in> set vs. wireType (wireOf (typeOf v)) \<and> nesting (wireOf (typeOf v)) \<le> 64 \<and> readsBack be (d + 1) v"
    using assms(2) by auto
  have "cs \<noteq> []" using enc_values_nonempty [OF assms(1) _ cs lcs] assms(2) by blast
  moreover have al: "alignD 8 (bs @ rest, pos) = Inr (cs @ rest, q)" using alignD_replicate [of 8 pos "cs @ rest"] bs by (simp add: q_def)
  ultimately show "bs \<noteq> [] \<and> dec_decode be (DecSingle (sigString (wireOf (typeOf (DStruct n vs)))) d) (bs @ rest, pos) =
      Some (Inr (decoded (DStruct n vs), rest, pos + length bs))"
    using dec_struct [OF t d al q, of be] dec_fields [OF f cs lcs, of "[]" rest] bs
    by (simp add: q_def o_def add.assoc)
qed

lemma traverse_go_each: "traverse_go f xs = Ok ys \<Longrightarrow> x \<in> set xs \<Longrightarrow> \<exists>y. f x = Ok y"
  by (induction xs arbitrary: ys) (auto simp: bind_go_Ok_iff)

lemma nesting_subs:
  "nesting (TStruct n ts) \<le> 64 \<Longrightarrow> t \<in> set ts \<Longrightarrow> nesting t < 64"
  using nesting_struct [of n ts 0] by auto

lemma wfVal_readsBack:
  "wfVal v \<Longrightarrow> getSignature (typeOf v) = Ok s \<Longrightarrow> nesting (wireOf (typeOf v)) \<le> 64 \<Longrightarrow> readsBack be d v"
proof (induction v arbitrary: d s)
  case (DSignature s')
  then show ?case by (simp add: readsBack_signature)
next
  case (DVariant sg v)
  then show ?case by (auto intro: readsBack_variant)
next
  case (DPtr t w)
  then show ?case by (cases w) (auto intro: readsBack_ptr)
next
  case (DSlice e vs)
  obtain s' where s': "getSignature e = Ok s'" using DSlice.prems by (auto simp: bind_go_Ok_iff)
  have "\<forall>v \<in> set vs. typeOf v = e \<and> readsBack be (d + 1) v" using DSlice s' by auto
  then show ?case using getSignature_wireOf [OF s'] DSlice.prems(3) by (intro readsBack_slice) auto
next
  case (DMap k v es)
  obtain sk sv where s': "getSignature k = Ok sk" "getSignature v = Ok sv" "isKeyType k"
    using DMap.prems by (auto simp: bind_go_Ok_iff simp del: isKeyType.simps split: if_splits)
  have nk: "nesting (wireOf k) = 0" using s'(3) by auto
  have "readsBack be (d + 2) (fst e) \<and> readsBack be (d + 2) (snd e)" if e: "e \<in> set es" for e
    using DMap.IH [of e] e DMap.prems s'(1,2) nk by (cases e) (auto simp del: isKeyType.simps)
  then show ?case using getSignature_wireOf [OF s'(2)] DMap.prems by (intro readsBack_map) (auto simp del: isKeyType.simps)
next
  case (DStruct n vs)
  have "\<exists>s'. getSignature (typeOf v) = Ok s'" if "v \<in> set vs" for v
    using DStruct.prems(2) that traverse_go_each [of getSignature "map typeOf vs"] by (auto simp: bind_go_Ok_iff)
  then have "wireType (wireOf (typeOf v)) \<and> nesting (wireOf (typeOf v)) < 64 \<and> readsBack be (d + 1) v" if "v \<in> set vs" for v
    using DStruct that getSignature_wireOf nesting_subs [of n "map (\<lambda>v. wireOf (typeOf v)) vs" "wireOf (typeOf v)"] by (fastforce simp: o_def)
  then show ?case using DStruct.prems(1) by (intro readsBack_struct) auto
qed (auto intro: readsBack_number readsBack_string readsBack_fd simp del: isKeyType.simps)


section \<open>Lists of values\<close>

lemma SignatureOf_values:
  assumes "SignatureOf (map typeOf vs) = Ok s"
  shows "s = concat (map (\<lambda>v. sigString (wireOf (typeOf v))) vs)" "\<forall>v \<in> set vs. \<exists>s'. getSignature (typeOf v) = Ok s'"
proof -
  obtain ss where ss: "traverse_go getSignature (map typeOf vs) = Ok ss" "s = concat ss"
    using assms by (auto simp: SignatureOf_def bind_go_Ok_iff)
  then show "\<forall>v \<in> set vs. \<exists>s'. getSignature (typeOf v) = Ok s'" using traverse_go_each by fastforce
  have "ss = map (\<lambda>v. sigString (wireOf (typeOf v))) vs" using ss(1)
    by (induction vs arbitrary: ss) (auto simp: bind_go_Ok_iff dest: getSignature_wireOf)
  then show "s = concat (map (\<lambda>v. sigString (wireOf (typeOf v))) vs)" using ss(2) by simp
qed

lemma decLoop_values:
  assumes "\<forall>v \<in> set vs. wireType (wireOf (typeOf v)) \<and> nesting (wireOf (typeOf v)) \<le> 64 \<and> readsBack be 0 v"
    "enc_values be 0 vs pos = (bs, None)" "length bs < 2 ^ 32"
  shows "decLoop be (concat (map (\<lambda>v. sigString (wireOf (typeOf v))) vs)) acc (bs @ rest, pos) =
    Some (Inr (acc @ map decoded vs, rest, pos + length bs))"
  using assms
proof (induction vs arbitrary: pos bs acc)
  case Nil
  then show ?case by (subst decLoop.simps) (simp add: emitE_Ok)
next
  case (Cons v vs)
  then obtain as cs where enc: "enc_encode be 0 v pos = (as, None)" "enc_values be 0 vs (pos + length as) = (cs, None)" "bs = as @ cs"
    by (auto simp: seqE_Ok)
  have v: "wireType (wireOf (typeOf v))" "nesting (wireOf (typeOf v)) + 0 \<le> 64" "readsBack be 0 v" using Cons.prems(1) by auto
  have len: "length as < 2 ^ 32" "length cs < 2 ^ 32" using enc(3) Cons.prems(3) by auto
  show ?case
    using readsBackD(2) [OF v(3) enc(1) len(1), of "cs @ rest"] enc(3)
      validSingle_complete [OF v(1,2), of "concat (map (\<lambda>v. sigString (wireOf (typeOf v))) vs)"]
      Cons.IH [OF _ enc(2) len(2), of "acc @ [decoded v]"] Cons.prems(1)
    by (subst decLoop.simps) (simp add: add.assoc)
qed

lemma Decode_Encode:
  assumes "\<forall>v \<in> set vs. wfVal v \<and> nesting (wireOf (typeOf v)) \<le> 64" "SignatureOf (map typeOf vs) = Ok s"
    "Encode be vs pos = (bs, None)" "length bs < 2 ^ 32"
  shows "Decode be s (bs @ rest, pos) = Some (Inr (map decoded vs, rest, pos + length bs))"
proof -
  note sg = SignatureOf_values [OF assms(2)]
  have "\<forall>v \<in> set vs. wireType (wireOf (typeOf v)) \<and> nesting (wireOf (typeOf v)) \<le> 64 \<and> readsBack be 0 v"
    using sg(2) assms(1) getSignature_wireOf wfVal_readsBack by blast
  then show ?thesis using decLoop_values [of vs be pos bs "[]" rest] assms(3,4) sg(1) by (simp add: Decode_def Encode_def)
qed

section \<open>A loop without an end\<close>

text \<open>An element of no bytes does not move the loop over an array on.\<close>

definition stuckLoop :: "dtask \<Rightarrow> dst \<Rightarrow> (dbus_error + dval \<times> dst) \<Rightarrow> bool" where
  "stuckLoop task st r \<longleftrightarrow> (snd st mod 8 = 0 \<longrightarrow>
     (case task of
        DecElems t s d stop acc \<Rightarrow> \<not> (s = ''()'' \<and> snd st < stop \<and> d < 64)
      | DecSingle s d \<Rightarrow> s = ''()'' \<and> d < 64 \<longrightarrow> (\<exists>v. r = Inr (v, st))
      | DecFields s d vs \<Rightarrow> s = '''' \<longrightarrow> (\<exists>v. r = Inr (v, st))
      | DecEntries kt vt ks vs d stop m \<Rightarrow> True))"

lemma typeFor_unit: "typeFor ''()'' = Inr interfacesType"
  using typeFor_sigString [of "TStruct '''' []"] by simp

lemma empty_struct_stuck:
  assumes "dec_decode be task st = Some r"
  shows "stuckLoop task st r"
proof (rule dec_decode.raw_induct [where P = "\<lambda>be task st r. stuckLoop task st r", OF _ assms], goal_cases)
  case (1 f be task st r)
  show ?case
  proof (cases task)
    case (DecSingle s d)
    show ?thesis
    proof (cases "s = ''()'' \<and> d < 64 \<and> snd st mod 8 = 0")
      case True
      then have "alignD 8 st = Inr st" by (cases st) simp
      then have "f be (DecFields '''' (Suc d) []) st = Some r" using 1(2) DecSingle True by (simp add: typeFor_unit decBasic_def)
      then show ?thesis using 1(1) [of be "DecFields '''' (Suc d) []" st r] DecSingle by (simp add: stuckLoop_def)
    qed (use DecSingle in \<open>auto simp: stuckLoop_def\<close>)
  next
    case (DecElems t s d stop acc)
    show ?thesis
    proof (cases "s = ''()'' \<and> d < 64 \<and> snd st mod 8 = 0 \<and> snd st < stop")
      case True
      then obtain x where x: "f be (DecSingle s d) st = Some x" using 1(2) DecElems by (auto simp: bind_eq_Some_conv)
      then obtain v where v: "x = Inr (v, st)" using 1(1) [OF x] True by (auto simp: stuckLoop_def)
      then have "f be (DecElems t s d stop (acc @ [v])) st = Some r" using 1(2) DecElems True x by simp
      from 1(1) [OF this] show ?thesis using True by (simp add: stuckLoop_def)
    qed (use DecElems in \<open>auto simp: stuckLoop_def\<close>)
  next
    case (DecFields s d vs)
    then show ?thesis using 1(2) by (auto simp: stuckLoop_def)
  qed (simp add: stuckLoop_def)
qed

lemma Decode_hangs:
  assumes "n \<noteq> 0"
  shows "Decode be ''a()'' (put32 be n @ [0, 0, 0, 0] @ rest, 0) = None"
proof -
  have "decUint32 be (put32 be n @ [0, 0, 0, 0] @ rest, 0) = Inr (n, [0, 0, 0, 0] @ rest, 4)"
    using decUint32_aligned [of 0 be n "[0, 0, 0, 0] @ rest"] by simp
  moreover have "alignD 8 ([0, 0, 0, 0] @ rest, 4) = Inr (rest, 8)"
    using readD_append [of "[0, 0, 0, 0]" 4 rest 4] by (simp add: alignD_def)
  ultimately have c: "decCounted be (alignment (TStruct '''' [])) (put32 be n @ [0, 0, 0, 0] @ rest, 0) = Inr (8 + unat n, rest, 8)"
    by (simp add: decCounted_def)
  have "dec_decode be (DecElems interfacesType ''()'' 1 (8 + unat n) []) (rest, 8) = None"
    using empty_struct_stuck [of be "DecElems interfacesType ''()'' 1 (8 + unat n) []" "(rest, 8)"] assms
    by (cases "dec_decode be (DecElems interfacesType ''()'' 1 (8 + unat n) []) (rest, 8)")
      (auto simp: stuckLoop_def unat_gt_0)
  then have "dec_decode be (DecSingle ''a()'' 0) (put32 be n @ [0, 0, 0, 0] @ rest, 0) = None"
    using dec_slice [of "TStruct '''' []" 0 _ _ be, OF _ _ _ _ c] by simp
  moreover have "validSingle ''a()'' 0 = Inr ''''"
    using validSingle_complete [of "TSlice (TStruct '''' [])" 0 "''''"] by simp
  ultimately show ?thesis unfolding Decode_def by (subst decLoop.simps) simp
qed

end
