(* ===== verification/Dbus_Message.thy ===== *)
theory Dbus_Message
  imports Dbus_Wire
begin

text \<open>
  Messages of D-Bus, \<open>godbus/dbus/message.go\<close>, with the names and paths of \<open>dbus.go\<close> and the making
  of variants in \<open>variant.go\<close>.

  A variant is the pair of its signature and its value. The headers of a message are a Go map, the list of
  its entries in the order of one \<open>range\<close> loop. A reader is the bytes that it will deliver before
  its end; a writer gets the bytes that one call writes.
\<close>

unbundle bit_operations_syntax

section \<open>Names\<close>

definition isMemberChar :: "char \<Rightarrow> bool" where
  "isMemberChar ch \<longleftrightarrow> (let c = (of_char ch :: nat) in
     (c \<ge> 48 \<and> c \<le> 57) \<or> (c \<ge> 65 \<and> c \<le> 90) \<or> (c \<ge> 97 \<and> c \<le> 122) \<or> ch = CHR ''_'')"

definition ObjectPath_IsValid :: "string \<Rightarrow> bool" where
  "ObjectPath_IsValid s =
     (if length s = 0 then False
      else if s ! 0 \<noteq> CHR ''/'' then False
      else if s ! (length s - 1) = CHR ''/'' \<and> length s \<noteq> 1 then False
      else if s = ''/'' then True
      else list_all (\<lambda>v. length v \<noteq> 0 \<and> list_all isMemberChar v) (splitOn (CHR ''/'') (drop 1 s)))"

definition isValidInterface :: "string \<Rightarrow> bool" where
  "isValidInterface s =
     (if length s = 0 \<or> length s > 255 \<or> s ! 0 = CHR ''.'' then False
      else (let elem = splitOn (CHR ''.'') s in
        if length elem < 2 then False
        else list_all (\<lambda>v. length v \<noteq> 0 \<and> \<not> isDigit (v ! 0) \<and> list_all isMemberChar v) elem))"

definition isValidMember :: "string \<Rightarrow> bool" where
  "isValidMember s =
     (if length s = 0 \<or> length s > 255 then False
      else if CHR ''.'' \<in> set s then False
      else if isDigit (s ! 0) then False
      else list_all isMemberChar s)"

section \<open>Messages\<close>

type_synonym variant = "string \<times> dval"

definition MakeVariant :: "dval \<Rightarrow> variant go" where
  "MakeVariant v = bind_go (SignatureOf [typeOf v]) (\<lambda>sg. Ok (sg, v))"

abbreviation FlagNoReplyExpected :: "8 word" where "FlagNoReplyExpected \<equiv> 1"
abbreviation FlagNoAutoStart :: "8 word" where "FlagNoAutoStart \<equiv> 2"

abbreviation TypeMethodCall :: "8 word" where "TypeMethodCall \<equiv> 1"
abbreviation TypeMethodReply :: "8 word" where "TypeMethodReply \<equiv> 2"
abbreviation TypeError :: "8 word" where "TypeError \<equiv> 3"
abbreviation TypeSignal :: "8 word" where "TypeSignal \<equiv> 4"
abbreviation typeMax :: "8 word" where "typeMax \<equiv> 5"

abbreviation FieldPath :: "8 word" where "FieldPath \<equiv> 1"
abbreviation FieldInterface :: "8 word" where "FieldInterface \<equiv> 2"
abbreviation FieldMember :: "8 word" where "FieldMember \<equiv> 3"
abbreviation FieldErrorName :: "8 word" where "FieldErrorName \<equiv> 4"
abbreviation FieldReplySerial :: "8 word" where "FieldReplySerial \<equiv> 5"
abbreviation FieldDestination :: "8 word" where "FieldDestination \<equiv> 6"
abbreviation FieldSender :: "8 word" where "FieldSender \<equiv> 7"
abbreviation FieldSignature :: "8 word" where "FieldSignature \<equiv> 8"
abbreviation FieldUnixFDs :: "8 word" where "FieldUnixFDs \<equiv> 9"
abbreviation fieldMax :: "8 word" where "fieldMax \<equiv> 10"

definition fieldTypes :: "8 word \<Rightarrow> dtype option" where
  "fieldTypes k = map_of [(FieldPath, TObjectPath), (FieldInterface, TString), (FieldMember, TString),
     (FieldErrorName, TString), (FieldReplySerial, TUint32), (FieldDestination, TString), (FieldSender, TString),
     (FieldSignature, TSignature), (FieldUnixFDs, TUint32)] k"

definition requiredFields :: "8 word \<Rightarrow> 8 word list" where
  "requiredFields t =
     (if t = TypeMethodCall then [FieldPath, FieldMember]
      else if t = TypeMethodReply then [FieldReplySerial]
      else if t = TypeError then [FieldErrorName, FieldReplySerial]
      else if t = TypeSignal then [FieldPath, FieldInterface, FieldMember]
      else [])"

record Message =
  msg_Type :: "8 word"
  msg_Flags :: "8 word"
  msg_Headers :: "(8 word, variant) gomap"
  msg_Body :: "dval list"
  msg_serial :: "32 word"

text \<open>\<open>msg.Headers[f].value.(string)\<close> and the like with the comma-ok form: the zero value when it is missing.\<close>

definition headerString :: "8 word \<Rightarrow> Message \<Rightarrow> string" where
  "headerString f msg = (case go_lookup (msg_Headers msg) f of Some (_, DString s) \<Rightarrow> s | _ \<Rightarrow> '''')"

definition headerPath :: "8 word \<Rightarrow> Message \<Rightarrow> string" where
  "headerPath f msg = (case go_lookup (msg_Headers msg) f of Some (_, DObjectPath s) \<Rightarrow> s | _ \<Rightarrow> '''')"

definition headerSignature :: "Message \<Rightarrow> string" where
  "headerSignature msg = (case go_lookup (msg_Headers msg) FieldSignature of Some (_, DSignature s) \<Rightarrow> s | _ \<Rightarrow> '''')"

fun checkHeaders :: "(8 word \<times> variant) list \<Rightarrow> string option" where
  "checkHeaders [] = None"
| "checkHeaders ((k, v) # hs) =
     (if k = 0 \<or> k \<ge> fieldMax then Some ''invalid header''
      else if fieldTypes k \<noteq> Some (typeOf (snd v)) then Some ''invalid type of header field''
      else checkHeaders hs)"

text \<open>The checks of the names come after the check of the types, so their type assertions hold.\<close>

definition IsValid :: "Message \<Rightarrow> string option" where
  "IsValid msg = (let has = has_key (msg_Headers msg) in
     if msg_Flags msg AND NOT (FlagNoAutoStart OR FlagNoReplyExpected) \<noteq> 0 then Some ''invalid flags''
     else if msg_Type msg = 0 \<or> msg_Type msg \<ge> typeMax then Some ''invalid message type''
     else (case checkHeaders (msg_Headers msg) of Some e \<Rightarrow> Some e
       | None \<Rightarrow>
           if \<not> list_all has (requiredFields (msg_Type msg)) then Some ''missing required header''
           else if has FieldPath \<and> \<not> ObjectPath_IsValid (headerPath FieldPath msg) then Some ''invalid path name''
           else if has FieldInterface \<and> \<not> isValidInterface (headerString FieldInterface msg) then Some ''invalid interface name''
           else if has FieldMember \<and> \<not> isValidMember (headerString FieldMember msg) then Some ''invalid member name''
           else if has FieldErrorName \<and> \<not> isValidInterface (headerString FieldErrorName msg) then Some ''invalid error name''
           else if length (msg_Body msg) \<noteq> 0 \<and> \<not> has FieldSignature then Some ''missing signature''
           else None))"

section \<open>Writing\<close>

definition orderByte :: "bool \<Rightarrow> 8 word" where
  "orderByte be = (if be then 66 else 108)"

abbreviation headerType :: dtype where
  "headerType \<equiv> TStruct ''header'' [TByte, TVariant]"

definition headerVal :: "8 word \<times> variant \<Rightarrow> dval" where
  "headerVal h = DStruct ''header'' [DByte (fst h), DVariant (fst (snd h)) (snd (snd h))]"

text \<open>The errors of the two calls of \<open>Encode\<close> are ignored: what was written before them is sent.\<close>

definition EncodeTo :: "bool \<Rightarrow> Message \<Rightarrow> dbus_error + bytes" where
  "EncodeTo be msg = (case IsValid msg of Some e \<Rightarrow> Inl (InvalidMessageError e)
     | None \<Rightarrow>
         (let body = (if length (msg_Body msg) \<noteq> 0 then fst (Encode be (msg_Body msg) 0) else []);
              vs = [DByte (orderByte be), DByte (msg_Type msg), DByte (msg_Flags msg), DByte 1, DUint32 (of_nat (length body)),
                DUint32 (msg_serial msg), DSlice headerType (map headerVal (msg_Headers msg))];
              hdr = fst (Encode be vs 0);
              buf = hdr @ replicate (padding (length hdr) 0 8) 0 @ body
          in if length buf > 2 ^ 27 then Inl (InvalidMessageError ''message is too long'') else Inr buf))"

section \<open>Reading\<close>

text \<open>
  \<open>ReadInvalid\<close> is an \<open>InvalidMessageError\<close>, after which the connection reads on; after another error it is
  closed. The panic of \<open>dec.align\<close> outside of \<open>Decode\<close> is not recovered.
\<close>

datatype read_result =
    ReadMsg Message bytes
  | ReadInvalid string bytes
  | ReadErr dbus_error
  | ReadPanic go_panic

text \<open>\<open>Store(vs, &headers)\<close>: a slice of two interfaces is stored into a \<open>header\<close>, field by field.\<close>

definition storeMismatch :: dbus_error where
  "storeMismatch = DbusErr (ErrNew ''dbus.Store: type mismatch'')"

fun asByte :: "dval \<Rightarrow> dbus_error + 8 word" where
  "asByte (DByte b) = Inr b"
| "asByte _ = Inl storeMismatch"

fun asUint32 :: "dval \<Rightarrow> dbus_error + 32 word" where
  "asUint32 (DUint32 w) = Inr w"
| "asUint32 _ = Inl storeMismatch"

fun asVariant :: "dval \<Rightarrow> dbus_error + variant" where
  "asVariant (DVariant sg v) = Inr (sg, v)"
| "asVariant _ = Inl storeMismatch"

fun ifaceValue :: "dval \<Rightarrow> dval" where
  "ifaceValue (DIface v) = v"
| "ifaceValue v = v"

definition storeHeader :: "dval \<Rightarrow> dbus_error + 8 word \<times> variant" where
  "storeHeader h = (case h of
       DSlice t vs \<Rightarrow> if t \<noteq> TInterface \<or> length vs \<noteq> 2 then Inl storeMismatch
         else bindD (asByte (ifaceValue (vs ! 0))) (\<lambda>f. bindD (asVariant (ifaceValue (vs ! 1))) (\<lambda>v. Inr (f, v)))
     | _ \<Rightarrow> Inl storeMismatch)"

fun storeHeaderList :: "dval list \<Rightarrow> dbus_error + (8 word \<times> variant) list" where
  "storeHeaderList [] = Inr []"
| "storeHeaderList (v # vs) = bindD (storeHeader v) (\<lambda>h. bindD (storeHeaderList vs) (\<lambda>hs. Inr (h # hs)))"

definition storeHeaders :: "dval list \<Rightarrow> dbus_error + (8 word \<times> variant) list" where
  "storeHeaders vs = (if length vs \<noteq> 1 then Inl (DbusErr (ErrNew ''dbus.Store: length mismatch''))
     else (case vs ! 0 of DSlice t hs \<Rightarrow> storeHeaderList hs | _ \<Rightarrow> Inl storeMismatch))"

text \<open>\<open>Store(vs, &typ, &flags, &proto, &length, &msg.serial)\<close>\<close>

definition storeFixed :: "dval list \<Rightarrow> dbus_error + Message \<times> 32 word" where
  "storeFixed vs = (if length vs \<noteq> 5 then Inl (DbusErr (ErrNew ''dbus.Store: length mismatch''))
     else bindD (asByte (vs ! 0)) (\<lambda>typ. bindD (asByte (vs ! 1)) (\<lambda>flags. bindD (asByte (vs ! 2)) (\<lambda>proto.
       bindD (asUint32 (vs ! 3)) (\<lambda>len. bindD (asUint32 (vs ! 4)) (\<lambda>serial.
         Inr (\<lparr>msg_Type = typ, msg_Flags = flags, msg_Headers = [], msg_Body = [], msg_serial = serial\<rparr>, len)))))))"

definition decodeBody :: "bool \<Rightarrow> Message \<Rightarrow> bytes \<Rightarrow> bytes \<Rightarrow> read_result option" where
  "decodeBody be msg body rest = (case IsValid msg of Some e \<Rightarrow> Some (ReadInvalid e rest)
     | None \<Rightarrow> (let sg = headerSignature msg in
         if sg \<noteq> '''' then map_option (\<lambda>r. case r of Inl e \<Rightarrow> ReadErr e
             | Inr (vs, _) \<Rightarrow> ReadMsg (msg\<lparr>msg_Body := vs\<rparr>) rest) (Decode be sg (body, 0))
         else Some (ReadMsg msg rest)))"

text \<open>From the length of the headers on; \<open>len\<close> is the length of the body.\<close>

definition decodeHeaders :: "bool \<Rightarrow> Message \<Rightarrow> 32 word \<Rightarrow> bytes \<Rightarrow> read_result option" where
  "decodeHeaders be msg len rd = (case readFull 4 rd of Inl e \<Rightarrow> Some (ReadErr e)
     | Inr (b, rd') \<Rightarrow>
         if getNative be b + len + 16 > (2 ^ 27 :: 32 word) then Some (ReadInvalid ''message is too long'' rd')
         else Option.bind (Decode be ''a(yv)'' (b @ rd', 12)) (\<lambda>r. case r of
             Inl e \<Rightarrow> Some (ReadErr e)
           | Inr (vs, st) \<Rightarrow> (case storeHeaders vs of Inl e \<Rightarrow> Some (ReadErr e)
               | Inr hs \<Rightarrow> (case alignD 8 st of Inl e \<Rightarrow> Some (ReadPanic (UserPanic ''EOF''))
                   | Inr (rd'', _) \<Rightarrow> (case readFull (unat len) rd'' of Inl e \<Rightarrow> Some (ReadErr e)
                       | Inr (body, rest) \<Rightarrow> decodeBody be (msg\<lparr>msg_Headers := go_of_list hs\<rparr>) body rest)))))"

definition DecodeMessage :: "bytes \<Rightarrow> read_result option" where
  "DecodeMessage rd = (case rd of [] \<Rightarrow> Some (ReadErr errEOF)
     | b # rd \<Rightarrow>
         if b \<noteq> orderByte False \<and> b \<noteq> orderByte True then Some (ReadInvalid ''invalid byte order'' rd)
         else (let be = (b = orderByte True) in
           Option.bind (Decode be ''yyyuu'' (rd, 1)) (\<lambda>r. case r of
               Inl e \<Rightarrow> Some (ReadErr e)
             | Inr (vs, st) \<Rightarrow> (case storeFixed vs of Inl e \<Rightarrow> Some (ReadErr e)
                 | Inr (msg, len) \<Rightarrow> decodeHeaders be msg len (fst st)))))"

section \<open>Round trip\<close>

text \<open>The messages whose parts the format can carry, with the signatures that \<open>MakeVariant\<close> and \<open>SignatureOf\<close> give.\<close>

definition wf_message :: "bool \<Rightarrow> Message \<Rightarrow> bool" where
  "wf_message be msg \<longleftrightarrow> wf_gomap (msg_Headers msg) \<and>
     (\<forall>(k, sg, v) \<in> set (msg_Headers msg). getSignature (typeOf v) = Ok sg \<and> wfVal v) \<and>
     (\<forall>v \<in> set (msg_Body msg). wfVal v \<and> nesting (wireOf (typeOf v)) \<le> 64) \<and>
     SignatureOf (map typeOf (msg_Body msg)) = Ok (headerSignature msg) \<and> snd (Encode be (msg_Body msg) 0) = None"

lemma enc_values_append: "enc_values be d (as @ bs) = seqE (enc_values be d as) (enc_values be d bs)"
proof (induction as)
  case Nil
  then show ?case by (auto simp: fun_eq_iff seqE_def emitE_def split: prod.split)
next
  case (Cons a as)
  then show ?case by (auto simp: fun_eq_iff seqE_def add.assoc split: prod.split option.split)
qed

lemma enc_fixed:
  "enc_values be 0 [DByte ob, DByte ty, DByte fl, DByte pr, DUint32 l, DUint32 s] 0 =
     (ob # ty # fl # pr # put32 be l @ put32 be s, None)"
  "enc_values be 0 [DByte ty, DByte fl, DByte pr, DUint32 l, DUint32 s] 1 = (ty # fl # pr # put32 be l @ put32 be s, None)"
  by (simp_all add: seqE_def alignE_Ok emitE_def encUint32_def)

text \<open>Encoders that do not fail at any position.\<close>

definition totalE :: "enc \<Rightarrow> bool" where
  "totalE m \<longleftrightarrow> (\<forall>pos. \<exists>bs. m pos = (bs, None))"

lemma totalE_seqE: "totalE a \<Longrightarrow> totalE b \<Longrightarrow> totalE (seqE a b)"
  unfolding totalE_def by (metis seqE_Ok)

lemma totalE_basic [simp]: "totalE (emitE bs)" "totalE (alignE n)"
  by (simp_all add: totalE_def emitE_def alignE_Ok)

lemma totalE_strings [simp]: "totalE (encSignature s)" "totalE (encUint32 be w)" "totalE (encString be s)"
  by (simp_all add: encSignature_def encUint32_def encString_def totalE_seqE)

lemma enc_basic_total: "basicType (typeOf v) \<Longrightarrow> typeOf v \<noteq> TVariant \<Longrightarrow> totalE (enc_encode be d v)"
  by (cases v) (simp_all add: totalE_seqE)

definition wf_header :: "8 word \<times> variant \<Rightarrow> bool" where
  "wf_header h \<longleftrightarrow> (case h of (k, sg, v) \<Rightarrow> basicType (typeOf v) \<and> typeOf v \<noteq> TVariant \<and> getSignature (typeOf v) = Ok sg \<and> wfVal v)"

lemma checkHeaders_basic: "checkHeaders hs = None \<Longrightarrow> (k, sg, v) \<in> set hs \<Longrightarrow> basicType (typeOf v) \<and> typeOf v \<noteq> TVariant"
proof (induction hs)
  case (Cons h hs)
  have "fieldTypes k = Some (typeOf v) \<Longrightarrow> basicType (typeOf v) \<and> typeOf v \<noteq> TVariant"
    by (auto simp: fieldTypes_def split: if_splits)
  then show ?case using Cons by (cases h) (auto split: if_splits)
qed simp

lemma wf_message_headers:
  assumes "wf_message be msg" "IsValid msg = None"
  shows "\<forall>h \<in> set (msg_Headers msg). wf_header h"
proof -
  have "checkHeaders (msg_Headers msg) = None"
    using assms(2) by (auto simp: IsValid_def Let_def split: if_splits option.splits)
  then show ?thesis using assms(1) checkHeaders_basic [of "msg_Headers msg"]
    by (auto simp: wf_message_def wf_header_def simp del: basicType.simps)
qed

lemma enc_header_total: "wf_header h \<Longrightarrow> totalE (enc_encode be 1 (headerVal h))"
  using enc_basic_total [of "snd (snd h)" be 3]
  by (cases h) (simp add: wf_header_def headerVal_def totalE_seqE numeral_eq_Suc del: basicType.simps)

lemma enc_headers_total: "\<forall>h \<in> set hs. wf_header h \<Longrightarrow> totalE (enc_values be 1 (map headerVal hs))"
  by (induction hs) (simp_all add: totalE_seqE enc_header_total del: One_nat_def)

lemma enc_header_array:
  assumes "\<forall>h \<in> set hs. wf_header h"
  obtains buf where "enc_encode be 0 (DSlice headerType (map headerVal hs)) 12 = (put32 be (of_nat (length buf)) @ buf, None)"
proof -
  obtain buf where "enc_values be 1 (map headerVal hs) 16 = (buf, None)" using enc_headers_total [OF assms] unfolding totalE_def by blast
  moreover have "padding 12 0 4 = 0" "padding 12 4 8 = 0" "padding 16 0 8 = 0" by (simp_all add: padding_def)
  ultimately have "enc_encode be 0 (DSlice headerType (map headerVal hs)) 12 = (put32 be (of_nat (length buf)) @ buf, None)"
    by (simp add: seqE_def alignE_Ok emitE_def encCounted_def encUint32_def Let_def)
  then show thesis by (rule that)
qed

lemma wf_headerVal:
  assumes "wf_header h"
  shows "wfVal (headerVal h)" "typeOf (headerVal h) = headerType"
    "storeHeader (decoded (headerVal h)) = Inr h"
proof -
  obtain k sg v where h: "h = (k, sg, v)" by (cases h) auto
  have v: "basicType (typeOf v)" "typeOf v \<noteq> TVariant" "getSignature (typeOf v) = Ok sg" "wfVal v" using assms h by (auto simp: wf_header_def)
  have "wireOf (typeOf v) = typeOf v" "decoded v = v" using v(1,2) by (cases v; simp)+
  moreover have "length sg = 1" using sigToType_basic [OF v(1)] getSignature_wireOf [OF v(3)] calculation by simp
  moreover have "nesting (typeOf v) = 0" using basic_wire [OF v(1)] by simp
  ultimately show "wfVal (headerVal h)" "typeOf (headerVal h) = headerType" "storeHeader (decoded (headerVal h)) = Inr h"
    using v(3,4) h by (simp_all add: headerVal_def storeHeader_def)
qed

lemma storeHeaderList_decoded: "\<forall>h \<in> set hs. wf_header h \<Longrightarrow> storeHeaderList (map decoded (map headerVal hs)) = Inr hs"
  by (induction hs) (simp_all add: wf_headerVal)

lemma decode_header_array:
  assumes "\<forall>h \<in> set hs. wf_header h" "enc_encode be 0 (DSlice headerType (map headerVal hs)) 12 = (bs, None)" "length bs < 2 ^ 32"
  shows "Decode be ''a(yv)'' (bs @ rest, 12) = Some (Inr ([DSlice interfacesType (map decoded (map headerVal hs))], rest, 12 + length bs))"
proof -
  have "Decode be ''a(yv)'' (bs @ rest, 12) = Some (Inr (map decoded [DSlice headerType (map headerVal hs)], rest, 12 + length bs))"
  proof (rule Decode_Encode)
    show "\<forall>v \<in> set [DSlice headerType (map headerVal hs)]. wfVal v \<and> nesting (wireOf (typeOf v)) \<le> 64"
      using assms(1) wf_headerVal by auto
    show "SignatureOf (map typeOf [DSlice headerType (map headerVal hs)]) = Ok ''a(yv)''" by (simp add: SignatureOf_def)
    show "Encode be [DSlice headerType (map headerVal hs)] 12 = (bs, None)"
      using assms(2) by (simp add: Encode_def seqE_def emitE_def del: enc_encode.simps)
  qed fact
  then show ?thesis by simp
qed

lemma decode_fixed:
  "Decode be ''yyyuu'' (ty # fl # pr # put32 be l @ put32 be s @ rest, 1) =
     Some (Inr ([DByte ty, DByte fl, DByte pr, DUint32 l, DUint32 s], rest, 12))"
  using Decode_Encode [of "[DByte ty, DByte fl, DByte pr, DUint32 l, DUint32 s]" "''yyyuu''" be 1 "ty # fl # pr # put32 be l @ put32 be s" rest]
    enc_fixed(2) [of be ty fl pr l s] by (simp add: SignatureOf_def Encode_def del: enc_values.simps)

lemma decode_body:
  assumes "wf_message be msg" "IsValid (msg\<lparr>msg_Body := []\<rparr>) = None" "Encode be (msg_Body msg) 0 = (body, None)" "length body < 2 ^ 32"
  shows "decodeBody be (msg\<lparr>msg_Body := []\<rparr>) body rest = Some (ReadMsg (msg\<lparr>msg_Body := map decoded (msg_Body msg)\<rparr>) rest)"
proof -
  have sg: "headerSignature (msg\<lparr>msg_Body := []\<rparr>) = headerSignature msg" by (simp add: headerSignature_def)
  have "Decode be (headerSignature msg) (body, 0) = Some (Inr (map decoded (msg_Body msg), [], length body))"
    using Decode_Encode [of "msg_Body msg" "headerSignature msg" be 0 body "[]"] assms by (simp add: wf_message_def)
  moreover have "msg_Body msg = []" if "headerSignature msg = ''''"
    using assms(1) that SignatureOf_values(1) [of "msg_Body msg" "''''"] by (cases "msg_Body msg") (auto simp: wf_message_def)
  ultimately show ?thesis using assms(2) sg by (auto simp: decodeBody_def Let_def)
qed

lemma IsValid_no_body: "IsValid msg = None \<Longrightarrow> IsValid (msg\<lparr>msg_Body := []\<rparr>) = None"
  by (auto simp: IsValid_def Let_def headerString_def headerPath_def split: option.splits if_splits)

lemma no_overflow:
  assumes "16 + h + p + b \<le> (2 ^ 27 :: nat)"
  shows "\<not> (of_nat h + of_nat b + 16 :: 32 word) > 2 ^ 27" "unat (of_nat b :: 32 word) = b"
proof -
  have small: "unat (of_nat n :: 32 word) = n" if "n \<le> 2 ^ 27" for n :: nat
    using that by (simp add: unat_of_nat take_bit_nat_eq_self)
  show "unat (of_nat b :: 32 word) = b" using assms by (intro small) simp
  have "(of_nat h + of_nat b + 16 :: 32 word) = of_nat (h + b + 16)" by simp
  moreover have "unat (of_nat (h + b + 16) :: 32 word) = h + b + 16" using assms by (intro small) simp
  ultimately show "\<not> (of_nat h + of_nat b + 16 :: 32 word) > 2 ^ 27" using assms by (simp only: word_less_nat_alt) simp
qed


lemma enc_slice_last: "enc_values be d [v] = enc_encode be d v"
  by (auto simp: fun_eq_iff seqE_def emitE_def split: prod.split option.split)

text \<open>What is written: twelve bytes, the headers with their length, padding, and the body.\<close>

definition fixedBytes :: "bool \<Rightarrow> Message \<Rightarrow> bytes \<Rightarrow> bytes" where
  "fixedBytes be msg body = orderByte be # msg_Type msg # msg_Flags msg # 1 # put32 be (of_nat (length body)) @ put32 be (msg_serial msg)"

lemma EncodeTo_layout:
  assumes "wf_message be msg" "EncodeTo be msg = Inr bs"
  obtains buf body where "Encode be (msg_Body msg) 0 = (body, None)"
    "enc_encode be 0 (DSlice headerType (map headerVal (msg_Headers msg))) 12 = (put32 be (of_nat (length buf)) @ buf, None)"
    "bs = fixedBytes be msg body @ put32 be (of_nat (length buf)) @ buf @ replicate (padding (16 + length buf) 0 8) 0 @ body"
    "16 + length buf + padding (16 + length buf) 0 8 + length body \<le> 2 ^ 27"
proof -
  obtain body where body: "Encode be (msg_Body msg) 0 = (body, None)"
    using assms(1) by (cases "Encode be (msg_Body msg) 0") (auto simp: wf_message_def)
  have valid: "IsValid msg = None" using assms(2) by (auto simp: EncodeTo_def split: option.splits)
  obtain buf where buf: "enc_encode be 0 (DSlice headerType (map headerVal (msg_Headers msg))) 12 = (put32 be (of_nat (length buf)) @ buf, None)"
    using enc_header_array [OF wf_message_headers [OF assms(1) valid]] by blast
  have "Encode be [DByte (orderByte be), DByte (msg_Type msg), DByte (msg_Flags msg), DByte 1, DUint32 (of_nat (length body)),
      DUint32 (msg_serial msg), DSlice headerType (map headerVal (msg_Headers msg))] 0 =
      (fixedBytes be msg body @ put32 be (of_nat (length buf)) @ buf, None)"
    using enc_values_append [of be 0 "[DByte (orderByte be), DByte (msg_Type msg), DByte (msg_Flags msg), DByte 1,
        DUint32 (of_nat (length body)), DUint32 (msg_serial msg)]" "[DSlice headerType (map headerVal (msg_Headers msg))]"]
      enc_fixed(1) buf enc_slice_last by (simp add: Encode_def seqE_def fixedBytes_def del: enc_values.simps enc_encode.simps)
  moreover have "(if length (msg_Body msg) \<noteq> 0 then fst (Encode be (msg_Body msg) 0) else []) = body"
    using body by (auto simp: Encode_def emitE_def)
  ultimately show thesis using assms(2) valid that [OF body buf]
    by (auto simp: EncodeTo_def Let_def fixedBytes_def split: if_splits)
qed

lemma DecodeMessage_fixed:
  "DecodeMessage (fixedBytes be msg body @ rd) = decodeHeaders be (msg\<lparr>msg_Headers := [], msg_Body := []\<rparr>) (of_nat (length body)) rd"
proof -
  have "storeFixed [DByte (msg_Type msg), DByte (msg_Flags msg), DByte 1, DUint32 (of_nat (length body)), DUint32 (msg_serial msg)] =
      Inr (msg\<lparr>msg_Headers := [], msg_Body := []\<rparr>, of_nat (length body))" by (simp add: storeFixed_def)
  then show ?thesis
    using decode_fixed [of be "msg_Type msg" "msg_Flags msg" 1 "of_nat (length body)" "msg_serial msg" rd]
    by (cases be) (simp_all add: DecodeMessage_def orderByte_def fixedBytes_def Let_def)
qed

text \<open>Reading the headers of such a message, up to the padding.\<close>

lemma decodeHeaders_array:
  assumes "wf_message be msg" "IsValid msg = None"
    "enc_encode be 0 (DSlice headerType (map headerVal (msg_Headers msg))) 12 = (put32 be (of_nat (length buf)) @ buf, None)"
    "16 + length buf + p + n \<le> 2 ^ 27"
  shows "decodeHeaders be (msg\<lparr>msg_Headers := [], msg_Body := []\<rparr>) (of_nat n) (put32 be (of_nat (length buf)) @ buf @ rest) =
    (case alignD 8 (rest, 16 + length buf) of Inl e \<Rightarrow> Some (ReadPanic (UserPanic ''EOF''))
     | Inr (rd, _) \<Rightarrow> (case readFull n rd of Inl e \<Rightarrow> Some (ReadErr e)
         | Inr (body, rest') \<Rightarrow> decodeBody be (msg\<lparr>msg_Body := []\<rparr>) body rest'))"
proof -
  note no = no_overflow [OF assms(4)] and hs = wf_message_headers [OF assms(1,2)]
  have "Decode be ''a(yv)'' ((put32 be (of_nat (length buf)) @ buf) @ rest, 12) =
      Some (Inr ([DSlice interfacesType (map decoded (map headerVal (msg_Headers msg)))], rest, 12 + length (put32 be (of_nat (length buf)) @ buf)))"
    by (rule decode_header_array [OF hs assms(3)]) (use assms(4) in simp)
  moreover have "storeHeaders [DSlice interfacesType (map decoded (map headerVal (msg_Headers msg)))] = Inr (msg_Headers msg)"
    using storeHeaderList_decoded [OF hs] by (simp add: storeHeaders_def)
  moreover have "go_of_list (msg_Headers msg) = msg_Headers msg"
    using assms(1) by (intro go_of_list_distinct) (simp add: wf_message_def wf_gomap_def)
  moreover have "readFull 4 (put32 be (of_nat (length buf)) @ buf @ rest) = Inr (put32 be (of_nat (length buf)), buf @ rest)"
    by (simp add: readFull_def)
  ultimately show ?thesis using no by (simp add: decodeHeaders_def split: sum.split prod.split)
qed

lemma DecodeMessage_EncodeTo:
  assumes "wf_message be msg" "EncodeTo be msg = Inr bs"
  shows "DecodeMessage (bs @ rest) = Some (ReadMsg (msg\<lparr>msg_Body := map decoded (msg_Body msg)\<rparr>) rest)"
proof -
  have valid: "IsValid msg = None" using assms(2) by (auto simp: EncodeTo_def split: option.splits)
  obtain buf body where l: "Encode be (msg_Body msg) 0 = (body, None)"
    "enc_encode be 0 (DSlice headerType (map headerVal (msg_Headers msg))) 12 = (put32 be (of_nat (length buf)) @ buf, None)"
    "bs = fixedBytes be msg body @ put32 be (of_nat (length buf)) @ buf @ replicate (padding (16 + length buf) 0 8) 0 @ body"
    "16 + length buf + padding (16 + length buf) 0 8 + length body \<le> 2 ^ 27"
    by (rule EncodeTo_layout [OF assms]) (rule that)
  have "length body < 2 ^ 32" using l(4) by simp
  note decode_body [OF assms(1) IsValid_no_body [OF valid] l(1) this, of rest]
  moreover have "alignD 8 (replicate (padding (16 + length buf) 0 8) 0 @ body @ rest, 16 + length buf) =
      Inr (body @ rest, 16 + length buf + padding (16 + length buf) 0 8)" by (rule alignD_replicate)
  moreover have "readFull (length body) (body @ rest) = Inr (body, rest)" by (simp add: readFull_def)
  ultimately show ?thesis
    using DecodeMessage_fixed decodeHeaders_array [OF assms(1) valid l(2,4), of "replicate (padding (16 + length buf) 0 8) 0 @ body @ rest"] l(3)
    by simp
qed

section \<open>Properties\<close>

text \<open>C36. A message that EncodeTo accepts is read back by DecodeMessage in either byte order, whatever comes after
  it on the connection: type, flags, serial and headers are the same, and the body is the same up to what
  the decoder makes of structs, pointers and descriptors. (EncodeTo ignores the errors of the encoder,
  so a body that cannot be encoded is excluded here.)\<close>

theorem dbus_message_roundtrip:
  assumes "wf_message be msg" "EncodeTo be msg = Inr bs"
  shows "DecodeMessage (bs @ rest) = Some (ReadMsg (msg\<lparr>msg_Body := map decoded (msg_Body msg)\<rparr>) rest)"
  using assms by (rule DecodeMessage_EncodeTo)

definition passthroughExample :: Message where
  "passthroughExample = \<lparr>msg_Type = TypeMethodCall, msg_Flags = 0,
     msg_Headers = [(FieldPath, ''o'', DObjectPath ''/a''), (FieldMember, ''s'', DString ''m''), (FieldSignature, ''g'', DSignature ''sas'')],
     msg_Body = [DString ''ipv4'', DSlice TString [DString ''-L'']], msg_serial = 7\<rparr>"

theorem dbus_message_roundtrip_witness:
  "\<exists>bs. EncodeTo False passthroughExample = Inr bs \<and> DecodeMessage (bs @ [1, 2]) = Some (ReadMsg passthroughExample [1, 2])"
proof -
  have wf: "wf_message False passthroughExample" by code_simp
  have "\<not> isl (EncodeTo False passthroughExample)" by code_simp
  then obtain bs where bs: "EncodeTo False passthroughExample = Inr bs" by (cases "EncodeTo False passthroughExample") auto
  have "passthroughExample\<lparr>msg_Body := map decoded (msg_Body passthroughExample)\<rparr> = passthroughExample"
    by (simp add: passthroughExample_def)
  then show ?thesis using dbus_message_roundtrip [OF wf bs, of "[1, 2]"] bs by auto
qed

lemma huge_body_accepted:
  assumes "length rd < 2 ^ 31"
  shows "decodeHeaders be msg 0xFFFFFFF0 (put32 be 0 @ rd) = Some (ReadErr (if rd = [] then errEOF else errUnexpectedEOF))"
proof -
  have "enc_encode be 0 (DSlice headerType (map headerVal [])) 12 = (put32 be 0, None)"
    by (simp add: seqE_def alignE_Ok emitE_def encCounted_def encUint32_def Let_def padding_def)
  then have "Decode be ''a(yv)'' (put32 be 0 @ rd, 12) = Some (Inr ([DSlice interfacesType []], rd, 16))"
    using decode_header_array [of "[]" be "put32 be 0" rd] by simp
  moreover have "readFull 4 (put32 be 0 @ rd) = Inr (put32 be 0, rd)" by (simp add: readFull_def)
  moreover have "readFull (unat (0xFFFFFFF0 :: 32 word)) rd = Inl (if rd = [] then errEOF else errUnexpectedEOF)"
    using assms by (simp add: readFull_def)
  moreover have "\<not> (0 + 0xFFFFFFF0 + 16 :: 32 word) > 2 ^ 27" by simp
  ultimately show ?thesis by (simp add: decodeHeaders_def storeHeaders_def)
qed

lemma truncated_padding_panics:
  assumes "wf_message be msg \<and> EncodeTo be msg = Inr bs"
  shows "\<exists>buf body pad. bs = fixedBytes be msg body @ put32 be (of_nat (length buf)) @ buf @ replicate pad 0 @ body \<and>
    pad = padding (16 + length buf) 0 8 \<and> (\<forall>j < pad. DecodeMessage (take (16 + length buf + j) bs) = Some (ReadPanic (UserPanic ''EOF'')))"
proof -
  have a: "wf_message be msg" "EncodeTo be msg = Inr bs" using assms by auto
  have valid: "IsValid msg = None" using a(2) by (auto simp: EncodeTo_def split: option.splits)
  obtain buf body where l: "Encode be (msg_Body msg) 0 = (body, None)"
    "enc_encode be 0 (DSlice headerType (map headerVal (msg_Headers msg))) 12 = (put32 be (of_nat (length buf)) @ buf, None)"
    "bs = fixedBytes be msg body @ put32 be (of_nat (length buf)) @ buf @ replicate (padding (16 + length buf) 0 8) 0 @ body"
    "16 + length buf + padding (16 + length buf) 0 8 + length body \<le> 2 ^ 27"
    by (rule EncodeTo_layout [OF a]) (rule that)
  have "DecodeMessage (take (16 + length buf + j) bs) = Some (ReadPanic (UserPanic ''EOF''))" if j: "j < padding (16 + length buf) 0 8" for j
  proof -
    have "length (fixedBytes be msg body) = 12" by (simp add: fixedBytes_def)
    then have "take (16 + length buf + j) bs = fixedBytes be msg body @ put32 be (of_nat (length buf)) @ buf @ replicate j 0"
      using l(3) j by simp
    moreover have "\<exists>e. alignD 8 (replicate j 0, 16 + length buf) = Inl e" using j
      by (auto simp: alignD_def readD_def readFull_def padding_def Let_def split: if_splits)
    ultimately show ?thesis
      using DecodeMessage_fixed decodeHeaders_array [OF a(1) valid l(2,4), of "replicate j 0"] by auto
  qed
  then show ?thesis using l(3) by blast
qed

text \<open>Where reading from a peer goes wrong. The test that a message is not longer than 128 MB adds in 32 bits: a
  body of almost 4 GB passes it, and the reader waits for it (here the connection ends first). A
  connection that ends in the padding after the headers of a valid message is not an error but a panic that nobody
  recovers. And an array of empty structs whose length is not zero makes the decoder loop for ever.\<close>

lemma dbus_read_faults:
  "(length rd < 2 ^ 31 \<longrightarrow> decodeHeaders be msg 0xFFFFFFF0 (put32 be 0 @ rd) =
      Some (ReadErr (if rd = [] then errEOF else errUnexpectedEOF))) \<and>
   (wf_message be msg \<and> EncodeTo be msg = Inr bs \<longrightarrow>
      (\<exists>buf body pad. bs = fixedBytes be msg body @ put32 be (of_nat (length buf)) @ buf @ replicate pad 0 @ body \<and>
        pad = padding (16 + length buf) 0 8 \<and>
        (\<forall>j < pad. DecodeMessage (take (16 + length buf + j) bs) = Some (ReadPanic (UserPanic ''EOF''))))) \<and>
   (n \<noteq> 0 \<longrightarrow> Decode be ''a()'' (put32 be n @ [0, 0, 0, 0] @ rest, 0) = None)"
  using huge_body_accepted truncated_padding_panics Decode_hangs by blast

text \<open>An argument that cannot be encoded, here a nil pointer, is left out of the body without an error, and the
  receiver cannot read the message.\<close>

lemma encode_error_sent:
  "case EncodeTo False (passthroughExample\<lparr>msg_Headers := [(FieldPath, ''o'', DObjectPath ''/a''), (FieldMember, ''s'', DString ''m''),
       (FieldSignature, ''g'', DSignature ''s'')], msg_Body := [DPtr TString None]\<rparr>) of
     Inr bs \<Rightarrow> DecodeMessage bs = Some (ReadErr (FormatError ''unexpected EOF'')) | Inl e \<Rightarrow> False"
  by code_simp

end
