(* ===== verification/Dbus_Transport.thy ===== *)
theory Dbus_Transport
  imports Dbus_Message
begin

text \<open>
  The transport of a D-Bus connection: addresses and their keys (\<open>godbus/dbus/conn.go\<close>), and messages on a unix
  socket (\<open>transport_unix.go\<close>, \<open>transport_generic.go\<close>).

  A connection that is read is the bytes that it will deliver before its end; the descriptors that come with them out
  of band are a parameter, and so is what a write gives. Dialling is a function on the world.
\<close>

unbundle bit_operations_syntax

section \<open>Addresses\<close>

definition indexStr :: "string \<Rightarrow> string \<Rightarrow> nat option" where
  "indexStr s key = find (\<lambda>i. take (length key) (drop i s) = key) [0..<Suc (length s)]"

definition getKey :: "string \<Rightarrow> string \<Rightarrow> string go" where
  "getKey s key = (case indexStr s key of None \<Rightarrow> Ok ''''
     | Some i \<Rightarrow>
         if i + length key + 1 \<ge> length s \<or> s ! (i + length key) \<noteq> CHR ''='' then Ok ''''
         else (let j = (case indexStr s '','' of None \<Rightarrow> length s | Some j \<Rightarrow> j); a = i + length key + 1 in
           if a \<le> j then Ok (take (j - a) (drop a s)) else Panic IndexOutOfRange))"

definition newUnixTransport :: "(string \<Rightarrow> 'w \<Rightarrow> 'c go \<times> 'w) \<Rightarrow> string \<Rightarrow> 'w \<Rightarrow> 'c go \<times> 'w" where
  "newUnixTransport DialUnix keys =
     bindG (liftG (getKey keys ''abstract'')) (\<lambda>abstract.
     bindG (liftG (getKey keys ''path'')) (\<lambda>path.
       if abstract = '''' \<and> path = '''' then failG (ErrNew ''dbus: invalid address (neither path nor abstract set)'')
       else if path = '''' then DialUnix (''@'' @ abstract)
       else if abstract = '''' then DialUnix path
       else failG (ErrNew ''dbus: invalid address (both path and abstract set)'')))"

text \<open>The loop of \<open>getTransport\<close>; \<open>err\<close> is the last error. On Linux \<open>transports\<close> has the entry \<open>unix\<close> only.\<close>

fun dialAddresses :: "(string \<Rightarrow> 'w \<Rightarrow> 'c go \<times> 'w) \<Rightarrow> string list \<Rightarrow> goerr \<Rightarrow> 'w \<Rightarrow> 'c go \<times> 'w" where
  "dialAddresses DialUnix [] err = failG err"
| "dialAddresses DialUnix (v # vs) err = (case indexStr v '':'' of
     None \<Rightarrow> dialAddresses DialUnix vs (ErrNew ''dbus: invalid bus address (no transport)'')
   | Some i \<Rightarrow>
       if take i v \<noteq> ''unix'' then dialAddresses DialUnix vs (ErrNew ''dbus: invalid bus address (invalid or unsupported transport)'')
       else tryG (newUnixTransport DialUnix (drop (i + 1) v)) retG (\<lambda>e. dialAddresses DialUnix vs e))"

definition getTransport :: "(string \<Rightarrow> 'w \<Rightarrow> 'c go \<times> 'w) \<Rightarrow> string \<Rightarrow> 'w \<Rightarrow> 'c go \<times> 'w" where
  "getTransport DialUnix address = dialAddresses DialUnix (splitOn (CHR '';'') address) (ErrNew '''')"

definition defaultSystemBusAddress :: string where
  "defaultSystemBusAddress = ''unix:path=/var/run/dbus/system_bus_socket''"

definition SystemBusPrivate :: "(string \<Rightarrow> 'w \<Rightarrow> 'c go \<times> 'w) \<Rightarrow> string \<Rightarrow> 'w \<Rightarrow> 'c go \<times> 'w" where
  "SystemBusPrivate DialUnix env_address =
     getTransport DialUnix (if env_address \<noteq> '''' then env_address else defaultSystemBusAddress)"

section \<open>Reading a message\<close>

definition unixFDCount :: "(8 word \<times> variant) list \<Rightarrow> 32 word" where
  "unixFDCount hs = foldl (\<lambda>n h. if fst h = FieldUnixFDs then (case snd (snd h) of DUint32 w \<Rightarrow> w | _ \<Rightarrow> 0) else n) 0 hs"

text \<open>Indices in the body become the descriptors; an index that is not smaller than their number is an invalid message.\<close>

fun substituteFDs :: "32 word \<Rightarrow> 32 word list \<Rightarrow> dval list \<Rightarrow> string + dval list go" where
  "substituteFDs n fds [] = Inr (Ok [])"
| "substituteFDs n fds (v # vs) = (case v of
     DUnixFDIndex j \<Rightarrow>
       if j \<ge> n then Inl ''invalid index for unix fd''
       else if unat j \<ge> length fds then Inr (Panic IndexOutOfRange)
       else (case substituteFDs n fds vs of Inl e \<Rightarrow> Inl e | Inr r \<Rightarrow> Inr (map_go_res (\<lambda>ws. DUnixFD (fds ! unat j) # ws) r))
   | _ \<Rightarrow> (case substituteFDs n fds vs of Inl e \<Rightarrow> Inl e | Inr r \<Rightarrow> Inr (map_go_res (\<lambda>ws. v # ws) r)))"

text \<open>The message in the buffer \<open>all\<close>, with the rest of the connection.\<close>

definition finishRead :: "bytes \<Rightarrow> (Message \<Rightarrow> read_result) \<Rightarrow> read_result \<Rightarrow> read_result" where
  "finishRead rest k r = (case r of
       ReadMsg msg _ \<Rightarrow> k msg | ReadInvalid e _ \<Rightarrow> ReadInvalid e rest | ReadErr e \<Rightarrow> ReadErr e | ReadPanic p \<Rightarrow> ReadPanic p)"

definition readAll :: "bool \<Rightarrow> (dbus_error + 32 word list) \<Rightarrow> 32 word \<Rightarrow> bytes \<Rightarrow> bytes \<Rightarrow> read_result option" where
  "readAll hasUnixFDs rights unixfds buf rest =
     (if unixfds \<noteq> 0 then
        (if \<not> hasUnixFDs then Some (ReadErr (DbusErr (ErrNew ''dbus: got unix fds on unsupported transport'')))
         else (case rights of Inl e \<Rightarrow> Some (ReadErr e)
           | Inr fds \<Rightarrow> map_option (finishRead rest (\<lambda>msg. case substituteFDs unixfds fds (msg_Body msg) of
                 Inl e \<Rightarrow> ReadInvalid e rest
               | Inr (Ok vs) \<Rightarrow> ReadMsg (msg\<lparr>msg_Body := vs\<rparr>) rest
               | Inr _ \<Rightarrow> ReadPanic IndexOutOfRange)) (DecodeMessage buf)))
      else map_option (finishRead rest (\<lambda>msg. ReadMsg msg rest)) (DecodeMessage buf))"

text \<open>
  \<open>ReadMessage\<close> of the unix transport. The sizes are 32-bit numbers, also where they are added: the slice expressions on the
  buffer may then be out of its bounds.
\<close>

definition roundUp8 :: "32 word \<Rightarrow> 32 word" where
  "roundUp8 hlen = (if hlen mod 8 \<noteq> 0 then hlen + (8 - hlen mod 8) else hlen)"

definition ReadMessage :: "bool \<Rightarrow> (dbus_error + 32 word list) \<Rightarrow> bytes \<Rightarrow> read_result option" where
  "ReadMessage hasUnixFDs rights rd = (case readFull 16 rd of Inl e \<Rightarrow> Some (ReadErr e)
     | Inr (csheader, rd) \<Rightarrow>
         if csheader ! 0 \<noteq> orderByte False \<and> csheader ! 0 \<noteq> orderByte True then Some (ReadInvalid ''invalid byte order'' rd)
         else (let be = (csheader ! 0 = orderByte True);
                   blen = getNative be (take 4 (drop 4 csheader)) :: 32 word;
                   hlen = roundUp8 (getNative be (drop 12 csheader)) in
           (case readFull (unat hlen) rd of Inl e \<Rightarrow> Some (ReadErr e)
            | Inr (headerdata, rd) \<Rightarrow>
                Option.bind (Decode be ''a(yv)'' (drop 12 csheader @ headerdata, 12)) (\<lambda>r. case r of
                    Inl e \<Rightarrow> Some (ReadErr e)
                  | Inr (vs, _) \<Rightarrow>
                      (let unixfds = (case storeHeaders vs of Inl e \<Rightarrow> 0 | Inr hs \<Rightarrow> unixFDCount hs);
                           n = unat (16 + hlen + blen) in
                       if n < 16 \<or> n < unat (16 + hlen) then Some (ReadPanic IndexOutOfRange)
                       else (case readFull (n - unat (16 + hlen)) rd of Inl e \<Rightarrow> Some (ReadErr e)
                         | Inr (body, rest) \<Rightarrow> readAll hasUnixFDs rights unixfds
                             (take (unat (16 + hlen)) (csheader @ headerdata) @ body) rest))))))"

section \<open>Sending a message\<close>

text \<open>Descriptors in the body are replaced by their indices.\<close>

fun extractFDs :: "nat \<Rightarrow> dval list \<Rightarrow> 32 word list \<times> dval list" where
  "extractFDs n [] = ([], [])"
| "extractFDs n (v # vs) = (case v of
     DUnixFD fd \<Rightarrow> (case extractFDs (Suc n) vs of (fds, ws) \<Rightarrow> (fd # fds, DUnixFDIndex (of_nat n) # ws))
   | _ \<Rightarrow> (case extractFDs n vs of (fds, ws) \<Rightarrow> (fds, v # ws)))"

text \<open>
  \<open>SendMessage\<close> of the unix transport gives the bytes that it hands to the socket, if any, and the error that it returns. \<open>wr\<close> is what
  the write of the bytes with their descriptors gives. Without descriptors every error, of the message or of the write, is dropped.
\<close>

definition SendMessage :: "bool \<Rightarrow> (bytes \<Rightarrow> 32 word list \<Rightarrow> dbus_error option) \<Rightarrow> Message \<Rightarrow> bytes option \<times> dbus_error option" where
  "SendMessage hasUnixFDs wr msg = (case extractFDs 0 (msg_Body msg) of (fds, body) \<Rightarrow>
     if fds \<noteq> [] then
       (if \<not> hasUnixFDs then (None, Some (DbusErr (ErrNew ''dbus: unix fd passing not enabled'')))
        else (let msg' = msg\<lparr>msg_Body := body, msg_Headers := go_update FieldUnixFDs (''u'', DUint32 (of_nat (length fds))) (msg_Headers msg)\<rparr>;
                  buf = (case EncodeTo False msg' of Inl _ \<Rightarrow> [] | Inr bs \<Rightarrow> bs) in
              (Some buf, wr buf fds)))
     else (case EncodeTo False msg of Inl _ \<Rightarrow> (None, None) | Inr bs \<Rightarrow> (Some bs, None)))"

definition generic_SendMessage :: "(bytes \<Rightarrow> dbus_error option) \<Rightarrow> Message \<Rightarrow> bytes option \<times> dbus_error option" where
  "generic_SendMessage wr msg =
     (if \<exists>v \<in> set (msg_Body msg). typeOf v = TUnixFD then (None, Some (DbusErr (ErrNew ''dbus: unix fd passing not enabled'')))
      else (case EncodeTo False msg of Inl e \<Rightarrow> (None, Some e) | Inr bs \<Rightarrow> (Some bs, wr bs)))"

section \<open>From one end to the other\<close>

lemma padding_eight: "padding (16 + l) 0 8 = (if l mod 8 = 0 then 0 else 8 - l mod 8)"
proof (cases "l mod 8 = 0")
  case False
  define q r where "q = l div 8" and "r = l mod 8"
  have l: "l = 8 * q + r" and r: "r < 8" "r \<noteq> 0" using False by (simp_all add: q_def r_def)
  have "(16 + l + 8 - 1) div 8 = q + 3" using l r by simp
  moreover have "(16 + l) mod 8 = r" unfolding r_def by presburger
  ultimately show ?thesis using l r by (simp add: padding_def Let_def)
next
  case True
  then have "(16 + l) mod 8 = 0" by presburger
  then show ?thesis using True by simp
qed

lemma roundUp8_padding:
  assumes "l \<le> 2 ^ 27"
  shows "roundUp8 (of_nat l) = of_nat (l + padding (16 + l) 0 8)"
proof -
  have l: "unat (of_nat l :: 32 word) = l" using assms by (simp add: unat_of_nat take_bit_nat_eq_self)
  have m: "(of_nat l :: 32 word) mod 8 = of_nat (l mod 8)"
    by (rule word_unat_eq_iff [THEN iffD2]) (use l in \<open>simp add: unat_mod unat_of_nat take_bit_nat_eq_self\<close>)
  have z: "(of_nat (l mod 8) :: 32 word) = 0 \<longleftrightarrow> l mod 8 = 0"
  proof -
    have "unat (of_nat (l mod 8) :: 32 word) = l mod 8"
      using mod_less_divisor [of 8 l] by (simp add: unat_of_nat take_bit_nat_eq_self)
    then show ?thesis by (metis unat_0 unat_eq_zero)
  qed
  have "(8 - of_nat (l mod 8) :: 32 word) = of_nat (8 - l mod 8)" by (simp add: of_nat_diff)
  then show ?thesis by (simp add: roundUp8_def m z padding_eight)
qed

lemma unixFDCount_none: "\<forall>h \<in> set hs. fst h \<noteq> FieldUnixFDs \<Longrightarrow> unixFDCount hs = 0"
  unfolding unixFDCount_def by (induction hs rule: rev_induct) auto

lemma ReadMessage_EncodeTo:
  assumes wf: "wf_message be msg" and enc: "EncodeTo be msg = Inr bs" and fds: "\<forall>h \<in> set (msg_Headers msg). fst h \<noteq> FieldUnixFDs"
  shows "ReadMessage hasUnixFDs rights (bs @ rest) = Some (ReadMsg (msg\<lparr>msg_Body := map decoded (msg_Body msg)\<rparr>) rest)"
proof -
  have valid: "IsValid msg = None" using enc by (auto simp: EncodeTo_def split: option.splits)
  obtain buf body where l: "Encode be (msg_Body msg) 0 = (body, None)"
    "enc_encode be 0 (DSlice headerType (map headerVal (msg_Headers msg))) 12 = (put32 be (of_nat (length buf)) @ buf, None)"
    "bs = fixedBytes be msg body @ put32 be (of_nat (length buf)) @ buf @ replicate (padding (16 + length buf) 0 8) 0 @ body"
    "16 + length buf + padding (16 + length buf) 0 8 + length body \<le> 2 ^ 27"
    by (rule EncodeTo_layout [OF wf enc]) (rule that)
  let ?cs = "fixedBytes be msg body @ put32 be (of_nat (length buf))"
  let ?pad = "replicate (padding (16 + length buf) 0 8) (0 :: 8 word)"
  define hl where "hl = length buf + padding (16 + length buf) 0 8"
  have small: "unat (of_nat n :: 32 word) = n" if "n \<le> 2 ^ 27" for n :: nat
    using that by (simp add: unat_of_nat take_bit_nat_eq_self)
  have cs: "length ?cs = 16" "?cs ! 0 = orderByte be" "take 4 (drop 4 ?cs) = put32 be (of_nat (length body))"
    "drop 12 ?cs = put32 be (of_nat (length buf))" by (simp_all add: fixedBytes_def)
  have "readFull 16 (bs @ rest) = Inr (?cs, buf @ ?pad @ body @ rest)" using cs(1) l(3) by (simp add: readFull_def)
  moreover have ob: "(orderByte be = orderByte True) = be" "orderByte be \<noteq> orderByte False \<and> orderByte be \<noteq> orderByte True \<longleftrightarrow> False"
    by (cases be; simp add: orderByte_def)+
  moreover have hlen: "roundUp8 (of_nat (length buf)) = (of_nat hl :: 32 word)" using roundUp8_padding l(4) by (simp add: hl_def)
  moreover have "readFull (unat (of_nat hl :: 32 word)) (buf @ ?pad @ body @ rest) = Inr (buf @ ?pad, body @ rest)"
    using small [of hl] l(4) by (simp add: readFull_def hl_def)
  moreover have "Decode be ''a(yv)'' (put32 be (of_nat (length buf)) @ buf @ ?pad, 12) =
      Some (Inr ([DSlice interfacesType (map decoded (map headerVal (msg_Headers msg)))], ?pad, 16 + length buf))"
    using decode_header_array [OF wf_message_headers [OF wf valid] l(2), of ?pad] l(4) by simp
  moreover have "storeHeaders [DSlice interfacesType (map decoded (map headerVal (msg_Headers msg)))] = Inr (msg_Headers msg)"
    using storeHeaderList_decoded [OF wf_message_headers [OF wf valid]] by (simp add: storeHeaders_def)
  moreover have n: "unat (16 + of_nat hl + of_nat (length body) :: 32 word) = 16 + hl + length body" "unat (16 + of_nat hl :: 32 word) = 16 + hl"
    using small [of "16 + hl + length body"] small [of "16 + hl"] l(4) by (simp_all add: hl_def)
  moreover have "readFull (length body) (body @ rest) = Inr (body, rest)" by (simp add: readFull_def)
  moreover have "take (16 + hl) (?cs @ buf @ ?pad) @ body = bs" using cs(1) l(3) by (simp add: hl_def)
  moreover have "DecodeMessage bs = Some (ReadMsg (msg\<lparr>msg_Body := map decoded (msg_Body msg)\<rparr>) [])"
    using DecodeMessage_EncodeTo [OF wf enc, of "[]"] by simp
  ultimately show ?thesis using cs unixFDCount_none [OF fds]
    by (simp add: ReadMessage_def Let_def readAll_def finishRead_def)
qed

text \<open>Sizes that wrap to a small buffer, and an address whose key is not the first, end the process.\<close>

lemma ReadMessage_wraps:
  "ReadMessage hf rights ([108, 1, 0, 1] @ put32 False 0xFFFFFFF8 @ put32 False 1 @ put32 False 0 @ rest) = Some (ReadPanic IndexOutOfRange)"
proof -
  have d: "Decode False ''a(yv)'' (put32 False 0, 12) = Some (Inr ([DSlice interfacesType []], [], 16))"
    by code_simp
  have "readFull 16 ([108, 1, 0, 1] @ put32 False 0xFFFFFFF8 @ put32 False 1 @ put32 False 0 @ rest) =
      Inr ([108, 1, 0, 1] @ put32 False 0xFFFFFFF8 @ put32 False 1 @ put32 False 0, rest)" by (simp add: readFull_def)
  then show ?thesis using d
    by (simp add: ReadMessage_def orderByte_def Let_def roundUp8_def readFull_def)
qed

lemma getKey_panics: "getKey ''guid=1,path=/x'' ''path'' = Panic IndexOutOfRange"
  by code_simp

lemma SystemBus_default: "SystemBusPrivate DialUnix '''' w = DialUnix ''/var/run/dbus/system_bus_socket'' w"
proof -
  let ?keys = "''path=/var/run/dbus/system_bus_socket''"
  have "splitOn (CHR '';'') defaultSystemBusAddress = [''unix:'' @ ?keys]" "indexStr (''unix:'' @ ?keys) '':'' = Some 4"
    "getKey ?keys ''abstract'' = Ok ''''" "getKey ?keys ''path'' = Ok ''/var/run/dbus/system_bus_socket''" by code_simp+
  then show ?thesis
    by (simp add: SystemBusPrivate_def getTransport_def newUnixTransport_def liftG_def bindG_def tryG_def retG_def failG_def split: go.split prod.split)
qed

lemma SendMessage_unix_nil:
  assumes "\<forall>v \<in> set (msg_Body msg). typeOf v \<noteq> TUnixFD"
  shows "SendMessage hf wr msg = (case EncodeTo False msg of Inl _ \<Rightarrow> (None, None) | Inr bs \<Rightarrow> (Some bs, None))"
proof -
  have "extractFDs n vs = ([], vs)" if "\<forall>v \<in> set vs. typeOf v \<noteq> TUnixFD" for n vs
    using that by (induction vs arbitrary: n) (auto split: dval.split)
  then show ?thesis using assms by (simp add: SendMessage_def)
qed

end
