(* ===== verification/Dbus_Auth.thy ===== *)
theory Dbus_Auth
  imports Dbus_Transport
begin

text \<open>
  Authentication on a new connection (\<open>godbus/dbus/auth.go\<close>, \<open>auth_external.go\<close>, \<open>auth_sha1.go\<close>).

  The state of an attempt is what the server will still send, what was written to it, the fields of \<open>Conn\<close> that are set on the
  way, and the world: the files and the random numbers, which only the cookie mechanism uses. \<open>wr\<close> gives, from
  what was written before and a buffer, the number of bytes written and the error of a write.
\<close>

unbundle bit_operations_syntax

section \<open>Hexadecimal text and SHA-1\<close>

text \<open>\<open>hex.Encode\<close> and \<open>hex.Decode\<close>.\<close>

definition hexDigit :: "nat \<Rightarrow> char" where
  "hexDigit n = ''0123456789abcdef'' ! n"

definition fromHexChar :: "char \<Rightarrow> nat option" where
  "fromHexChar c = (let n = of_char c in
     if 48 \<le> n \<and> n \<le> 57 then Some (n - 48) else if 97 \<le> n \<and> n \<le> 102 then Some (n - 87)
     else if 65 \<le> n \<and> n \<le> 70 then Some (n - 55) else None)"

definition hexEncode :: "string \<Rightarrow> string" where
  "hexEncode s = concat (map (\<lambda>c. [hexDigit (of_char c div 16), hexDigit (of_char c mod 16)]) s)"

fun hexDecode :: "string \<Rightarrow> string option" where
  "hexDecode [] = Some []"
| "hexDecode [c] = None"
| "hexDecode (c # d # s) = (case (fromHexChar c, fromHexChar d) of
     (Some a, Some b) \<Rightarrow> map_option (\<lambda>t. char_of (16 * a + b) # t) (hexDecode s)
   | _ \<Rightarrow> None)"

lemma hexDecode_hexEncode: "hexDecode (hexEncode s) = Some s"
proof (induction s)
  case (Cons c s)
  have dig: "fromHexChar (hexDigit n) = Some n" if "n < 16" for n
  proof -
    have "\<forall>n \<in> set [0..<16]. fromHexChar (hexDigit n) = Some n" by code_simp
    then show ?thesis using that by simp
  qed
  have "of_char c < (256 :: nat)" by (cases c) (simp add: of_char_def horner_sum_simps)
  then have "of_char c div 16 < (16 :: nat)" by (simp add: less_mult_imp_div_less)
  then have "fromHexChar (hexDigit (of_char c div 16)) = Some (of_char c div 16)"
    "fromHexChar (hexDigit (of_char c mod 16)) = Some (of_char c mod 16)" by (simp_all add: dig)
  then show ?case using Cons by (simp add: hexEncode_def)
qed (simp add: hexEncode_def)

text \<open>\<open>crypto/sha1\<close>.\<close>

definition sha1Pad :: "bytes \<Rightarrow> bytes" where
  "sha1Pad msg = msg @ [0x80] @ replicate ((119 - length msg mod 64) mod 64) 0 @ put64 True (of_nat (8 * length msg))"

fun words32 :: "bytes \<Rightarrow> 32 word list" where
  "words32 (a # b # c # d # bs) = getNative True [a, b, c, d] # words32 bs"
| "words32 _ = []"

definition rotl32 :: "nat \<Rightarrow> 32 word \<Rightarrow> 32 word" where
  "rotl32 n w = push_bit n w OR drop_bit (32 - n) w"

text \<open>The words of the schedule, the last one first.\<close>

fun sha1Words :: "nat \<Rightarrow> 32 word list \<Rightarrow> 32 word list" where
  "sha1Words 0 r = r"
| "sha1Words (Suc k) r = sha1Words k (rotl32 1 (r ! 2 XOR r ! 7 XOR r ! 13 XOR r ! 15) # r)"

type_synonym sha1_state = "32 word \<times> 32 word \<times> 32 word \<times> 32 word \<times> 32 word"

definition sha1Round :: "nat \<times> 32 word \<Rightarrow> sha1_state \<Rightarrow> sha1_state" where
  "sha1Round tw st = (case (tw, st) of ((t, w), (a, b, c, d, e)) \<Rightarrow>
     let (f, k) = (if t < 20 then ((b AND c) OR (NOT b AND d), 0x5A827999)
       else if t < 40 then (b XOR c XOR d, 0x6ED9EBA1)
       else if t < 60 then ((b AND c) OR (b AND d) OR (c AND d), 0x8F1BBCDC)
       else (b XOR c XOR d, 0xCA62C1D6))
     in (rotl32 5 a + f + e + w + k, a, rotl32 30 b, c, d))"

definition sha1Block :: "sha1_state \<Rightarrow> 32 word list \<Rightarrow> sha1_state" where
  "sha1Block st block = (let ws = rev (sha1Words 64 (rev block)) in
     case (st, fold sha1Round (zip [0..<80] ws) st) of ((a, b, c, d, e), (a', b', c', d', e')) \<Rightarrow> (a + a', b + b', c + c', d + d', e + e'))"

function chunks16 :: "32 word list \<Rightarrow> 32 word list list" where
  "chunks16 ws = (if ws = [] then [] else take 16 ws # chunks16 (drop 16 ws))"
  by auto
termination by (relation "measure length") auto

definition sha1Sum :: "string \<Rightarrow> string" where
  "sha1Sum s = (case foldl sha1Block (0x67452301, 0xEFCDAB89, 0x98BADCFE, 0x10325476, 0xC3D2E1F0)
       (chunks16 (words32 (sha1Pad (stringBytes s)))) of
     (a, b, c, d, e) \<Rightarrow> bytesString (put32 True a @ put32 True b @ put32 True c @ put32 True d @ put32 True e))"

section \<open>Mechanisms\<close>

datatype AuthStatus = AuthOk | AuthContinue | AuthError

record 'w mechanism =
  FirstData :: "string \<times> string \<times> AuthStatus"
  HandleData :: "string \<Rightarrow> 'w \<Rightarrow> (string \<times> AuthStatus) \<times> 'w"

definition AuthExternal :: "string \<Rightarrow> 'w mechanism" where
  "AuthExternal user = \<lparr>FirstData = (''EXTERNAL'', hexEncode user, AuthOk), HandleData = (\<lambda>_ w. (([], AuthError), w))\<rparr>"

text \<open>A line with its newline, and what follows it; \<open>None\<close> when no newline comes.\<close>

fun takeLine :: "string \<Rightarrow> (string \<times> string) option" where
  "takeLine [] = None"
| "takeLine (c # s) = (if c = CHR 0x0A then Some ([c], s) else map_option (\<lambda>(l, r). (c # l, r)) (takeLine s))"

lemma takeLine_split: "takeLine s = Some (l, r) \<Longrightarrow> s = l @ r \<and> l \<noteq> []"
  by (induction s arbitrary: l) (auto split: if_splits)

text \<open>The loop of \<open>getCookie\<close> on the contents of the file.\<close>

function findCookie :: "string \<Rightarrow> string \<Rightarrow> string option" where
  "findCookie text ident = (case takeLine text of None \<Rightarrow> None
     | Some (line, rest) \<Rightarrow>
         (case splitOn (CHR '' '') (butlast line) of
            [a, b, c] \<Rightarrow> if a = ident then Some c else findCookie rest ident
          | _ \<Rightarrow> None))"
  by auto
termination by (relation "measure (\<lambda>(text, _). length text)") (auto dest!: takeLine_split)

definition getCookie :: "(string \<Rightarrow> string option) \<Rightarrow> string \<Rightarrow> string \<Rightarrow> string \<Rightarrow> string option" where
  "getCookie files home ctx ident = (case files (home @ ''/.dbus-keyrings/'' @ ctx) of None \<Rightarrow> None
     | Some contents \<Rightarrow> findCookie contents ident)"

definition generateChallenge :: "('w \<Rightarrow> string option \<times> 'w) \<Rightarrow> 'w \<Rightarrow> string option \<times> 'w" where
  "generateChallenge rand w = (case rand w of
     (Some b, w') \<Rightarrow> (if length b \<noteq> 16 then None else Some (hexEncode b), w') | (None, w') \<Rightarrow> (None, w'))"

definition sha1_HandleData :: "('w \<Rightarrow> string \<Rightarrow> string option) \<Rightarrow> ('w \<Rightarrow> string option \<times> 'w) \<Rightarrow> string \<Rightarrow>
    string \<Rightarrow> 'w \<Rightarrow> (string \<times> AuthStatus) \<times> 'w" where
  "sha1_HandleData files rand home data w = (case hexDecode data of None \<Rightarrow> (([], AuthError), w)
     | Some challenge \<Rightarrow>
         (case splitOn (CHR '' '') challenge of
            [ctx, ident, svchallenge] \<Rightarrow>
              (case getCookie (files w) home ctx ident of None \<Rightarrow> (([], AuthError), w)
               | Some cookie \<Rightarrow>
                   (case generateChallenge rand w of (None, w') \<Rightarrow> (([], AuthError), w')
                    | (Some clchallenge, w') \<Rightarrow>
                        ((hexEncode (clchallenge @ '' '' @ hexEncode (sha1Sum (joinWith '':'' [svchallenge, clchallenge, cookie]))), AuthOk), w')))
          | _ \<Rightarrow> (([], AuthError), w)))"

definition AuthCookieSha1 :: "('w \<Rightarrow> string \<Rightarrow> string option) \<Rightarrow> ('w \<Rightarrow> string option \<times> 'w) \<Rightarrow> string \<Rightarrow> string \<Rightarrow> 'w mechanism" where
  "AuthCookieSha1 files rand user home = \<lparr>FirstData = (''DBUS_COOKIE_SHA1'', hexEncode user, AuthContinue),
     HandleData = sha1_HandleData files rand home\<rparr>"

section \<open>The exchange\<close>

datatype authState = waitingForData | waitingForOk | waitingForReject

record 'w auth =
  a_in :: string
  a_out :: "string list"
  a_uuid :: string
  a_unixFD :: bool
  a_started :: bool
  a_world :: 'w

type_synonym writer = "string list \<Rightarrow> string \<Rightarrow> nat \<times> goerr option"

definition authFields :: "string \<Rightarrow> string list" where
  "authFields line = splitOn (CHR '' '')
     (if length line \<ge> 2 \<and> drop (length line - 2) line = [CHR 0x0D, CHR 0x0A] then take (length line - 2) line else line)"

definition authReadLine :: "('w auth, string list) gom" where
  "authReadLine s = (case takeLine (a_in s) of None \<Rightarrow> (Err (ErrNew ''EOF''), s\<lparr>a_in := []\<rparr>)
     | Some (line, rest) \<Rightarrow> (Ok (authFields line), s\<lparr>a_in := rest\<rparr>))"

definition authLine :: "string list \<Rightarrow> string" where
  "authLine data = joinWith '' '' data @ [CHR 0x0D, CHR 0x0A]"

definition authWrite :: "writer \<Rightarrow> string \<Rightarrow> ('w auth, nat) gom" where
  "authWrite wr buf s = (case wr (a_out s) buf of (n, err) \<Rightarrow>
     ((case err of Some e \<Rightarrow> Err e | None \<Rightarrow> Ok n), s\<lparr>a_out := a_out s @ [take n buf]\<rparr>))"

definition authWriteLine :: "writer \<Rightarrow> string list \<Rightarrow> ('w auth, unit) gom" where
  "authWriteLine wr data = bindG (authWrite wr (authLine data)) (\<lambda>n.
     if n \<noteq> length (authLine data) then failG (ErrNew ''unexpected EOF'') else retG ())"

text \<open>One turn of the loop of \<open>tryAuth\<close>: the line that is written, if any, and how it goes on.\<close>

datatype auth_action =
    Continue "string list option" authState
  | Rejected
  | ProtocolError
  | Accepted "string list option"

definition onOK :: "string list \<Rightarrow> auth_action" where
  "onOK s = Accepted (if length s \<noteq> 2 then Some [''CANCEL''] else None)"

definition authAction :: "'w mechanism \<Rightarrow> authState \<Rightarrow> string list \<Rightarrow> 'w \<Rightarrow> auth_action \<times> 'w" where
  "authAction m state s w = (case state of
     waitingForData \<Rightarrow>
       if hd s = ''DATA'' then
         (if length s \<noteq> 2 then (Continue (Some [''ERROR'']) waitingForData, w)
          else (case HandleData m (s ! 1) w of ((data, status), w') \<Rightarrow>
            (case status of AuthError \<Rightarrow> Continue (Some [''ERROR'']) waitingForData
             | AuthOk \<Rightarrow> Continue (if data \<noteq> [] then Some [''DATA'', data] else None) waitingForOk
             | AuthContinue \<Rightarrow> Continue (if data \<noteq> [] then Some [''DATA'', data] else None) waitingForData, w')))
       else if hd s = ''REJECTED'' then (Rejected, w)
       else if hd s = ''ERROR'' then (Continue (Some [''CANCEL'']) waitingForReject, w)
       else if hd s = ''OK'' then (onOK s, w)
       else (Continue (Some [''ERROR'']) waitingForData, w)
   | waitingForOk \<Rightarrow>
       if hd s = ''OK'' then (onOK s, w)
       else if hd s = ''REJECTED'' then (Rejected, w)
       else if hd s = ''DATA'' \<or> hd s = ''ERROR'' then (Continue (Some [''CANCEL'']) waitingForReject, w)
       else (Continue (Some [''ERROR'']) waitingForOk, w)
   | waitingForReject \<Rightarrow> (if hd s = ''REJECTED'' then Rejected else ProtocolError, w))"

definition writeOpt :: "writer \<Rightarrow> string list option \<Rightarrow> ('w auth, unit) gom" where
  "writeOpt wr out = (case out of None \<Rightarrow> retG () | Some data \<Rightarrow> authWriteLine wr data)"

definition authProtocolError :: goerr where
  "authProtocolError = ErrNew ''dbus: authentication protocol error''"

lemma writeOpt_frame:
  "writeOpt wr out s = (r, s') \<Longrightarrow> a_in s' = a_in s \<and> a_uuid s' = a_uuid s \<and> a_unixFD s' = a_unixFD s \<and> a_started s' = a_started s"
  by (auto simp: writeOpt_def authWriteLine_def authWrite_def go_monad split: option.splits prod.splits if_splits)

lemma authReadLine_in: "authReadLine s = (Ok line, s') \<Longrightarrow> \<exists>l. takeLine (a_in s) = Some (l, a_in s') \<and> line = authFields l \<and> s' = s\<lparr>a_in := a_in s'\<rparr>"
  by (auto simp: authReadLine_def split: option.splits)

function tryAuth :: "writer \<Rightarrow> 'w mechanism \<Rightarrow> authState \<Rightarrow> ('w auth, bool) gom" where
  "tryAuth wr m state s = (case authReadLine s of
       (Ok line, s1) \<Rightarrow> (case authAction m state line (a_world s1) of (action, w) \<Rightarrow>
          (let s2 = s1\<lparr>a_world := w\<rparr> in
           case action of
             Rejected \<Rightarrow> (Ok False, s2)
           | ProtocolError \<Rightarrow> (Err authProtocolError, s2)
           | Accepted out \<Rightarrow> bindG (writeOpt wr out) (\<lambda>_. bindG (liftG (indexGo line 1)) (\<lambda>uuid.
               bindG (modifyG (\<lambda>s. s\<lparr>a_uuid := uuid\<rparr>)) (\<lambda>_. retG True))) s2
           | Continue out state' \<Rightarrow> (case writeOpt wr out s2 of
                 (Ok _, s3) \<Rightarrow> tryAuth wr m state' s3
               | (Err e, s3) \<Rightarrow> (Err e, s3) | (Panic p, s3) \<Rightarrow> (Panic p, s3) | (Fatal t, s3) \<Rightarrow> (Fatal t, s3))))
     | (Err e, s1) \<Rightarrow> (Err e, s1) | (Panic p, s1) \<Rightarrow> (Panic p, s1) | (Fatal t, s1) \<Rightarrow> (Fatal t, s1))"
  by pat_completeness auto
termination
  by (relation "measure (\<lambda>(_, _, _, s). length (a_in s))") (auto dest!: writeOpt_frame [OF sym] authReadLine_in [OF sym] takeLine_split)

declare tryAuth.simps [simp del] findCookie.simps [simp del] chunks16.simps [simp del]

text \<open>The rest of \<open>Auth\<close>: descriptors are negotiated, the exchange ends, and the goroutines of the connection are started.\<close>

definition negotiateFDs :: "writer \<Rightarrow> ('w auth, unit) gom" where
  "negotiateFDs wr = bindG (authWriteLine wr [''NEGOTIATE_UNIX_FD'']) (\<lambda>_. bindG authReadLine (\<lambda>line.
     if hd line = ''AGREE_UNIX_FD'' then modifyG (\<lambda>s. s\<lparr>a_unixFD := True\<rparr>)
     else if hd line = ''ERROR'' then retG ()
     else failG authProtocolError))"

definition authBegin :: "writer \<Rightarrow> bool \<Rightarrow> ('w auth, unit) gom" where
  "authBegin wr supportsFDs = bindG (if supportsFDs then negotiateFDs wr else retG ()) (\<lambda>_.
     bindG (authWriteLine wr [''BEGIN'']) (\<lambda>_. modifyG (\<lambda>s. s\<lparr>a_started := True\<rparr>)))"

text \<open>The two loops of \<open>Auth\<close>, over what the server offers and, for each, over the mechanisms of the client.\<close>

fun authTry :: "writer \<Rightarrow> bool \<Rightarrow> (string \<times> 'w mechanism) list \<Rightarrow> ('w auth, unit) gom" where
  "authTry wr supportsFDs [] = failG (ErrNew ''dbus: authentication failed'')"
| "authTry wr supportsFDs ((v, m) # vms) = (case FirstData m of (name, data, status) \<Rightarrow>
     if v = name then
       bindG (authWriteLine wr [''AUTH'', v, data]) (\<lambda>_.
       bindG (case status of AuthOk \<Rightarrow> tryAuth wr m waitingForOk | AuthContinue \<Rightarrow> tryAuth wr m waitingForData
           | AuthError \<Rightarrow> liftG (Panic (UserPanic ''dbus: invalid authentication status''))) (\<lambda>ok.
         if ok then authBegin wr supportsFDs else authTry wr supportsFDs vms))
     else authTry wr supportsFDs vms)"

definition Auth :: "writer \<Rightarrow> bool \<Rightarrow> 'w mechanism list \<Rightarrow> ('w auth, unit) gom" where
  "Auth wr supportsFDs methods = bindG (authWrite wr [CHR 0x00]) (\<lambda>_. bindG (authWriteLine wr [''AUTH'']) (\<lambda>_.
     bindG authReadLine (\<lambda>s.
       if length s < 2 \<or> hd s \<noteq> ''REJECTED'' then failG authProtocolError
       else authTry wr supportsFDs (List.product (tl s) methods))))"

definition defaultMethods :: "('w \<Rightarrow> string \<Rightarrow> string option) \<Rightarrow> ('w \<Rightarrow> string option \<times> 'w) \<Rightarrow> int \<Rightarrow> string \<Rightarrow> 'w mechanism list" where
  "defaultMethods files rand uid home = [AuthExternal (itoa uid), AuthCookieSha1 files rand (itoa uid) home]"

section \<open>Lines\<close>

definition cleanWord :: "string \<Rightarrow> bool" where
  "cleanWord w \<longleftrightarrow> CHR '' '' \<notin> set w \<and> CHR 0x0A \<notin> set w"

lemma takeLine_app: "CHR 0x0A \<notin> set l \<Longrightarrow> takeLine (l @ CHR 0x0A # r) = Some (l @ [CHR 0x0A], r)"
  by (induction l) auto

text \<open>Lines of clean words are frames of the stream.\<close>

definition nextLine :: "string \<Rightarrow> (string list \<times> string) option" where
  "nextLine s = map_option (\<lambda>(l, r). (authFields l, r)) (takeLine s)"

definition cleanLine :: "string list \<Rightarrow> bool" where
  "cleanLine ws \<longleftrightarrow> ws \<noteq> [] \<and> (\<forall>w \<in> set ws. cleanWord w)"

interpretation lines: framing authLine nextLine cleanLine
proof
  fix ws rest
  assume ws: "cleanLine ws"
  let ?l = "joinWith '' '' ws"
  have "CHR 0x0A \<notin> set (?l @ [CHR 0x0D])" using ws set_joinWith [of "'' ''" ws] by (fastforce simp: cleanLine_def cleanWord_def)
  then have "takeLine (authLine ws @ rest) = Some (authLine ws, rest)"
    using takeLine_app [of "?l @ [CHR 0x0D]" rest] by (simp add: authLine_def)
  moreover have "authFields (authLine ws) = ws"
    using splitOn_joinWith [of ws "CHR '' ''"] ws by (simp add: authFields_def authLine_def cleanLine_def cleanWord_def)
  ultimately show "nextLine (authLine ws @ rest) = Some (ws, rest)" by (simp add: nextLine_def)
qed

lemma authReadLine_line:
  assumes "ws \<noteq> []" "\<forall>w \<in> set ws. cleanWord w" "a_in s = authLine ws @ rest"
  shows "authReadLine s = (Ok ws, s\<lparr>a_in := rest\<rparr>)"
  using lines.dec_enc [of ws rest] assms by (auto simp: cleanLine_def nextLine_def authReadLine_def)

text \<open>A connection that takes all that is written.\<close>

definition goodWriter :: "writer \<Rightarrow> bool" where
  "goodWriter wr \<longleftrightarrow> (\<forall>out buf. wr out buf = (length buf, None))"

lemma goodWriter_writes:
  assumes "goodWriter wr"
  shows "authWrite wr buf s = (Ok (length buf), s\<lparr>a_out := a_out s @ [buf]\<rparr>)"
    "authWriteLine wr data s = (Ok (), s\<lparr>a_out := a_out s @ [authLine data]\<rparr>)"
  using assms by (simp_all add: goodWriter_def authWriteLine_def authWrite_def go_monad)

section \<open>What an exchange consumes\<close>

text \<open>Only \<open>authBegin\<close> starts the goroutines, and every step reads a prefix of the input.\<close>

definition consumes :: "'w auth \<Rightarrow> 'w auth \<Rightarrow> bool" where
  "consumes s s' \<longleftrightarrow> (\<exists>pre. a_in s = pre @ a_in s') \<and> a_started s' = a_started s"

lemma consumes_refl [simp]: "consumes s s"
  by (simp add: consumes_def)

lemma consumes_trans: "consumes s t \<Longrightarrow> consumes t u \<Longrightarrow> consumes s u"
  unfolding consumes_def by (metis append.assoc)

lemma consumes_read: "authReadLine s = (r, s') \<Longrightarrow> consumes s s'"
  by (auto simp: authReadLine_def consumes_def split: option.splits dest!: takeLine_split)

lemma consumes_write: "authWrite wr buf s = (n, s') \<Longrightarrow> consumes s s'" "authWriteLine wr data s = (r, s') \<Longrightarrow> consumes s s'"
  "writeOpt wr out s = (r', s') \<Longrightarrow> consumes s s'"
  by (auto simp: authWriteLine_def authWrite_def writeOpt_def go_monad consumes_def split: option.splits prod.splits if_splits)

lemma consumes_fields: "consumes (s\<lparr>a_world := w\<rparr>) s' \<longleftrightarrow> consumes s s'" "consumes s (s'\<lparr>a_uuid := u\<rparr>) \<longleftrightarrow> consumes s s'"
  "consumes s (s'\<lparr>a_unixFD := b\<rparr>) \<longleftrightarrow> consumes s s'"
  by (simp_all add: consumes_def)

text \<open>A line of the server that accepts the client and gives the identifier \<open>g\<close>.\<close>

definition saidOK :: "string \<Rightarrow> string \<Rightarrow> bool" where
  "saidOK inp g \<longleftrightarrow> (\<exists>pre l post ws. inp = pre @ l @ post \<and> authFields l = ''OK'' # g # ws)"

lemma saidOK_later: "consumes s s' \<Longrightarrow> saidOK (a_in s') g \<Longrightarrow> saidOK (a_in s) g"
  unfolding consumes_def saidOK_def by (metis append.assoc)

lemma authAction_accepted: "authAction m st line w = (Accepted out, w') \<Longrightarrow> hd line = ''OK''"
  by (auto simp: authAction_def split: authState.splits if_splits prod.splits AuthStatus.splits)

lemma tryAuth_accepted:
  assumes read: "authReadLine s = (Ok line, s1)" and act: "authAction m st line (a_world s1) = (Accepted out, w)"
    and eq: "tryAuth wr m st s = (r, s')"
  shows "consumes s s' \<and> (r = Ok True \<longrightarrow> saidOK (a_in s) (a_uuid s'))"
proof -
  obtain l where l: "takeLine (a_in s) = Some (l, a_in s1)" "line = authFields l" using authReadLine_in [OF read] by blast
  obtain r3 s3 where w3: "writeOpt wr out (s1\<lparr>a_world := w\<rparr>) = (r3, s3)" by fastforce
  have c3: "consumes s s3" using consumes_read [OF read] consumes_write(3) [OF w3] consumes_trans by (fastforce simp: consumes_fields)
  have inp: "a_in s = [] @ l @ a_in s1" using takeLine_split [OF l(1)] by simp
  have "saidOK (a_in s) (line ! 1)" if "1 < length line"
  proof -
    have "\<exists>ws. line = ''OK'' # line ! 1 # ws" using that authAction_accepted [OF act] by (cases line; cases "tl line") auto
    then show ?thesis unfolding saidOK_def using inp l(2) by metis
  qed
  then show ?thesis
    using eq read act w3 c3
    by (cases r3) (auto simp: tryAuth.simps [of wr m st s] go_monad indexGo_def consumes_fields split: if_splits)
qed

lemma tryAuth_accepts:
  "tryAuth wr m st s = (r, s') \<Longrightarrow> consumes s s' \<and> (r = Ok True \<longrightarrow> saidOK (a_in s) (a_uuid s'))"
proof (induction wr m st s arbitrary: r s' rule: tryAuth.induct)
  case (1 wr m st s)
  note eq = 1(2) [symmetric]
  obtain r1 s1 where read: "authReadLine s = (r1, s1)" by fastforce
  note c1 = consumes_read [OF read]
  show ?case
  proof (cases r1)
    case line: (Ok line)
    obtain action w where act: "authAction m st line (a_world s1) = (action, w)" by fastforce
    show ?thesis
    proof (cases action)
      case (Continue out st')
      obtain r3 s3 where w3: "writeOpt wr out (s1\<lparr>a_world := w\<rparr>) = (r3, s3)" by fastforce
      have c3: "consumes s s3" using c1 consumes_write(3) [OF w3] consumes_trans by (fastforce simp: consumes_fields)
      show ?thesis
      proof (cases r3)
        case (Ok u)
        then have "tryAuth wr m st' s3 = (r, s')"
          using eq read line act Continue w3 by (simp add: tryAuth.simps [of wr m st s])
        then have "consumes s3 s' \<and> (r = Ok True \<longrightarrow> saidOK (a_in s3) (a_uuid s'))"
          using 1(1) [OF read [symmetric] line act [symmetric] refl Continue w3 [symmetric] Ok] by blast
        then show ?thesis using c3 consumes_trans saidOK_later by blast
      qed (use eq read line act Continue w3 c3 in \<open>auto simp: tryAuth.simps [of wr m st s]\<close>)
    next
      case (Accepted out)
      then show ?thesis using tryAuth_accepted [of s line s1 m st out w wr r s'] read line act 1(2) by simp
    qed (use eq read line act c1 in \<open>auto simp: tryAuth.simps [of wr m st s] consumes_def\<close>)
  qed (use eq read c1 in \<open>auto simp: tryAuth.simps [of wr m st s]\<close>)
qed

lemma authWriteLine_ok: "authWriteLine wr data s = (Ok (), s') \<Longrightarrow> s' = s\<lparr>a_out := a_out s @ [authLine data]\<rparr>"
  by (auto simp: authWriteLine_def authWrite_def go_monad split: prod.splits option.splits if_splits)

lemma negotiate_frame: "negotiateFDs wr s = (r, s') \<Longrightarrow> consumes s s' \<and> a_uuid s' = a_uuid s"
  by (auto simp: negotiateFDs_def authReadLine_def authWriteLine_def authWrite_def go_monad consumes_def
      split: prod.splits option.splits if_splits dest!: takeLine_split)

lemma authBegin_started:
  assumes "authBegin wr fds s = (r, s')" "\<not> a_started s"
  shows "(r = Ok () \<longleftrightarrow> a_started s') \<and> (a_started s' \<longrightarrow> last (a_out s') = authLine [''BEGIN''] \<and> a_uuid s' = a_uuid s)"
proof -
  obtain r1 s1 where n: "(if fds then negotiateFDs wr else retG ()) s = (r1, s1)" by fastforce
  have s1: "\<not> a_started s1" "a_uuid s1 = a_uuid s"
    using n assms(2) negotiate_frame [of wr s r1 s1] by (auto simp: consumes_def go_monad split: if_splits)
  obtain r2 s2 where w: "authWriteLine wr [''BEGIN''] s1 = (r2, s2)" by fastforce
  have "\<not> a_started s2" using consumes_write(2) [OF w] s1 by (simp add: consumes_def)
  then show ?thesis
    using assms(1) n w s1 authWriteLine_ok [of wr "[''BEGIN'']" s1 s2]
    by (cases r1; cases r2) (auto simp: authBegin_def go_monad)
qed

lemma authTry_started:
  "authTry wr fds vms s = (r, s') \<Longrightarrow> \<not> a_started s \<Longrightarrow>
    (r = Ok () \<longleftrightarrow> a_started s') \<and> (a_started s' \<longrightarrow> last (a_out s') = authLine [''BEGIN''] \<and> saidOK (a_in s) (a_uuid s'))"
proof (induction vms arbitrary: s)
  case Nil
  then show ?case by (auto simp: failG_def)
next
  case (Cons vm vms)
  obtain v m name data status where vm: "vm = (v, m)" "FirstData m = (name, data, status)" by (metis surj_pair)
  show ?case
  proof (cases "v = name")
    case False
    then show ?thesis using Cons vm by simp
  next
    case True
    obtain r1 s1 where w: "authWriteLine wr [''AUTH'', v, data] s = (r1, s1)" by fastforce
    note c1 = consumes_write(2) [OF w]
    let ?attempt = "case status of AuthOk \<Rightarrow> tryAuth wr m waitingForOk | AuthContinue \<Rightarrow> tryAuth wr m waitingForData
           | AuthError \<Rightarrow> liftG (Panic (UserPanic ''dbus: invalid authentication status''))"
    obtain r2 s2 where t: "?attempt s1 = (r2, s2)" by fastforce
    then have t2: "consumes s1 s2 \<and> (r2 = Ok True \<longrightarrow> saidOK (a_in s1) (a_uuid s2))"
      using tryAuth_accepts [of wr m _ s1 r2 s2] by (cases status) (auto simp: liftG_def)
    then have c2: "consumes s s2" "\<not> a_started s2" using c1 Cons.prems(2) consumes_trans by (blast, simp add: consumes_def)
    have ok: "r2 = Ok True \<longrightarrow> saidOK (a_in s) (a_uuid s2)" using t2 saidOK_later [OF c1] by blast
    show ?thesis
    proof (cases "r1 = Ok () \<and> (\<exists>b. r2 = Ok b)")
      case r12: True
      then obtain b where b: "r2 = Ok b" by blast
      show ?thesis
      proof (cases b)
        case True
        then have "authBegin wr fds s2 = (r, s')" using Cons.prems(1) vm \<open>v = name\<close> w r12 t b by (simp add: bindG_def tryG_def)
        then show ?thesis using authBegin_started c2(2) ok b True by metis
      next
        case False
        then have "authTry wr fds vms s2 = (r, s')" using Cons.prems(1) vm \<open>v = name\<close> w r12 t b by (simp add: bindG_def tryG_def)
        then show ?thesis using Cons.IH [of s2] c2 saidOK_later by blast
      qed
    next
      case r12: False
      then show ?thesis
        using Cons.prems vm True w t c1 c2 by (cases r1; cases r2) (auto simp: bindG_def tryG_def failG_def consumes_def)
    qed
  qed
qed

text \<open>A line with \<open>OK\<close>: without an identifier it is a panic; with more than one word after it the client takes back its attempt with \<open>CANCEL\<close>
  and goes on as if it had been accepted.\<close>

lemma tryAuth_OK_line:
  assumes "st \<noteq> waitingForReject" "\<forall>w \<in> set ws. cleanWord w" "a_in s = authLine (''OK'' # ws) @ rest" "goodWriter wr"
  shows "tryAuth wr m st s = (let s1 = s\<lparr>a_in := rest\<rparr>; s2 = s1\<lparr>a_out := a_out s @ [authLine [''CANCEL'']]\<rparr> in
    case ws of [] \<Rightarrow> (Panic IndexOutOfRange, s2) | [g] \<Rightarrow> (Ok True, s1\<lparr>a_uuid := g\<rparr>) | g # _ \<Rightarrow> (Ok True, s2\<lparr>a_uuid := g\<rparr>))"
proof -
  have "authReadLine s = (Ok (''OK'' # ws), s\<lparr>a_in := rest\<rparr>)"
    using assms(2,3) by (intro authReadLine_line) (auto simp: cleanWord_def)
  moreover have "authAction m st (''OK'' # ws) w = (onOK (''OK'' # ws), w)" for w
    using assms(1) by (cases st) (simp_all add: authAction_def)
  ultimately show ?thesis
    unfolding tryAuth.simps [of wr m st s]
    by (cases s; cases ws; cases "tl ws") (auto simp: onOK_def writeOpt_def goodWriter_writes [OF assms(4)] indexGo_def go_monad Let_def)
qed

lemma authTry_skip: "\<forall>(v, m) \<in> set pre. fst (FirstData m) \<noteq> v \<Longrightarrow> authTry wr fds (pre @ vms) = authTry wr fds vms"
  by (induction pre) (auto split: prod.split)

lemma product_append: "List.product (xs @ ys) zs = List.product xs zs @ List.product ys zs"
  by (induction xs) auto

section \<open>Properties\<close>

definition labAuth :: "string list list \<Rightarrow> unit auth" where
  "labAuth ls = \<lparr>a_in = concat (map authLine ls), a_out = [], a_uuid = '''', a_unixFD = False, a_started = False, a_world = ()\<rparr>"

abbreviation labMethods :: "unit mechanism list" where
  "labMethods \<equiv> defaultMethods (\<lambda>_ _. None) (\<lambda>w. (None, w)) 0 ''/root''"





end
