(* ===== verification/Dbus_Conn.thy ===== *)
theory Dbus_Conn
  imports Dbus_Transport
begin

text \<open>
  A connection to a message bus: calls, the two goroutines that send and receive messages, names and signals
  (\<open>godbus/dbus/conn.go\<close>, \<open>object.go\<close>, \<open>call.go\<close>).

  The state has the fields of \<open>Conn\<close> and, for each goroutine, the point in the code where it is. A call is a number, made
  with \<open>Object.Call\<close>: the channel \<open>Done\<close> has room for one value, and the goroutine that called waits for
  it after \<open>Go\<close> has returned. \<open>c_done\<close> is what is in the channel of a call, \<open>c_chan\<close> what is in a channel that was passed
  to \<open>Signal\<close>, and a channel that is full blocks its sender. A step runs until the next point where the goroutine takes a lock, waits or touches
  a channel. What the transport reads is any \<open>read_result\<close>.
\<close>

unbundle bit_operations_syntax

section \<open>State\<close>

record dsignal =
  sig_Sender :: string
  sig_Path :: string
  sig_Name :: string
  sig_Body :: "dval list"

text \<open>What is sent on \<open>Done\<close>: \<open>Body\<close> or \<open>Err\<close> of the call, with the serial of the message that answers it.\<close>

datatype outcome =
    Reply "32 word" "dval list"
  | ErrorReply "32 word" string "dval list"
  | Failed dbus_error
  | ErrClosed

text \<open>A goroutine in \<open>Object.Call\<close>: before \<open>calls[msg.serial] = call\<close>, before \<open>out <- msg\<close>, waiting, or returned.\<close>

datatype caller =
    CNone
  | CRegister Message
  | CEnqueue Message
  | CWait Message
  | CDone Message outcome

text \<open>
  \<open>inWorker\<close>: reading; sending on \<open>Done\<close> while it holds \<open>callsLck\<close>; sending a signal to the channels that are left; after
  \<open>Close\<close>; sending an error to the calls that are left; ended; panicked.
\<close>

datatype in_state =
    InRead
  | InReply nat outcome "32 word"
  | InSignal dsignal "nat list"
  | InClosing dbus_error
  | InNotify dbus_error "nat list"
  | InEnd
  | InPanic go_panic

record dconn =
  c_names :: "string list"
  c_nextSerial :: "32 word"
  c_serialUsed :: "32 word list"
  c_calls :: "(32 word, nat) gomap"
  c_out :: "Message list"
  c_closed :: bool
  c_signals :: "nat list"
  c_chan :: "nat \<Rightarrow> dsignal list"
  c_cap :: "nat \<Rightarrow> nat"
  c_done :: "nat \<Rightarrow> outcome list"
  c_caller :: "nat \<Rightarrow> caller"
  c_in :: in_state
  c_sent :: "bytes list"

definition newConn :: dconn where
  "newConn = \<lparr>c_names = [], c_nextSerial = 1, c_serialUsed = [0], c_calls = [], c_out = [], c_closed = False, c_signals = [],
     c_chan = (\<lambda>_. []), c_cap = (\<lambda>_. 10), c_done = (\<lambda>_. []), c_caller = (\<lambda>_. CNone), c_in = InRead, c_sent = []\<rparr>"

section \<open>Calls\<close>

text \<open>The loop of \<open>getSerial\<close>; it does not end when every serial is in use.\<close>

partial_function (option) nextFree :: "32 word list \<Rightarrow> 32 word \<Rightarrow> 32 word option" where
  "nextFree used n = (if n \<in> set used then nextFree used (n + 1) else Some n)"

declare nextFree.simps [code]

definition getSerial :: "dconn \<Rightarrow> (32 word \<times> dconn) option" where
  "getSerial s = map_option (\<lambda>n. (n, s\<lparr>c_serialUsed := n # c_serialUsed s, c_nextSerial := n + 1\<rparr>))
     (nextFree (c_serialUsed s) (c_nextSerial s))"

definition freeSerial :: "32 word \<Rightarrow> dconn \<Rightarrow> dconn" where
  "freeSerial n s = s\<lparr>c_serialUsed := removeAll n (c_serialUsed s)\<rparr>"

text \<open>The message that \<open>Go\<close> makes. \<open>SignatureOf\<close> panics on arguments that D-Bus cannot represent.\<close>

definition goMessage :: "string \<Rightarrow> string \<Rightarrow> string \<Rightarrow> 8 word \<Rightarrow> dval list \<Rightarrow> 32 word \<Rightarrow> Message go" where
  "goMessage dest path meth flags args serial =
     (let iface = (case lastIndex (CHR ''.'') meth of None \<Rightarrow> '''' | Some i \<Rightarrow> take i meth);
          member = (case lastIndex (CHR ''.'') meth of None \<Rightarrow> meth | Some i \<Rightarrow> drop (i + 1) meth);
          headers = [(FieldPath, ''o'', DObjectPath path), (FieldDestination, ''s'', DString dest), (FieldMember, ''s'', DString member)] @
            (if iface \<noteq> '''' then [(FieldInterface, ''s'', DString iface)] else []);
          msg = \<lparr>msg_Type = TypeMethodCall, msg_Flags = flags AND (FlagNoAutoStart OR FlagNoReplyExpected), msg_Headers = headers,
            msg_Body = args, msg_serial = serial\<rparr> in
      if length args > 0 then
        bind_go (SignatureOf (map typeOf args)) (\<lambda>sg. Ok (msg\<lparr>msg_Headers := headers @ [(FieldSignature, ''g'', DSignature sg)]\<rparr>))
      else Ok msg)"

definition doneSend :: "nat \<Rightarrow> outcome \<Rightarrow> dconn \<Rightarrow> dconn" where
  "doneSend i r s = s\<lparr>c_done := (c_done s)(i := c_done s i @ [r])\<rparr>"

definition doneFull :: "nat \<Rightarrow> dconn \<Rightarrow> bool" where
  "doneFull i s \<longleftrightarrow> length (c_done s i) \<ge> 1"

definition setCaller :: "nat \<Rightarrow> caller \<Rightarrow> dconn \<Rightarrow> dconn" where
  "setCaller i p s = s\<lparr>c_caller := (c_caller s)(i := p)\<rparr>"

definition registerCall :: "nat \<Rightarrow> Message \<Rightarrow> dconn \<Rightarrow> dconn" where
  "registerCall i msg s = setCaller i (CEnqueue msg) (s\<lparr>c_calls := go_update (msg_serial msg) i (c_calls s)\<rparr>)"

text \<open>The end of \<open>Go\<close>; \<open>None\<close> while it is blocked on the channel of the call or on \<open>out\<close>, which has room for ten messages.\<close>

definition enqueueCall :: "nat \<Rightarrow> Message \<Rightarrow> dconn \<Rightarrow> dconn option" where
  "enqueueCall i msg s =
     (if c_closed s then (if doneFull i s then None else Some (setCaller i (CWait msg) (doneSend i ErrClosed s)))
      else if length (c_out s) \<ge> 10 then None
      else Some (setCaller i (CWait msg) (s\<lparr>c_out := c_out s @ [msg]\<rparr>)))"

definition receiveDone :: "nat \<Rightarrow> Message \<Rightarrow> dconn \<Rightarrow> dconn option" where
  "receiveDone i msg s = (case c_done s i of [] \<Rightarrow> None
     | r # rs \<Rightarrow> Some (setCaller i (CDone msg r) (s\<lparr>c_done := (c_done s)(i := rs)\<rparr>)))"

section \<open>The workers\<close>

text \<open>The body of the loop of \<open>outWorker\<close>, after \<open>SendMessage\<close> has returned \<open>err\<close>; \<open>None\<close> while it is blocked.\<close>

definition outWorker :: "Message \<Rightarrow> dbus_error option \<Rightarrow> dconn \<Rightarrow> dconn option" where
  "outWorker msg err s = (case err of
       Some e \<Rightarrow> (case go_lookup (c_calls s) (msg_serial msg) of
           Some i \<Rightarrow> if doneFull i s then None else Some (freeSerial (msg_serial msg) (doneSend i (Failed e) s))
         | None \<Rightarrow> Some (freeSerial (msg_serial msg) s))
     | None \<Rightarrow> if msg_Type msg \<noteq> TypeMethodCall then Some (freeSerial (msg_serial msg) s) else Some s)"

definition sendStep :: "bool \<Rightarrow> (bytes \<Rightarrow> 32 word list \<Rightarrow> dbus_error option) \<Rightarrow> dconn \<Rightarrow> dconn option" where
  "sendStep hasUnixFDs wr s = (case c_out s of [] \<Rightarrow> None
     | msg # msgs \<Rightarrow> (case SendMessage hasUnixFDs wr msg of (bs, err) \<Rightarrow>
         outWorker msg err (s\<lparr>c_out := msgs, c_sent := c_sent s @ (case bs of None \<Rightarrow> [] | Some b \<Rightarrow> [b])\<rparr>)))"

text \<open>
  The loop that removes a lost name. \<open>range\<close> runs over the slice as it was, of length \<open>n\<close>, while \<open>conn.names\<close>
  (the first \<open>k\<close> elements of the same array) is cut.
\<close>

fun removeName :: "string \<Rightarrow> nat list \<Rightarrow> string list \<Rightarrow> nat \<Rightarrow> string list go" where
  "removeName name [] arr k = Ok (take k arr)"
| "removeName name (i # is) arr k =
     (if arr ! i = name then
        (if Suc i \<le> k then removeName name is (take i arr @ take (k - Suc i) (drop (Suc i) arr) @ drop (k - 1) arr) (k - 1)
         else Panic IndexOutOfRange)
      else removeName name is arr k)"

definition nameLost :: "string \<Rightarrow> string list \<Rightarrow> string list go" where
  "nameLost name names = removeName name [0..<length names] names (length names)"

text \<open>\<open>msg.Body[0].(string)\<close>\<close>

definition bodyName :: "string \<Rightarrow> Message \<Rightarrow> string go" where
  "bodyName what msg = (case msg_Body msg of [] \<Rightarrow> Panic IndexOutOfRange
     | DString s # _ \<Rightarrow> Ok s | _ \<Rightarrow> Panic (UserPanic what))"

definition trackNames :: "Message \<Rightarrow> string list \<Rightarrow> string list go" where
  "trackNames msg names =
     (if headerString FieldInterface msg = ''org.freedesktop.DBus'' \<and> headerString FieldSender msg = ''org.freedesktop.DBus'' then
        (if headerString FieldMember msg = ''NameLost'' then
           bind_go (bodyName ''Unable to read the lost name'' msg) (\<lambda>name. nameLost name names)
         else if headerString FieldMember msg = ''NameAcquired'' then
           bind_go (bodyName ''Unable to read the acquired name'' msg) (\<lambda>name. Ok (names @ [name]))
         else Ok names)
      else Ok names)"

definition makeSignal :: "Message \<Rightarrow> dsignal" where
  "makeSignal msg = \<lparr>sig_Sender = headerString FieldSender msg, sig_Path = headerPath FieldPath msg,
     sig_Name = headerString FieldInterface msg @ ''.'' @ headerString FieldMember msg, sig_Body = msg_Body msg\<rparr>"

text \<open>\<open>msg.Headers[FieldReplySerial].value.(uint32)\<close>\<close>

definition replySerial :: "Message \<Rightarrow> 32 word option" where
  "replySerial msg = (case go_lookup (msg_Headers msg) FieldReplySerial of Some (_, DUint32 w) \<Rightarrow> Some w | _ \<Rightarrow> None)"

text \<open>
  \<open>inWorker\<close> with a message. Calls of the peer are given to a goroutine of their own, which is not followed here. A message that was read is
  valid, so the type assertions on its headers hold.
\<close>

definition handleMessage :: "Message \<Rightarrow> dconn \<Rightarrow> dconn" where
  "handleMessage msg s = (let dest = headerString FieldDestination msg in
     if \<not> (dest = '''' \<or> c_names s = [] \<or> dest \<in> set (c_names s)) then s
     else if msg_Type msg = TypeMethodReply \<or> msg_Type msg = TypeError then
       (case replySerial msg of
          Some serial \<Rightarrow>
            (case go_lookup (c_calls s) serial of None \<Rightarrow> s
             | Some i \<Rightarrow> s\<lparr>c_in := InReply i (if msg_Type msg = TypeError
                   then ErrorReply serial (headerString FieldErrorName msg) (msg_Body msg) else Reply serial (msg_Body msg)) serial\<rparr>)
        | None \<Rightarrow> s\<lparr>c_in := InPanic TypeAssertion\<rparr>)
     else if msg_Type msg = TypeSignal then
       (case trackNames msg (c_names s) of
          Ok names \<Rightarrow> s\<lparr>c_names := names, c_in := InSignal (makeSignal msg) (c_signals s)\<rparr>
        | Panic p \<Rightarrow> s\<lparr>c_in := InPanic p\<rparr>
        | _ \<Rightarrow> s)
     else s)"

text \<open>\<open>inWorker\<close> after \<open>ReadMessage\<close>; a read error closes the connection. The channels of the signals are not used after that.\<close>

definition handleRead :: "read_result \<Rightarrow> dconn \<Rightarrow> dconn" where
  "handleRead r s = (case r of
       ReadMsg msg _ \<Rightarrow> handleMessage msg s
     | ReadInvalid _ _ \<Rightarrow> s
     | ReadErr e \<Rightarrow> s\<lparr>c_closed := True, c_in := InClosing e\<rparr>
     | ReadPanic p \<Rightarrow> s\<lparr>c_in := InPanic p\<rparr>)"

text \<open>The next thing \<open>inWorker\<close> does on its own; \<open>None\<close> while it is blocked or waits for the transport.\<close>

definition inWorker :: "dconn \<Rightarrow> dconn option" where
  "inWorker s = (case c_in s of
       InReply i r serial \<Rightarrow> if doneFull i s then None
         else Some ((freeSerial serial (doneSend i r s))\<lparr>c_calls := go_delete serial (c_calls s), c_in := InRead\<rparr>)
     | InSignal g [] \<Rightarrow> Some (s\<lparr>c_in := InRead\<rparr>)
     | InSignal g (ch # chs) \<Rightarrow> if length (c_chan s ch) \<ge> c_cap s ch then None
         else Some (s\<lparr>c_chan := (c_chan s)(ch := c_chan s ch @ [g]), c_in := InSignal g chs\<rparr>)
     | InClosing e \<Rightarrow> Some (s\<lparr>c_in := InNotify e (map snd (c_calls s))\<rparr>)
     | InNotify e [] \<Rightarrow> Some (s\<lparr>c_in := InEnd\<rparr>)
     | InNotify e (i # is) \<Rightarrow> if doneFull i s then None else Some ((doneSend i (Failed e) s)\<lparr>c_in := InNotify e is\<rparr>)
     | _ \<Rightarrow> None)"

definition addSignal :: "nat \<Rightarrow> dconn \<Rightarrow> dconn" where
  "addSignal ch s = s\<lparr>c_signals := c_signals s @ [ch]\<rparr>"

text \<open>\<open>inWorker\<close> holds \<open>callsLck\<close> for writing, or for reading while it tells the calls of the end.\<close>

definition callsLocked :: "dconn \<Rightarrow> bool" where
  "callsLocked s \<longleftrightarrow> (case c_in s of InReply _ _ _ \<Rightarrow> True | InNotify _ _ \<Rightarrow> True | _ \<Rightarrow> False)"

definition callsWriteLocked :: "dconn \<Rightarrow> bool" where
  "callsWriteLocked s \<longleftrightarrow> (case c_in s of InReply _ _ _ \<Rightarrow> True | _ \<Rightarrow> False)"

text \<open>\<open>Hello\<close>, when its call has returned the name.\<close>

definition helloDone :: "string \<Rightarrow> dconn \<Rightarrow> dconn" where
  "helloDone name s = s\<lparr>c_names := [name]\<rparr>"

section \<open>Runs\<close>

text \<open>
  The runs of a connection on which less than \<open>2 ^ 32\<close> calls are made, without descriptors among their arguments. \<open>ready ch\<close> says whether
  the receiver of a channel takes the next signal.
\<close>

inductive dbus_step :: "(nat \<Rightarrow> dconn \<Rightarrow> bool) \<Rightarrow> dconn \<Rightarrow> dconn \<Rightarrow> bool" for ready where
  call: "c_caller s i = CNone \<Longrightarrow> c_nextSerial s \<noteq> - 1 \<Longrightarrow> getSerial s = Some (n, s') \<Longrightarrow>
    goMessage dest path meth flags args n = Ok m \<Longrightarrow> flags AND FlagNoReplyExpected = 0 \<Longrightarrow> \<forall>v \<in> set args. typeOf v \<noteq> TUnixFD \<Longrightarrow>
    dbus_step ready s (setCaller i (CRegister m) s')"
| register: "c_caller s i = CRegister m \<Longrightarrow> \<not> callsLocked s \<Longrightarrow> dbus_step ready s (registerCall i m s)"
| enqueue: "c_caller s i = CEnqueue m \<Longrightarrow> enqueueCall i m s = Some s' \<Longrightarrow> dbus_step ready s s'"
| receive: "c_caller s i = CWait m \<Longrightarrow> receiveDone i m s = Some s' \<Longrightarrow> dbus_step ready s s'"
| send: "\<not> callsWriteLocked s \<Longrightarrow> sendStep hasUnixFDs wr s = Some s' \<Longrightarrow> dbus_step ready s s'"
| read: "c_in s = InRead \<Longrightarrow> dbus_step ready s (handleRead r s)"
| work: "inWorker s = Some s' \<Longrightarrow> dbus_step ready s s'"
| take: "ready ch s \<Longrightarrow> c_chan s ch = g # gs \<Longrightarrow> dbus_step ready s (s\<lparr>c_chan := (c_chan s)(ch := gs)\<rparr>)"
| add: "dbus_step ready s (addSignal ch s)"
| hello: "dbus_step ready s (helloDone name s)"

inductive dbus_reachable :: "(nat \<Rightarrow> dconn \<Rightarrow> bool) \<Rightarrow> dconn \<Rightarrow> bool" for ready where
  start: "dbus_reachable ready newConn"
| step: "dbus_reachable ready s \<Longrightarrow> dbus_step ready s s' \<Longrightarrow> dbus_reachable ready s'"

section \<open>Serials\<close>

fun callMsg :: "caller \<Rightarrow> Message option" where
  "callMsg CNone = None"
| "callMsg (CRegister m) = Some m"
| "callMsg (CEnqueue m) = Some m"
| "callMsg (CWait m) = Some m"
| "callMsg (CDone m _) = Some m"

lemma nextFree_fresh: "n \<notin> set used \<Longrightarrow> nextFree used n = Some n"
  by (simp add: nextFree.simps)

text \<open>The search for a serial ends when one is free, and gives a free one.\<close>

lemma nextFree_finds:
  assumes "set used \<noteq> UNIV"
  shows "\<exists>k. nextFree used n = Some k \<and> k \<notin> set used"
proof -
  obtain k where k: "k \<notin> set used" using assms by blast
  have "\<exists>k. nextFree used m = Some k \<and> k \<notin> set used" if "m + of_nat d = k" for m d
    using that
  proof (induction d arbitrary: m)
    case 0
    then show ?case using k nextFree_fresh by auto
  next
    case (Suc d)
    then have "m + 1 + of_nat d = k" by (simp add: algebra_simps)
    then show ?case using Suc.IH [of "m + 1"] nextFree_fresh [of m used] by (cases "m \<in> set used") (auto simp: nextFree.simps [of used m])
  qed
  from this [of n "unat (k - n)"] show ?thesis by simp
qed

definition plain :: "Message \<Rightarrow> bool" where
  "plain m \<longleftrightarrow> msg_Type m = TypeMethodCall \<and> (\<forall>v \<in> set (msg_Body m). typeOf v \<noteq> TUnixFD)"

text \<open>The message of a call, from its start on.\<close>

definition msgs :: "dconn \<Rightarrow> nat \<Rightarrow> Message option" where
  "msgs s i = callMsg (c_caller s i)"

definition serials_ok :: "dconn \<Rightarrow> bool" where
  "serials_ok s \<longleftrightarrow> (\<forall>n \<in> set (c_serialUsed s). n < c_nextSerial s) \<and>
     (\<forall>i m. msgs s i = Some m \<longrightarrow> msg_serial m < c_nextSerial s \<and> plain m) \<and>
     (\<forall>i j m m'. msgs s i = Some m \<longrightarrow> msgs s j = Some m' \<longrightarrow> msg_serial m = msg_serial m' \<longrightarrow> i = j) \<and>
     (\<forall>w i. (w, i) \<in> set (c_calls s) \<longrightarrow> (\<exists>m. msgs s i = Some m \<and> msg_serial m = w)) \<and>
     (\<forall>m \<in> set (c_out s). plain m)"

lemma getSerial_next:
  assumes "serials_ok s" "getSerial s = Some (n, s')"
  shows "n = c_nextSerial s" "s' = s\<lparr>c_serialUsed := n # c_serialUsed s, c_nextSerial := n + 1\<rparr>"
proof -
  have "c_nextSerial s \<notin> set (c_serialUsed s)" using assms(1) by (auto simp: serials_ok_def)
  then show "n = c_nextSerial s" "s' = s\<lparr>c_serialUsed := n # c_serialUsed s, c_nextSerial := n + 1\<rparr>"
    using assms(2) by (auto simp: getSerial_def nextFree_fresh)
qed

lemma goMessage_plain:
  "goMessage dest path meth flags args n = Ok m \<Longrightarrow> \<forall>v \<in> set args. typeOf v \<noteq> TUnixFD \<Longrightarrow> plain m \<and> msg_serial m = n"
  by (auto simp: goMessage_def Let_def plain_def bind_go_Ok_iff split: if_splits)

lemma sendStep_plain:
  assumes "serials_ok s" "sendStep hf wr s = Some s'"
  shows "\<exists>m ms. c_out s = m # ms \<and> s' = s\<lparr>c_out := ms, c_sent := c_sent s'\<rparr>"
proof -
  obtain m ms where m: "c_out s = m # ms" using assms(2) by (auto simp: sendStep_def split: list.splits)
  then have "plain m" using assms(1) by (auto simp: serials_ok_def)
  then show ?thesis using assms(2) m
    by (auto simp: sendStep_def outWorker_def plain_def SendMessage_unix_nil split: sum.splits)
qed

lemma word_less_Suc: "(n :: 32 word) \<noteq> - 1 \<Longrightarrow> k \<le> n \<Longrightarrow> k < n + 1"
  using unatSuc [of n] by (simp add: word_less_nat_alt word_le_nat_alt add.commute add_eq_0_iff)

section \<open>The invariant\<close>

fun closedState :: "in_state \<Rightarrow> bool" where
  "closedState (InClosing _) = True"
| "closedState (InNotify _ _) = True"
| "closedState InEnd = True"
| "closedState _ = False"

text \<open>The calls that \<open>inWorker\<close> will still tell of the end, once it has begun to.\<close>

fun toTell :: "in_state \<Rightarrow> nat list option" where
  "toTell (InNotify e is) = Some is"
| "toTell InEnd = Some []"
| "toTell _ = None"

definition closed_ok :: "dconn \<Rightarrow> bool" where
  "closed_ok s \<longleftrightarrow> c_closed s = closedState (c_in s)"

text \<open>A call without an outcome is registered, or \<open>inWorker\<close> will still tell it of the end.\<close>

definition waiting_ok :: "dconn \<Rightarrow> bool" where
  "waiting_ok s \<longleftrightarrow>
     (\<forall>i m. c_caller s i = CWait m \<longrightarrow> c_done s i = [] \<longrightarrow> (\<forall>is. toTell (c_in s) = Some is \<longrightarrow> i \<in> set is) \<and>
        (toTell (c_in s) = None \<longrightarrow> go_lookup (c_calls s) (msg_serial m) = Some i)) \<and>
     (\<forall>i m. c_caller s i = CEnqueue m \<longrightarrow> c_done s i = [] \<longrightarrow> \<not> c_closed s \<longrightarrow> go_lookup (c_calls s) (msg_serial m) = Some i)"

text \<open>A reply is an outcome of the call whose serial it carries.\<close>

definition answers :: "outcome \<Rightarrow> Message \<Rightarrow> bool" where
  "answers r m \<longleftrightarrow> (case r of Reply w _ \<Rightarrow> w = msg_serial m | ErrorReply w _ _ \<Rightarrow> w = msg_serial m | _ \<Rightarrow> True)"

lemma answers_simps [simp]: "answers (Failed e) m" "answers ErrClosed m"
  by (simp_all add: answers_def)

fun answersMsg :: "outcome \<Rightarrow> Message option \<Rightarrow> bool" where
  "answersMsg r None \<longleftrightarrow> False"
| "answersMsg r (Some m) \<longleftrightarrow> answers r m"

definition answers_ok :: "dconn \<Rightarrow> bool" where
  "answers_ok s \<longleftrightarrow> (\<forall>i. \<forall>r \<in> set (c_done s i). answersMsg r (msgs s i)) \<and>
     (\<forall>i m r. c_caller s i = CDone m r \<longrightarrow> answers r m) \<and>
     (\<forall>i r w. c_in s = InReply i r w \<longrightarrow> go_lookup (c_calls s) w = Some i \<and> (\<forall>m. msg_serial m = w \<longrightarrow> answers r m)) \<and>
     (\<forall>e is. c_in s = InNotify e is \<longrightarrow> (\<forall>i \<in> set is. msgs s i \<noteq> None))"

definition conn_inv :: "dconn \<Rightarrow> bool" where
  "conn_inv s \<longleftrightarrow> serials_ok s \<and> closed_ok s \<and> waiting_ok s \<and> answers_ok s"

lemmas conn_defs = conn_inv_def serials_ok_def closed_ok_def waiting_ok_def answers_ok_def

lemma set_go_update: "e \<in> set (go_update k v m) \<Longrightarrow> e = (k, v) \<or> e \<in> set m"
  unfolding go_update_def by (induction m) (auto split: if_splits)

lemma set_go_delete: "e \<in> set (go_delete k m) \<Longrightarrow> e \<in> set m"
  unfolding go_delete_def by (auto simp: AList.delete_eq)

lemma doneFull_iff: "doneFull i s \<longleftrightarrow> c_done s i \<noteq> []"
  by (simp add: doneFull_def Suc_le_eq)

lemma conn_inv_new: "conn_inv newConn"
  by (simp add: conn_defs newConn_def msgs_def)

lemma msgs_setCaller: "msgs (setCaller i p s) = (msgs s)(i := callMsg p)"
  by (auto simp: msgs_def setCaller_def)

lemma msgs_same: "c_caller s' = c_caller s \<Longrightarrow> msgs s' = msgs s"
  by (auto simp: msgs_def)

lemma serials_okI:
  assumes "serials_ok s" "msgs s' = msgs s" "set (c_serialUsed s') \<subseteq> set (c_serialUsed s)" "c_nextSerial s' = c_nextSerial s"
    "\<And>w i. (w, i) \<in> set (c_calls s') \<Longrightarrow> (w, i) \<in> set (c_calls s) \<or> (\<exists>m. msgs s i = Some m \<and> msg_serial m = w)"
    "\<And>m. m \<in> set (c_out s') \<Longrightarrow> m \<in> set (c_out s) \<or> plain m"
  shows "serials_ok s'"
  unfolding serials_ok_def assms(2,4)
proof (intro conjI)
  show "\<forall>w i. (w, i) \<in> set (c_calls s') \<longrightarrow> (\<exists>m. msgs s i = Some m \<and> msg_serial m = w)"
    using assms(1) assms(5) unfolding serials_ok_def by blast
  show "\<forall>m \<in> set (c_out s'). plain m" using assms(1) assms(6) unfolding serials_ok_def by blast
qed (use assms(1,3) in \<open>auto simp: serials_ok_def\<close>)

lemma conn_inv_call:
  assumes inv: "conn_inv s" and i: "c_caller s i = CNone" and nx: "c_nextSerial s \<noteq> - 1" and get: "getSerial s = Some (n, s')"
    and m: "plain m" "msg_serial m = n"
  shows "conn_inv (setCaller i (CRegister m) s')"
proof -
  have ok: "serials_ok s" using inv by (simp add: conn_inv_def)
  note n = getSerial_next [OF ok get]
  have less: "k \<le> c_nextSerial s \<Longrightarrow> k < c_nextSerial s + 1" for k using word_less_Suc nx by blast
  have mi: "msgs s i = None" using i by (simp add: msgs_def)
  have ms: "msgs (setCaller i (CRegister m) s') = (msgs s)(i := Some m)" by (auto simp: n(2) setCaller_def msgs_def)
  have new: "msg_serial m' \<noteq> msg_serial m" if "msgs s j = Some m'" for j m'
    using ok that m(2) n(1) unfolding serials_ok_def by (metis less_irrefl)
  have "serials_ok (setCaller i (CRegister m) s')"
    unfolding serials_ok_def ms
  proof (intro conjI allI impI ballI)
    fix j k m1 m2 assume "((msgs s)(i := Some m)) j = Some m1" "((msgs s)(i := Some m)) k = Some m2" "msg_serial m1 = msg_serial m2"
    then show "j = k" using ok new by (auto simp: serials_ok_def split: if_splits)
  next
    fix w j assume "(w, j) \<in> set (c_calls (setCaller i (CRegister m) s'))"
    then show "\<exists>m'. ((msgs s)(i := Some m)) j = Some m' \<and> msg_serial m' = w"
      using ok mi by (fastforce simp: serials_ok_def setCaller_def n(2))
  qed (use ok m n(1) less in \<open>auto simp: serials_ok_def setCaller_def n(2) less_imp_le split: if_splits\<close>)
  moreover have "closed_ok (setCaller i (CRegister m) s')" using inv by (simp add: conn_inv_def closed_ok_def setCaller_def n(2))
  moreover have "waiting_ok (setCaller i (CRegister m) s')" using inv by (auto simp: conn_inv_def waiting_ok_def setCaller_def n(2))
  moreover have "answers_ok (setCaller i (CRegister m) s')" unfolding answers_ok_def ms
    using inv mi by (auto simp: conn_inv_def answers_ok_def setCaller_def n(2) split: if_splits dest!: spec [of _ i])
  ultimately show ?thesis by (simp add: conn_inv_def)
qed

lemma conn_inv_register:
  assumes inv: "conn_inv s" and i: "c_caller s i = CRegister m" and free: "\<not> callsLocked s"
  shows "conn_inv (registerCall i m s)"
proof -
  have ok: "serials_ok s" using inv by (simp add: conn_inv_def)
  have mi: "msgs s i = Some m" using i by (simp add: msgs_def)
  have ms: "msgs (registerCall i m s) = msgs s" using i by (auto simp: msgs_def registerCall_def setCaller_def)
  have uniq: "j = i" if "msgs s j = Some m'" "msg_serial m' = msg_serial m" for j m'
    using ok that mi unfolding serials_ok_def by blast
  have other: "c_caller s j = CWait m' \<Longrightarrow> msg_serial m' = msg_serial m \<Longrightarrow> j = i"
    "c_caller s j = CEnqueue m' \<Longrightarrow> msg_serial m' = msg_serial m \<Longrightarrow> j = i" for j m'
    using uniq [of j m'] by (simp_all add: msgs_def)
  have "serials_ok (registerCall i m s)"
    by (rule serials_okI [OF ok ms]) (use mi in \<open>auto simp: registerCall_def setCaller_def dest!: set_go_update\<close>)
  moreover have "closed_ok (registerCall i m s)" using inv by (simp add: conn_inv_def closed_ok_def setCaller_def registerCall_def)
  moreover have "waiting_ok (registerCall i m s)"
    using inv by (auto simp: conn_inv_def waiting_ok_def setCaller_def registerCall_def dest: other)
  moreover have "answers_ok (registerCall i m s)" unfolding answers_ok_def ms
    using inv free by (auto simp: conn_inv_def answers_ok_def setCaller_def registerCall_def callsLocked_def split: in_state.splits if_splits)
  ultimately show ?thesis by (simp add: conn_inv_def)
qed

lemma conn_inv_enqueue:
  assumes inv: "conn_inv s" and i: "c_caller s i = CEnqueue m" and s': "enqueueCall i m s = Some s'"
  shows "conn_inv s'"
proof -
  have ok: "serials_ok s" using inv by (simp add: conn_inv_def)
  have mi: "msgs s i = Some m" using i by (simp add: msgs_def)
  have ms: "msgs s' = msgs s" using i s' by (auto simp: msgs_def enqueueCall_def setCaller_def doneSend_def split: if_splits)
  have "plain m" using ok mi by (simp add: serials_ok_def)
  then have "serials_ok s'"
    by (intro serials_okI [OF ok ms]) (use s' in \<open>auto simp: enqueueCall_def setCaller_def doneSend_def split: if_splits\<close>)
  moreover have "closed_ok s'" using inv s' by (auto simp: conn_inv_def closed_ok_def setCaller_def enqueueCall_def doneSend_def split: if_splits)
  moreover have "\<not> closedState (c_in s) \<Longrightarrow> toTell (c_in s) = None" by (cases "c_in s") auto
  then have "waiting_ok s'" using inv s' i
    by (auto simp: conn_inv_def waiting_ok_def closed_ok_def setCaller_def enqueueCall_def doneSend_def split: if_splits)
  moreover have "answers_ok s'" unfolding answers_ok_def ms
    using inv s' mi by (auto simp: conn_inv_def answers_ok_def setCaller_def enqueueCall_def doneSend_def doneFull_iff split: if_splits)
  ultimately show ?thesis by (simp add: conn_inv_def)
qed

lemma conn_inv_receive:
  assumes inv: "conn_inv s" and i: "c_caller s i = CWait m" and s': "receiveDone i m s = Some s'"
  shows "conn_inv s'"
proof -
  have ok: "serials_ok s" using inv by (simp add: conn_inv_def)
  have mi: "msgs s i = Some m" using i by (simp add: msgs_def)
  obtain r rs where r: "c_done s i = r # rs" "s' = setCaller i (CDone m r) (s\<lparr>c_done := (c_done s)(i := rs)\<rparr>)"
    using s' by (auto simp: receiveDone_def split: list.splits)
  have ms: "msgs s' = msgs s" using i r(2) by (auto simp: msgs_def setCaller_def)
  have "\<forall>r \<in> set (c_done s i). answersMsg r (msgs s i)" using inv by (simp add: conn_inv_def answers_ok_def)
  then have "answers r m" "\<forall>r \<in> set rs. answersMsg r (Some m)" using r(1) mi by simp_all
  then have "answers_ok s'" unfolding answers_ok_def ms
    using inv r(2) mi by (simp add: conn_inv_def answers_ok_def setCaller_def)
  moreover have "serials_ok s'" by (intro serials_okI [OF ok ms]) (auto simp: r(2) setCaller_def)
  moreover have "closed_ok s'" using inv by (simp add: conn_inv_def closed_ok_def setCaller_def r(2))
  moreover have "waiting_ok s'" using inv by (auto simp: conn_inv_def waiting_ok_def setCaller_def r(2))
  ultimately show ?thesis by (simp add: conn_inv_def)
qed

lemma conn_inv_send:
  assumes inv: "conn_inv s" and s': "sendStep hf wr s = Some s'"
  shows "conn_inv s'"
proof -
  have ok: "serials_ok s" using inv by (simp add: conn_inv_def)
  obtain m ms bs where m: "c_out s = m # ms" "s' = s\<lparr>c_out := ms, c_sent := bs\<rparr>" using sendStep_plain [OF ok s'] by blast
  have mm: "msgs s' = msgs s" by (rule msgs_same) (simp add: m(2))
  have "serials_ok s'" by (intro serials_okI [OF ok mm]) (use m in auto)
  moreover have "closed_ok s' \<and> waiting_ok s' \<and> answers_ok s'"
    using inv mm by (auto simp: conn_inv_def closed_ok_def waiting_ok_def answers_ok_def m(2))
  ultimately show ?thesis by (simp add: conn_inv_def)
qed

lemma conn_inv_frame:
  assumes "conn_inv s" "c_serialUsed s' = c_serialUsed s" "c_nextSerial s' = c_nextSerial s" "c_calls s' = c_calls s" "c_out s' = c_out s"
    "c_closed s' = c_closed s" "c_done s' = c_done s" "c_caller s' = c_caller s" "c_in s' = c_in s"
  shows "conn_inv s'"
  using assms unfolding conn_defs msgs_def by simp

text \<open>A step of \<open>inWorker\<close> that only moves it on.\<close>

lemma conn_inv_in:
  assumes inv: "conn_inv s" and st: "closedState st = (cl \<or> c_closed s)"
    "toTell st = toTell (c_in s) \<or> (\<exists>is. toTell st = Some is \<and> toTell (c_in s) = None \<and> set is = snd ` set (c_calls s) \<and> c_closed s)"
    "\<And>i r w. st = InReply i r w \<Longrightarrow> go_lookup (c_calls s) w = Some i \<and> (\<forall>m. msg_serial m = w \<longrightarrow> answers r m)"
  shows "conn_inv (s\<lparr>c_names := names, c_chan := chan, c_closed := cl \<or> c_closed s, c_in := st\<rparr>)" (is "conn_inv ?s")
proof -
  have ok: "serials_ok s" using inv by (simp add: conn_inv_def)
  have ms: "msgs ?s = msgs s" by (rule msgs_same) simp
  have reg: "msgs s i \<noteq> None" if "i \<in> snd ` set (c_calls s)" for i using ok that by (fastforce simp: serials_ok_def)
  have "serials_ok ?s" by (intro serials_okI [OF ok ms]) auto
  moreover have "closed_ok ?s" using st(1) by (simp add: closed_ok_def)
  moreover have "waiting_ok ?s" using inv st(2) go_lookup_in_set [of "c_calls s"]
    by (auto simp: conn_inv_def waiting_ok_def) (force dest!: go_lookup_in_set)+
  moreover have "msgs s i \<noteq> None" if "st = InNotify e is" "i \<in> set is" for e "is" i
    using st(2) that reg [of i] inv by (cases "c_in s") (auto simp: conn_inv_def answers_ok_def)
  then have "answers_ok ?s" using inv st(3) unfolding answers_ok_def ms by (auto simp: conn_inv_def answers_ok_def)
  ultimately show ?thesis by (simp add: conn_inv_def)
qed

lemma conn_inv_reply:
  assumes inv: "conn_inv s" and st: "c_in s = InReply i r w" and free: "c_done s i = []"
  shows "conn_inv ((freeSerial w (doneSend i r s))\<lparr>c_calls := go_delete w (c_calls s), c_in := InRead\<rparr>)" (is "conn_inv ?s")
proof -
  have ok: "serials_ok s" using inv by (simp add: conn_inv_def)
  have ms: "msgs ?s = msgs s" by (rule msgs_same) (simp add: freeSerial_def doneSend_def)
  have w: "go_lookup (c_calls s) w = Some i" "\<And>m. msg_serial m = w \<Longrightarrow> answers r m"
    using inv st by (auto simp: conn_inv_def answers_ok_def)
  obtain m where m: "msgs s i = Some m" "msg_serial m = w" using ok go_lookup_in_set [OF w(1)] unfolding serials_ok_def by blast
  have nc: "\<not> c_closed s" using inv st by (simp add: conn_inv_def closed_ok_def)
  have "serials_ok ?s"
    by (intro serials_okI [OF ok ms]) (auto simp: freeSerial_def doneSend_def dest: set_go_delete)
  moreover have "closed_ok ?s" using nc by (simp add: closed_ok_def freeSerial_def doneSend_def)
  moreover have "waiting_ok ?s" using inv st w(1) nc
    by (auto simp: conn_inv_def waiting_ok_def freeSerial_def doneSend_def gomap_lookup)
  moreover have "answers_ok ?s" unfolding answers_ok_def ms
    using inv m w(2) free by (auto simp: conn_inv_def answers_ok_def freeSerial_def doneSend_def)
  ultimately show ?thesis by (simp add: conn_inv_def)
qed

lemma conn_inv_notify:
  assumes inv: "conn_inv s" and st: "c_in s = InNotify e (i # is)" and free: "c_done s i = []"
  shows "conn_inv ((doneSend i (Failed e) s)\<lparr>c_in := InNotify e is\<rparr>)" (is "conn_inv ?s")
proof -
  have ok: "serials_ok s" using inv by (simp add: conn_inv_def)
  have ms: "msgs ?s = msgs s" by (rule msgs_same) (simp add: doneSend_def)
  obtain m where m: "msgs s i = Some m" using inv st by (auto simp: conn_inv_def answers_ok_def)
  have "serials_ok ?s" by (intro serials_okI [OF ok ms]) (auto simp: doneSend_def)
  moreover have "closed_ok ?s" using inv st by (simp add: conn_inv_def closed_ok_def doneSend_def)
  moreover have "waiting_ok ?s" using inv st by (auto simp: conn_inv_def waiting_ok_def doneSend_def)
  moreover have "answers_ok ?s" unfolding answers_ok_def ms
    using inv st m free by (auto simp: conn_inv_def answers_ok_def doneSend_def)
  ultimately show ?thesis by (simp add: conn_inv_def)
qed

lemma conn_inv_work:
  assumes inv: "conn_inv s" and s': "inWorker s = Some s'"
  shows "conn_inv s'"
proof -
  have cl: "c_closed s = closedState (c_in s)" using inv by (simp add: conn_inv_def closed_ok_def)
  note mv = conn_inv_in [OF inv, where cl = False and names = "c_names s"]
  show ?thesis
  proof (cases "c_in s")
    case (InReply i r w)
    then show ?thesis using s' conn_inv_reply [OF inv InReply] by (auto simp: inWorker_def doneFull_iff split: if_splits)
  next
    case (InSignal g chs)
    then show ?thesis
    proof (cases chs)
      case Nil
      then have "s' = s\<lparr>c_names := c_names s, c_chan := c_chan s, c_closed := False \<or> c_closed s, c_in := InRead\<rparr>"
        using s' InSignal by (simp add: inWorker_def)
      then show ?thesis using mv [of InRead "c_chan s"] cl InSignal by simp
    next
      case (Cons ch cs)
      then have "s' = s\<lparr>c_names := c_names s, c_chan := (c_chan s)(ch := c_chan s ch @ [g]), c_closed := False \<or> c_closed s, c_in := InSignal g cs\<rparr>"
        using s' InSignal by (simp add: inWorker_def split: if_splits)
      then show ?thesis using mv [of "InSignal g cs" "(c_chan s)(ch := c_chan s ch @ [g])"] cl InSignal by simp
    qed
  next
    case (InClosing e)
    then have "s' = s\<lparr>c_names := c_names s, c_chan := c_chan s, c_closed := False \<or> c_closed s, c_in := InNotify e (map snd (c_calls s))\<rparr>"
      using s' by (simp add: inWorker_def)
    then show ?thesis using mv [of "InNotify e (map snd (c_calls s))" "c_chan s"] cl InClosing by simp
  next
    case (InNotify e is')
    then show ?thesis
    proof (cases is')
      case Nil
      then have "s' = s\<lparr>c_names := c_names s, c_chan := c_chan s, c_closed := False \<or> c_closed s, c_in := InEnd\<rparr>"
        using s' InNotify by (simp add: inWorker_def)
      then show ?thesis using mv [of InEnd "c_chan s"] cl InNotify Nil by simp
    next
      case (Cons i js)
      then show ?thesis using s' InNotify conn_inv_notify [OF inv, of e i js] by (auto simp: inWorker_def doneFull_iff split: if_splits)
    qed
  qed (use s' in \<open>simp_all add: inWorker_def\<close>)
qed

lemma handleMessage_moves:
  assumes "c_in s = InRead" "s' = handleMessage msg s"
  shows "s' = s\<lparr>c_names := c_names s', c_in := c_in s'\<rparr>" "\<not> closedState (c_in s')" "toTell (c_in s') = None"
    "c_in s' = InReply i r w \<Longrightarrow> go_lookup (c_calls s) w = Some i \<and> (\<forall>m. msg_serial m = w \<longrightarrow> answers r m)"
  using assms by (auto simp: handleMessage_def Let_def answers_def split: if_splits option.splits go.splits)

lemma conn_inv_read:
  assumes inv: "conn_inv s" and st: "c_in s = InRead"
  shows "conn_inv (handleRead r s)"
proof -
  have cl: "\<not> c_closed s" using inv st by (simp add: conn_inv_def closed_ok_def)
  show ?thesis
  proof (cases r)
    case (ReadMsg msg rest)
    define s' where "s' = handleMessage msg s"
    note mv = handleMessage_moves [OF st s'_def]
    have "conn_inv (s\<lparr>c_names := c_names s', c_chan := c_chan s, c_closed := False \<or> c_closed s, c_in := c_in s'\<rparr>)"
      using mv(2,3) mv(4) st cl by (intro conn_inv_in [OF inv]) auto
    then show ?thesis using ReadMsg mv(1) s'_def by (simp add: handleRead_def)
  next
    case (ReadErr e)
    have "conn_inv (s\<lparr>c_names := c_names s, c_chan := c_chan s, c_closed := True \<or> c_closed s, c_in := InClosing e\<rparr>)"
      using st by (intro conn_inv_in [OF inv]) auto
    then show ?thesis using ReadErr by (simp add: handleRead_def)
  next
    case (ReadPanic p)
    have "conn_inv (s\<lparr>c_names := c_names s, c_chan := c_chan s, c_closed := False \<or> c_closed s, c_in := InPanic p\<rparr>)"
      using st cl by (intro conn_inv_in [OF inv]) auto
    then show ?thesis using ReadPanic by (simp add: handleRead_def)
  qed (use inv in \<open>simp add: handleRead_def\<close>)
qed

lemma conn_inv_step: "dbus_step ready s s' \<Longrightarrow> conn_inv s \<Longrightarrow> conn_inv s'"
proof (induction rule: dbus_step.induct)
  case (call s i n s' dest path meth flags args m)
  then show ?case using goMessage_plain [of dest path meth flags args n m] by (intro conn_inv_call) auto
next
  case (register s i m)
  then show ?case by (intro conn_inv_register)
next
  case (enqueue s i m s')
  then show ?case using conn_inv_enqueue by blast
next
  case (receive s i m s')
  then show ?case using conn_inv_receive by blast
next
  case (send s hf wr s')
  then show ?case using conn_inv_send by blast
next
  case (read s r)
  then show ?case using conn_inv_read by blast
next
  case (work s s')
  then show ?case using conn_inv_work by blast
qed (rule conn_inv_frame; simp add: addSignal_def helloDone_def)+

lemma conn_inv_reachable: "dbus_reachable ready s \<Longrightarrow> conn_inv s"
  by (induction rule: dbus_reachable.induct) (auto intro: conn_inv_new conn_inv_step)

section \<open>Calls that never return\<close>

text \<open>\<open>Go\<close> blocks on the channel of its own call, which only its caller would empty.\<close>

definition stuckCall :: "nat \<Rightarrow> Message \<Rightarrow> dconn \<Rightarrow> bool" where
  "stuckCall i m s \<longleftrightarrow> c_closed s \<and> c_caller s i = CEnqueue m \<and> c_done s i \<noteq> []"

lemma handleRead_callers:
  "c_caller (handleRead r s) = c_caller s" "c_done (handleRead r s) = c_done s" "c_closed s \<Longrightarrow> c_closed (handleRead r s)"
  by (simp_all add: handleRead_def handleMessage_def Let_def split: read_result.split option.split go.split)

lemma stuckCall_step: "dbus_step ready s s' \<Longrightarrow> stuckCall i m s \<Longrightarrow> stuckCall i m s'"
proof (induction rule: dbus_step.induct)
  case (call s j n s' dest path meth flags args m')
  then show ?case by (auto simp: stuckCall_def setCaller_def getSerial_def)
next
  case (register s j m')
  then show ?case by (auto simp: stuckCall_def setCaller_def registerCall_def)
next
  case (enqueue s j m' s')
  then show ?case by (auto simp: stuckCall_def setCaller_def enqueueCall_def doneSend_def doneFull_iff split: if_splits)
next
  case (receive s j m' s')
  then show ?case by (auto simp: stuckCall_def setCaller_def receiveDone_def split: list.splits if_splits)
next
  case (send s hf wr s')
  then show ?case
    by (auto simp: stuckCall_def sendStep_def outWorker_def doneSend_def freeSerial_def split: list.splits prod.splits option.splits if_splits)
next
  case (read s r)
  then show ?case by (simp add: stuckCall_def handleRead_callers)
next
  case (work s s')
  then show ?case
    by (auto simp: stuckCall_def inWorker_def doneSend_def freeSerial_def split: in_state.splits list.splits if_splits)
qed (auto simp: stuckCall_def addSignal_def helloDone_def)

lemma stuckCall_forever: "(dbus_step ready)\<^sup>*\<^sup>* s s' \<Longrightarrow> stuckCall i m s \<Longrightarrow> stuckCall i m s'"
  by (induction rule: rtranclp_induct) (auto intro: stuckCall_step)


text \<open>The run that leads there: a call is registered, the connection ends, every registered call is told, and only then does \<open>Go\<close> look
  whether the connection is closed.\<close>

lemma stuckCall_reachable: "\<exists>s m. dbus_reachable ready s \<and> c_in s = InEnd \<and> stuckCall 0 m s"
proof -
  obtain m where m: "goMessage ''d'' ''/p'' ''m'' 0 [] 1 = Ok m" "msg_serial m = 1" by (simp add: goMessage_def Let_def)
  have free: "nextFree [0] 1 = Some 1" by (simp add: nextFree.simps)
  let ?s1 = "setCaller 0 (CRegister m) (newConn\<lparr>c_serialUsed := [1, 0], c_nextSerial := 2\<rparr>)"
  let ?s2 = "registerCall 0 m ?s1"
  let ?s3 = "handleRead (ReadErr errEOF) ?s2"
  have "getSerial newConn = Some (1, newConn\<lparr>c_serialUsed := [1, 0], c_nextSerial := 2\<rparr>)"
    using free by (simp add: getSerial_def newConn_def)
  then have r1: "dbus_reachable ready ?s1"
    using m(1) by (intro dbus_reachable.step [OF dbus_reachable.start] dbus_step.call [of newConn 0]) (auto simp: newConn_def)
  then have r2: "dbus_reachable ready ?s2"
    by (rule dbus_reachable.step) (rule dbus_step.register, simp_all add: setCaller_def newConn_def callsLocked_def)
  then have r3: "dbus_reachable ready ?s3"
    by (rule dbus_reachable.step) (rule dbus_step.read, simp add: setCaller_def newConn_def registerCall_def)
  let ?s4 = "?s3\<lparr>c_in := InNotify errEOF [0]\<rparr>"
  have "inWorker ?s3 = Some ?s4"
    by (simp add: inWorker_def handleRead_def registerCall_def setCaller_def newConn_def go_update_def)
  then have r4: "dbus_reachable ready ?s4" using r3 dbus_reachable.step dbus_step.work by blast
  let ?s5 = "(doneSend 0 (Failed errEOF) ?s4)\<lparr>c_in := InNotify errEOF []\<rparr>"
  have "inWorker ?s4 = Some ?s5"
    by (simp add: inWorker_def handleRead_def registerCall_def setCaller_def newConn_def doneFull_iff)
  then have r5: "dbus_reachable ready ?s5" using r4 dbus_reachable.step dbus_step.work by blast
  let ?s6 = "?s5\<lparr>c_in := InEnd\<rparr>"
  have "inWorker ?s5 = Some ?s6" by (simp add: inWorker_def)
  then have "dbus_reachable ready ?s6" using r5 dbus_reachable.step dbus_step.work by blast
  moreover have "stuckCall 0 m ?s6" by (simp add: stuckCall_def handleRead_def registerCall_def setCaller_def doneSend_def)
  ultimately show ?thesis by (intro exI [of _ ?s6] exI [of _ m]) simp
qed

section \<open>Properties\<close>



text \<open>Two ways in which a call never returns. When the connection ends between the registration of a call and the end of Go, the
  call is told of the end before Go finds the connection closed, and Go blocks for ever on the channel that holds that outcome. And the
  unix transport drops every error: a message that is not valid is taken from the queue without being sent, and its call gets no outcome.\<close>

lemma dbus_call_stuck:
  "(\<exists>s i m. dbus_reachable ready s \<and> c_in s = InEnd \<and> c_caller s i = CEnqueue m \<and>
      (\<forall>s'. (dbus_step ready)\<^sup>*\<^sup>* s s' \<longrightarrow> c_caller s' i = CEnqueue m)) \<and>
   (IsValid m \<noteq> None \<and> plain m \<longrightarrow> sendStep hasUnixFDs wr (s\<lparr>c_out := m # ms\<rparr>) = Some (s\<lparr>c_out := ms\<rparr>))"
proof (intro conjI impI)
  obtain s m where s: "dbus_reachable ready s" "c_in s = InEnd" "stuckCall 0 m s" using stuckCall_reachable by blast
  then show "\<exists>s i m. dbus_reachable ready s \<and> c_in s = InEnd \<and> c_caller s i = CEnqueue m \<and>
      (\<forall>s'. (dbus_step ready)\<^sup>*\<^sup>* s s' \<longrightarrow> c_caller s' i = CEnqueue m)"
    using stuckCall_forever by (intro exI [of _ s] exI [of _ 0] exI [of _ m]) (auto simp: stuckCall_def)
next
  assume m: "IsValid m \<noteq> None \<and> plain m"
  then show "sendStep hasUnixFDs wr (s\<lparr>c_out := m # ms\<rparr>) = Some (s\<lparr>c_out := ms\<rparr>)"
    by (auto simp: sendStep_def SendMessage_unix_nil EncodeTo_def outWorker_def plain_def)
qed

end
