(* ===== verification/Dbus_Export.thy ===== *)
theory Dbus_Export
  imports Dbus_Conn
begin

text \<open>
  Calls that the peer makes on the connection (\<open>godbus/dbus/export.go\<close>, and \<open>sendReply\<close> and \<open>sendError\<close> of \<open>conn.go\<close>).

  The values that are exported under a path are a parameter: what a call of one of their methods gives. The program exports nothing.
\<close>

section \<open>Answers\<close>

definition withSignature :: "dval list \<Rightarrow> Message \<Rightarrow> Message go" where
  "withSignature values msg = (if values = [] then Ok msg
     else bind_go (SignatureOf (map typeOf values)) (\<lambda>sg. Ok (msg\<lparr>msg_Headers := msg_Headers msg @ [(FieldSignature, ''g'', DSignature sg)]\<rparr>)))"

definition destHeader :: "string \<Rightarrow> (8 word \<times> variant) list" where
  "destHeader dest = (if dest \<noteq> '''' then [(FieldDestination, ''s'', DString dest)] else [])"

definition sendReply :: "32 word \<Rightarrow> string \<Rightarrow> 32 word \<Rightarrow> dval list \<Rightarrow> Message go" where
  "sendReply own dest serial values = withSignature values \<lparr>msg_Type = TypeMethodReply, msg_Flags = 0,
     msg_Headers = destHeader dest @ [(FieldReplySerial, ''u'', DUint32 serial)], msg_Body = values, msg_serial = own\<rparr>"

definition sendError :: "32 word \<Rightarrow> string \<times> dval list \<Rightarrow> string \<Rightarrow> 32 word \<Rightarrow> Message go" where
  "sendError own e dest serial = withSignature (snd e) \<lparr>msg_Type = TypeError, msg_Flags = 0,
     msg_Headers = destHeader dest @ [(FieldErrorName, ''s'', DString (fst e)), (FieldReplySerial, ''u'', DUint32 serial)],
     msg_Body = snd e, msg_serial = own\<rparr>"

definition errmsgInvalidArg :: "string \<times> dval list" where
  "errmsgInvalidArg = (''org.freedesktop.DBus.Error.InvalidArgs'', [DString ''Invalid type / number of args''])"

definition errmsgNoObject :: "string \<times> dval list" where
  "errmsgNoObject = (''org.freedesktop.DBus.Error.NoSuchObject'', [DString ''No such object''])"

definition errmsgUnknownMethod :: "string \<times> dval list" where
  "errmsgUnknownMethod = (''org.freedesktop.DBus.Error.UnknownMethod'', [DString ''Unknown / invalid method''])"

section \<open>Handlers\<close>

text \<open>
  An export: its mapping of names, if it has one, and its methods. \<open>None\<close> is a nil value. A method gives, from the sender, the message and the
  arguments, \<open>Inl\<close> the error that it returns, \<open>Inr\<close> its results, and \<open>None\<close> when the arguments do not fit its parameters.
\<close>

type_synonym dmethod = "string \<Rightarrow> Message \<Rightarrow> dval list \<Rightarrow> ((string \<times> dval list) + dval list) option"

record export =
  ex_methods :: "(string, dmethod) gomap option"
  ex_mapping :: "(string \<times> string) list"
  ex_subtree :: bool

text \<open>The loop over the mapping, in the order in which \<open>range\<close> gives its entries; \<open>None\<close> for the method whose name was mapped away.\<close>

fun mappedName :: "(string \<times> string) list \<Rightarrow> string \<Rightarrow> string option" where
  "mappedName [] name = Some name"
| "mappedName ((key, val) # m) name = (if val = name then Some key else if key = name then None else mappedName m name)"

definition exportedMethod :: "export \<Rightarrow> string \<Rightarrow> dmethod option" where
  "exportedMethod ex name = (case ex_methods ex of None \<Rightarrow> None
     | Some ms \<Rightarrow> Option.bind (mappedName (ex_mapping ex) name) (go_lookup ms))"

type_synonym handlers = "(string, (string, export) gomap) gomap"

text \<open>\<open>path[:strings.LastIndex(path, "/")]\<close>; without a slash the slice expression panics.\<close>

definition parentPath :: "string \<Rightarrow> string go" where
  "parentPath path = (case lastIndex (CHR ''/'') path of None \<Rightarrow> Panic IndexOutOfRange | Some i \<Rightarrow> Ok (take i path))"

lemma parentPath_shorter: "parentPath path = Ok p \<Longrightarrow> length p < length path"
  by (cases path) (auto simp: parentPath_def lastIndex_def split: if_splits)

function searchSubtree :: "handlers \<Rightarrow> string \<Rightarrow> (string, export) gomap option go" where
  "searchSubtree hs path = (if path = '''' then Ok None
     else (case go_lookup hs path of
       Some ifs \<Rightarrow> Ok (Some (filter (\<lambda>h. ex_subtree (snd h)) ifs))
     | None \<Rightarrow> (case parentPath path of Ok p \<Rightarrow> searchSubtree hs p | Panic q \<Rightarrow> Panic q | Err e \<Rightarrow> Err e | Fatal t \<Rightarrow> Fatal t)))"
  by auto
termination by (relation "measure (\<lambda>(_, path). length path)") (auto dest: parentPath_shorter)

definition searchHandlers :: "handlers \<Rightarrow> string \<Rightarrow> (string, export) gomap option go" where
  "searchHandlers hs path = (case go_lookup hs path of Some ifs \<Rightarrow> Ok (Some ifs)
     | None \<Rightarrow> bind_go (parentPath path) (searchSubtree hs))"

section \<open>Calls\<close>

fun firstMethod :: "(string, export) gomap \<Rightarrow> string \<Rightarrow> dmethod option" where
  "firstMethod [] name = None"
| "firstMethod (h # hs) name = (case exportedMethod (snd h) name of Some m \<Rightarrow> Some m | None \<Rightarrow> firstMethod hs name)"

definition findMethod :: "(string, export) gomap \<Rightarrow> Message \<Rightarrow> dmethod option" where
  "findMethod ifs msg = (if has_key (msg_Headers msg) FieldInterface
     then Option.bind (go_lookup ifs (headerString FieldInterface msg)) (\<lambda>ex. exportedMethod ex (headerString FieldMember msg))
     else firstMethod ifs (headerString FieldMember msg))"

text \<open>The reply to a call of an exported method; the destination is the header of the call as it is.\<close>

definition methodReply :: "32 word \<Rightarrow> Message \<Rightarrow> dval list \<Rightarrow> Message go" where
  "methodReply own msg vs = withSignature vs \<lparr>msg_Type = TypeMethodReply, msg_Flags = 0,
     msg_Headers = (case go_lookup (msg_Headers msg) FieldSender of None \<Rightarrow> [] | Some v \<Rightarrow> [(FieldDestination, v)]) @
       [(FieldReplySerial, ''u'', DUint32 (msg_serial msg))], msg_Body = vs, msg_serial = own\<rparr>"

text \<open>
  \<open>handleCall\<close>: the message that is sent. \<open>own\<close> is the serial number of the answer. A valid message has a member that is
  not empty, so the test for an empty name is left out.
\<close>

definition handleCall :: "string \<Rightarrow> handlers \<Rightarrow> 32 word \<Rightarrow> Message \<Rightarrow> Message option go" where
  "handleCall uuid hs own msg = (let name = headerString FieldMember msg; sender = headerString FieldSender msg; serial = msg_serial msg in
     if headerString FieldInterface msg = ''org.freedesktop.DBus.Peer'' then
       map_go_res Some (if name = ''Ping'' then sendReply own sender serial []
         else if name = ''GetMachineId'' then sendReply own sender serial [DString uuid]
         else sendError own errmsgUnknownMethod sender serial)
     else bind_go (searchHandlers hs (headerPath FieldPath msg)) (\<lambda>found. case found of
         None \<Rightarrow> map_go_res Some (sendError own errmsgNoObject sender serial)
       | Some ifs \<Rightarrow> (case findMethod ifs msg of
             None \<Rightarrow> map_go_res Some (sendError own errmsgUnknownMethod sender serial)
           | Some m \<Rightarrow> (case m sender msg (msg_Body msg) of
                 None \<Rightarrow> map_go_res Some (sendError own errmsgInvalidArg sender serial)
               | Some (Inl e) \<Rightarrow> map_go_res Some (sendError own e sender serial)
               | Some (Inr vs) \<Rightarrow>
                   if msg_Flags msg AND FlagNoReplyExpected = 0 then map_go_res Some (methodReply own msg vs) else Ok None))))"

text \<open>\<open>exportWithMap\<close>; \<open>v\<close> is \<open>None\<close> for nil.\<close>

definition exportWithMap :: "(string, dmethod) gomap option \<Rightarrow> (string \<times> string) list \<Rightarrow> string \<Rightarrow> string \<Rightarrow> bool \<Rightarrow> handlers \<Rightarrow> handlers go" where
  "exportWithMap v mapping path iface includeSubtree hs =
     (if \<not> ObjectPath_IsValid path then Err (Errorf ''dbus: Invalid path name: \"%s\"'' [EStr path])
      else (case v of
        None \<Rightarrow> (case go_lookup hs path of None \<Rightarrow> Ok hs
          | Some ifs \<Rightarrow> (let ifs' = go_delete iface ifs in Ok (if ifs' = [] then go_delete path hs else go_update path ifs' hs)))
      | Some ms \<Rightarrow> Ok (go_update path (go_update iface \<lparr>ex_methods = Some ms, ex_mapping = mapping, ex_subtree = includeSubtree\<rparr>
            (case go_lookup hs path of None \<Rightarrow> [] | Some ifs \<Rightarrow> ifs)) hs)))"

definition Emit :: "32 word \<Rightarrow> string \<Rightarrow> string \<Rightarrow> dval list \<Rightarrow> Message go" where
  "Emit own path name values =
     (if \<not> ObjectPath_IsValid path then Err (ErrNew ''dbus: invalid object path'')
      else (case lastIndex (CHR ''.'') name of None \<Rightarrow> Err (ErrNew ''dbus: invalid method name'')
        | Some i \<Rightarrow>
            if \<not> isValidMember (drop (i + 1) name) then Err (ErrNew ''dbus: invalid method name'')
            else if \<not> isValidInterface (take i name) then Err (ErrNew ''dbus: invalid interface name'')
            else withSignature values \<lparr>msg_Type = TypeSignal, msg_Flags = 0,
              msg_Headers = [(FieldInterface, ''s'', DString (take i name)), (FieldMember, ''s'', DString (drop (i + 1) name)),
                (FieldPath, ''o'', DObjectPath path)], msg_Body = values, msg_serial = own\<rparr>))"

section \<open>What is exported is found\<close>

declare searchSubtree.simps [simp del]

lemma searchHandlers_exported:
  assumes "exportWithMap (Some ms) mapping path iface sub hs = Ok hs'"
  shows "\<exists>ifs. searchHandlers hs' path = Ok (Some ifs) \<and> go_lookup ifs iface = Some \<lparr>ex_methods = Some ms, ex_mapping = mapping, ex_subtree = sub\<rparr>"
  using assms by (auto simp: exportWithMap_def searchHandlers_def split: if_splits)

lemma searchHandlers_other:
  assumes "exportWithMap v mapping path iface sub hs = Ok hs'" "p \<noteq> path"
  shows "go_lookup hs' p = go_lookup hs p"
  using assms by (auto simp: exportWithMap_def Let_def split: if_splits option.splits)

text \<open>A path without exports below or at it is not found, and the search does not panic on a valid path.\<close>

lemma ObjectPath_slash: "ObjectPath_IsValid p \<Longrightarrow> \<exists>q. p = CHR ''/'' # q"
  by (cases p) (auto simp: ObjectPath_IsValid_def split: if_splits)

lemma parentPath_slash: "\<exists>r. parentPath (CHR ''/'' # q) = Ok r \<and> (r = '''' \<or> (\<exists>q'. r = CHR ''/'' # q'))"
  by (auto simp: parentPath_def lastIndex_def take_Cons split: nat.split)

lemma searchSubtree_empty: "p = '''' \<or> (\<exists>q. p = CHR ''/'' # q) \<Longrightarrow> searchSubtree [] p = Ok None"
proof (induction "length p" arbitrary: p rule: less_induct)
  case less
  show ?case
  proof (cases p)
    case (Cons c q)
    then obtain r where r: "parentPath p = Ok r" "r = '''' \<or> (\<exists>q'. r = CHR ''/'' # q')" using less.prems parentPath_slash by blast
    then have "searchSubtree [] r = Ok None" using less.hyps parentPath_shorter by blast
    then show ?thesis using Cons r(1) by (subst searchSubtree.simps) simp
  qed (simp add: searchSubtree.simps)
qed

lemma searchHandlers_empty: "ObjectPath_IsValid p \<Longrightarrow> searchHandlers [] p = Ok None"
proof -
  assume "ObjectPath_IsValid p"
  then obtain q where "p = CHR ''/'' # q" using ObjectPath_slash by blast
  then obtain r where "parentPath p = Ok r" "searchSubtree [] r = Ok None" using parentPath_slash [of q] searchSubtree_empty by blast
  then show ?thesis by (simp add: searchHandlers_def)
qed

section \<open>Every call is answered\<close>

text \<open>A valid message that carries the serial number of the call back to its sender.\<close>

definition answersCall :: "string \<Rightarrow> 32 word \<Rightarrow> Message go \<Rightarrow> bool" where
  "answersCall dest serial r \<longleftrightarrow> (case r of Ok a \<Rightarrow> IsValid a = None \<and> replySerial a = Some serial \<and>
     (msg_Type a = TypeMethodReply \<or> msg_Type a = TypeError) \<and> headerString FieldDestination a = dest | _ \<Rightarrow> False)"

lemma SignatureOf_string: "SignatureOf [TString] = Ok ''s''"
  by code_simp

lemma answers_valid:
  "answersCall dest serial (sendReply own dest serial [])" "answersCall dest serial (sendReply own dest serial [DString s])"
  "answersCall dest serial (sendError own errmsgUnknownMethod dest serial)" "answersCall dest serial (sendError own errmsgNoObject dest serial)"
  by (cases dest; simp add: answersCall_def sendReply_def sendError_def errmsgUnknownMethod_def errmsgNoObject_def withSignature_def
      SignatureOf_string replySerial_def headerString_def destHeader_def go_lookup_def; code_simp)+

lemma sendReply_type: "sendReply own dest serial vs = Ok a \<Longrightarrow> msg_Type a = TypeMethodReply"
  by (auto simp: sendReply_def withSignature_def bind_go_Ok_iff split: if_splits)

lemma sendError_type: "sendError own e dest serial = Ok a \<Longrightarrow> msg_Type a = TypeError"
  by (auto simp: sendError_def withSignature_def bind_go_Ok_iff split: if_splits)

text \<open>A connection without exports, like the one of the program, answers every valid call with one valid message: a ping with an empty reply,
  the question for the machine with its identifier, any other method with an error.\<close>

lemma handleCall_answers:
  assumes "IsValid msg = None" "msg_Type msg = TypeMethodCall"
  shows "\<exists>a. handleCall uuid [] own msg = Ok (Some a) \<and> answersCall (headerString FieldSender msg) (msg_serial msg) (Ok a) \<and>
    (msg_Type a = TypeMethodReply \<longleftrightarrow> headerString FieldInterface msg = ''org.freedesktop.DBus.Peer'' \<and>
      headerString FieldMember msg \<in> {''Ping'', ''GetMachineId''})"
proof -
  have "has_key (msg_Headers msg) FieldPath" "has_key (msg_Headers msg) FieldPath \<longrightarrow> ObjectPath_IsValid (headerPath FieldPath msg)"
    using assms by (auto simp: IsValid_def Let_def requiredFields_def split: if_splits option.splits)
  then have none: "searchHandlers [] (headerPath FieldPath msg) = Ok None" using searchHandlers_empty by blast
  let ?d = "headerString FieldSender msg" and ?n = "msg_serial msg"
  have ok: ?thesis if "handleCall uuid [] own msg = map_go_res Some r" "answersCall ?d ?n r"
    "\<And>a. r = Ok a \<Longrightarrow> msg_Type a = TypeMethodReply \<longleftrightarrow> headerString FieldInterface msg = ''org.freedesktop.DBus.Peer'' \<and>
      headerString FieldMember msg \<in> {''Ping'', ''GetMachineId''}" for r
    using that by (cases r) (auto simp: answersCall_def)
  note send = sendReply_type sendError_type
  show ?thesis
  proof (cases "headerString FieldInterface msg = ''org.freedesktop.DBus.Peer''")
    case True
    consider "headerString FieldMember msg = ''Ping''" | "headerString FieldMember msg = ''GetMachineId''"
      | "headerString FieldMember msg \<notin> {''Ping'', ''GetMachineId''}" by blast
    then show ?thesis
    proof cases
      case 1
      then show ?thesis using True answers_valid(1) [of ?d ?n own]
        by (intro ok [of "sendReply own ?d ?n []"]) (auto simp: handleCall_def Let_def dest: send)
    next
      case 2
      then show ?thesis using True answers_valid(2) [of ?d ?n own uuid]
        by (intro ok [of "sendReply own ?d ?n [DString uuid]"]) (auto simp: handleCall_def Let_def dest: send)
    next
      case 3
      then show ?thesis using True answers_valid(3) [of ?d ?n own]
        by (intro ok [of "sendError own errmsgUnknownMethod ?d ?n"]) (auto simp: handleCall_def Let_def dest: send)
    qed
  next
    case False
    then show ?thesis using none answers_valid(4) [of ?d ?n own]
      by (intro ok [of "sendError own errmsgNoObject ?d ?n"]) (auto simp: handleCall_def Let_def dest: send)
  qed
qed

end
