(* ===== verification/Firewalld.thy ===== *)
theory Firewalld
  imports Iptables
begin

text \<open>
  The connection to firewalld, \<open>libnetwork/iptables/firewalld.go\<close>. When firewalld runs, \<open>Raw\<close>
  hands its rules to it over D-Bus instead of calling \<open>iptables\<close>.

  The calls over D-Bus are parameters (\<open>fw_env\<close>). The callbacks are numbers; \<open>fw_called\<close> is the
  list of the callbacks that were called. A pointer to a callback is the address of the parameter
  of one call of \<open>OnReloaded\<close>, so every call has a fresh one.
\<close>

section \<open>State and environment\<close>

record 'w fw_env =
  fw_SystemBus :: "'w \<Rightarrow> unit go \<times> 'w"
  fw_AddMatch :: "string \<Rightarrow> 'w \<Rightarrow> 'w"
  fw_Signal :: "'w \<Rightarrow> 'w"
  fw_getDefaultZone :: "'w \<Rightarrow> string go \<times> 'w"
  fw_passthrough :: "string \<Rightarrow> string list \<Rightarrow> 'w \<Rightarrow> string go \<times> 'w"

record 'w firewalld =
  fw_connection :: bool
  fw_onReloaded :: "(nat \<times> nat) list"
  fw_pointers :: nat
  fw_called :: "nat list"
  fw_plugin :: "'w plugin"

definition dbusInterface :: string where
  "dbusInterface = ''org.fedoraproject.FirewallD1''"

definition dbusPath :: string where
  "dbusPath = ''/org/fedoraproject/FirewallD1''"

definition onBus :: "('w \<Rightarrow> 'a \<times> 'w) \<Rightarrow> 'w firewalld \<Rightarrow> 'a \<times> 'w firewalld" where
  "onBus f s = (case f (world (fw_plugin s)) of (a, w) \<Rightarrow> (a, s\<lparr>fw_plugin := (fw_plugin s)\<lparr>world := w\<rparr>\<rparr>))"

section \<open>Operations\<close>

definition reloadedRule :: string where
  "reloadedRule = sprintfStrings (''type='signal',path='%s',interface='%s',sender='%s',member='Reloaded'' @ [CHR 0x27])
     [dbusPath, dbusInterface, dbusInterface]"

definition ownerRule :: string where
  "ownerRule = sprintfStrings
     (''type='signal',interface='org.freedesktop.DBus',member='NameOwnerChanged','' @
      ''path='/org/freedesktop/DBus',sender='org.freedesktop.DBus',arg0='%s'' @ [CHR 0x27])
     [dbusInterface]"

definition initConnection :: "'w fw_env \<Rightarrow> 'w \<Rightarrow> unit go \<times> 'w" where
  "initConnection E = bindG (fw_SystemBus E) (\<lambda>_.
     modifyG (\<lambda>w. fw_Signal E (fw_AddMatch E ownerRule (fw_AddMatch E reloadedRule w))))"

definition checkRunning :: "'w fw_env \<Rightarrow> 'w firewalld \<Rightarrow> bool \<times> 'w firewalld" where
  "checkRunning E s = (if fw_connection s
     then (case onBus (fw_getDefaultZone E) s of (r, s') \<Rightarrow> (is_Ok r, s')) else (False, s))"

definition setRunning :: "'w fw_env \<Rightarrow> 'w firewalld \<Rightarrow> 'w firewalld" where
  "setRunning E s = (case checkRunning E s of (b, s') \<Rightarrow>
     s'\<lparr>fw_plugin := (fw_plugin s')\<lparr>firewalldRunning := b\<rparr>\<rparr>)"

definition FirewalldInit :: "'w fw_env \<Rightarrow> ('w firewalld, unit) gom" where
  "FirewalldInit E s = (case onBus (initConnection E) s of
       (Ok _, s') \<Rightarrow> (Ok (), setRunning E (s'\<lparr>fw_connection := True\<rparr>))
     | (Err e, s') \<Rightarrow> (Err (Errorf ''Failed to connect to D-Bus system bus: %v'' [EErr e]), s'\<lparr>fw_connection := False\<rparr>)
     | (Panic p, s') \<Rightarrow> (Panic p, s')
     | (Fatal t, s') \<Rightarrow> (Fatal t, s'))"

definition reloaded :: "'w firewalld \<Rightarrow> 'w firewalld" where
  "reloaded s = s\<lparr>fw_called := fw_called s @ map snd (fw_onReloaded s)\<rparr>"

definition OnReloaded :: "nat \<Rightarrow> 'w firewalld \<Rightarrow> 'w firewalld" where
  "OnReloaded callback s = (let p = fw_pointers s; s' = s\<lparr>fw_pointers := Suc p\<rparr> in
     if p \<in> set (map fst (fw_onReloaded s)) then s'
     else s'\<lparr>fw_onReloaded := fw_onReloaded s @ [(p, callback)]\<rparr>)"

text \<open>\<open>args[i].(string)\<close>\<close>

definition stringArg :: "gov list \<Rightarrow> nat \<Rightarrow> string go" where
  "stringArg args i = bind_go (indexGo args i) (\<lambda>v. case v of GString s \<Rightarrow> Ok s | _ \<Rightarrow> Panic TypeAssertion)"

definition dbusConnectionChanged :: "gov list \<Rightarrow> ('w firewalld, unit) gom" where
  "dbusConnectionChanged args =
     bindG (liftG (stringArg args 0)) (\<lambda>name.
     bindG (liftG (stringArg args 1)) (\<lambda>oldOwner.
     bindG (liftG (stringArg args 2)) (\<lambda>newOwner.
       if name \<noteq> dbusInterface then retG ()
       else if newOwner \<noteq> '''' then modifyG reloaded
       else retG ())))"

text \<open>The body of the loop of \<open>signalHandler\<close>.\<close>

definition handleSignal :: "'w fw_env \<Rightarrow> string \<Rightarrow> gov list \<Rightarrow> ('w firewalld, unit) gom" where
  "handleSignal E name body s =
     (if containsStr name ''NameOwnerChanged'' then dbusConnectionChanged body (setRunning E s)
      else if containsStr name ''Reloaded'' then (Ok (), reloaded s)
      else (Ok (), s))"

text \<open>\<open>Passthrough\<close>; without a connection it dereferences a nil pointer.\<close>

definition fwPassthrough :: "'w fw_env \<Rightarrow> bool \<Rightarrow> string \<Rightarrow> string list \<Rightarrow> 'w \<Rightarrow> string go \<times> 'w" where
  "fwPassthrough E connected ipv args w =
     (if connected then fw_passthrough E ipv args w else (Panic NilDereference, w))"

section \<open>Runs\<close>

text \<open>The package after its initialisation: signals come in, callbacks are added, rules are set.\<close>

inductive fw_step :: "'w fw_env \<Rightarrow> 'w firewalld \<Rightarrow> 'w firewalld \<Rightarrow> bool" for E :: "'w fw_env" where
  signal: "handleSignal E name body s = (Ok (), s') \<Longrightarrow> fw_step E s s'"
| register: "fw_step E s (OnReloaded callback s)"
| rule: "Passthrough (env :: 'w env) = fwPassthrough E (fw_connection s) ''ipv4'' \<Longrightarrow> Raw env args (fw_plugin s) = (r, p) \<Longrightarrow>
    fw_step E s (s\<lparr>fw_plugin := p\<rparr>)"

inductive fw_reachable :: "'w fw_env \<Rightarrow> 'w firewalld \<Rightarrow> bool" for E where
  start: "\<not> firewalldRunning p \<Longrightarrow> FirewalldInit E \<lparr>fw_connection = False, fw_onReloaded = [], fw_pointers = 0,
    fw_called = [], fw_plugin = p\<rparr> = (r, s) \<Longrightarrow> fw_reachable E s"
| step: "fw_reachable E s \<Longrightarrow> fw_step E s s' \<Longrightarrow> fw_reachable E s'"

definition fw_inv :: "'w firewalld \<Rightarrow> bool" where
  "fw_inv s \<longleftrightarrow> (firewalldRunning (fw_plugin s) \<longrightarrow> fw_connection s) \<and>
     (\<forall>p \<in> set (map fst (fw_onReloaded s)). p < fw_pointers s)"

lemma keepsG_onWorld_running [keeps_intros]: "keepsG (\<lambda>s. firewalldRunning s = b) (onWorld f)"
  by (simp add: keepsG_def onWorld_def split: prod.splits)

lemma Raw_keeps_running: "keepsG (\<lambda>s. firewalldRunning s = b) (Raw env args)"
proof -
  have "keepsG (\<lambda>s. firewalldRunning s = b) (initCheck env)"
    unfolding initCheck_def by (intro keepsG_if_state keeps_intros keepsG_modifyG) simp_all
  then have "keepsG (\<lambda>s. firewalldRunning s = b) (rawExec env args)"
    unfolding rawExec_def case_prod_unfold by (intro keeps_intros) (auto intro: keeps_intros split: option.split)
  then show ?thesis unfolding Raw_def by (intro keepsG_if_state keeps_intros)
qed

lemma setRunning_frame:
  "fw_connection (setRunning E s) = fw_connection s" "fw_onReloaded (setRunning E s) = fw_onReloaded s"
  "fw_pointers (setRunning E s) = fw_pointers s" "fw_called (setRunning E s) = fw_called s"
  "firewalldRunning (fw_plugin (setRunning E s)) \<Longrightarrow> fw_connection s"
  by (auto simp: setRunning_def checkRunning_def onBus_def split: prod.splits if_splits)

lemma dbusConnectionChanged_frame:
  "dbusConnectionChanged body s = (r, s') \<Longrightarrow> s' = s \<or> s' = reloaded s"
  by (auto simp: dbusConnectionChanged_def go_monad split: go.splits if_splits)

lemma reloaded_inv [simp]: "fw_inv (reloaded s) \<longleftrightarrow> fw_inv s"
  by (simp add: fw_inv_def reloaded_def)

lemma fw_inv_setRunning: "fw_inv s \<Longrightarrow> fw_inv (setRunning E s)"
  using setRunning_frame(5) [of E s] by (simp add: fw_inv_def setRunning_frame)

lemma fw_inv_step: "fw_step E s s' \<Longrightarrow> fw_inv s \<Longrightarrow> fw_inv s'"
proof (induction rule: fw_step.induct)
  case (signal name body s s')
  then show ?case
    using dbusConnectionChanged_frame [of body "setRunning E s" "Ok ()" s'] fw_inv_setRunning [of s E]
    by (auto simp: handleSignal_def split: if_splits)
next
  case (register s callback)
  then show ?case by (auto simp: fw_inv_def OnReloaded_def Let_def less_Suc_eq)
next
  case (rule env s args r p)
  then have "firewalldRunning p = firewalldRunning (fw_plugin s)"
    using keepsG_D [OF Raw_keeps_running [of "firewalldRunning (fw_plugin s)" env args], of "fw_plugin s"] by simp
  then show ?case using rule.prems by (simp add: fw_inv_def)
qed

lemma fw_inv_init: "\<not> firewalldRunning p \<Longrightarrow> FirewalldInit E \<lparr>fw_connection = False, fw_onReloaded = [], fw_pointers = 0,
    fw_called = [], fw_plugin = p\<rparr> = (r, s) \<Longrightarrow> fw_inv s"
  by (auto simp: FirewalldInit_def fw_inv_def setRunning_frame onBus_def split: prod.splits go.splits)

lemma fw_inv_reachable: "fw_reachable E s \<Longrightarrow> fw_inv s"
  by (induction rule: fw_reachable.induct) (auto intro: fw_inv_init fw_inv_step)

section \<open>Properties\<close>

text \<open>C30. Once the package is initialised, rules go to firewalld only while there is a connection to
  it. A callback is registered by every call of OnReloaded, also when it is registered already,
  because the code compares addresses of its own parameter; when firewalld has been reloaded, or has
  got an owner on the bus, every registration is called once, in order; when it has lost its owner
  none is, and whether it runs is asked again.\<close>

theorem firewalld_reloads:
  assumes "fw_reachable E s"
  shows "(firewalldRunning (fw_plugin s) \<longrightarrow> fwPassthrough E (fw_connection s) = fw_passthrough E) \<and>
    fw_onReloaded (OnReloaded callback s) = fw_onReloaded s @ [(fw_pointers s, callback)] \<and>
    handleSignal E (dbusInterface @ ''.Reloaded'') body s = (Ok (), reloaded s) \<and>
    handleSignal E ''org.freedesktop.DBus.NameOwnerChanged'' [GString dbusInterface, GString old, GString new] s =
      (Ok (), if new \<noteq> '''' then reloaded (setRunning E s) else setRunning E s) \<and>
    fw_called (reloaded s) = fw_called s @ map snd (fw_onReloaded s)"
proof -
  have inv: "fw_inv s" using assms by (rule fw_inv_reachable)
  then have "fw_pointers s \<notin> set (map fst (fw_onReloaded s))" by (auto simp: fw_inv_def)
  then have "fw_onReloaded (OnReloaded callback s) = fw_onReloaded s @ [(fw_pointers s, callback)]"
    by (auto simp: OnReloaded_def Let_def)
  moreover have "firewalldRunning (fw_plugin s) \<longrightarrow> fwPassthrough E (fw_connection s) = fw_passthrough E"
    using inv by (auto simp: fw_inv_def fwPassthrough_def fun_eq_iff)
  moreover have "containsStr (dbusInterface @ ''.Reloaded'') ''Reloaded''"
    "\<not> containsStr (dbusInterface @ ''.Reloaded'') ''NameOwnerChanged''"
    "containsStr ''org.freedesktop.DBus.NameOwnerChanged'' ''NameOwnerChanged''" by code_simp+
  moreover have "dbusConnectionChanged [GString dbusInterface, GString old, GString new] t =
      (Ok (), if new \<noteq> '''' then reloaded t else t)" for t :: "'a firewalld"
    by (simp add: dbusConnectionChanged_def stringArg_def indexGo_def go_monad)
  ultimately show ?thesis by (simp add: handleSignal_def reloaded_def)
qed

definition lab_fw_env :: "lab fw_env" where
  "lab_fw_env = \<lparr>fw_SystemBus = lab_ok (), fw_AddMatch = (\<lambda>_ w. w), fw_Signal = (\<lambda>w. w),
     fw_getDefaultZone = lab_ok ''public'', fw_passthrough = (\<lambda>_ _. lab_ok '''')\<rparr>"

definition lab_firewalld :: "lab firewalld" where
  "lab_firewalld = snd (FirewalldInit lab_fw_env \<lparr>fw_connection = False, fw_onReloaded = [], fw_pointers = 0,
     fw_called = [], fw_plugin = lab_state lab_plain (lab_world [] [])\<rparr>)"

theorem firewalld_reloads_witness:
  "firewalldRunning (fw_plugin lab_firewalld) \<and>
   map snd (fw_onReloaded (OnReloaded 7 (OnReloaded 7 lab_firewalld))) = [7, 7] \<and>
   fw_called (snd (handleSignal lab_fw_env (dbusInterface @ ''.Reloaded'') [] (OnReloaded 7 (OnReloaded 7 lab_firewalld)))) = [7, 7]"
proof -
  have "\<not> firewalldRunning (lab_state lab_plain (lab_world [] []))" by (simp add: lab_state_def)
  then have r0: "fw_reachable lab_fw_env lab_firewalld"
    unfolding lab_firewalld_def by (rule fw_reachable.start) (rule surjective_pairing)
  then have r1: "fw_reachable lab_fw_env (OnReloaded 7 lab_firewalld)"
    by (rule fw_reachable.step) (rule fw_step.register)
  then have r2: "fw_reachable lab_fw_env (OnReloaded 7 (OnReloaded 7 lab_firewalld))"
    by (rule fw_reachable.step) (rule fw_step.register)
  have "firewalldRunning (fw_plugin lab_firewalld)" "fw_onReloaded lab_firewalld = []" "fw_called lab_firewalld = []"
    "fw_called (OnReloaded 7 (OnReloaded 7 lab_firewalld)) = []" by code_simp+
  with firewalld_reloads [OF r0, of 7] firewalld_reloads [OF r1, of 7] firewalld_reloads [OF r2, of 7 "[]"]
  show ?thesis by simp
qed

end
