(* ===== verification/Firewalld_Bus.thy ===== *)
theory Firewalld_Bus
  imports Firewalld Dbus_Conn
begin

text \<open>
  firewalld over the bus: the calls that \<open>libnetwork/iptables/firewalld.go\<close> makes on its connection, as messages
  on the wire, the results that it stores, and its handler of signals beside the goroutines of the connection.
\<close>

section \<open>Calls\<close>

text \<open>The calls of \<open>Hello\<close>, \<open>initConnection\<close>, \<open>checkRunning\<close> and \<open>Passthrough\<close>.\<close>

datatype fw_call =
    CallHello
  | CallAddMatch string
  | CallGetDefaultZone
  | CallPassthrough string "string list"

definition busCall :: "string \<Rightarrow> dval list \<Rightarrow> 32 word \<Rightarrow> Message go" where
  "busCall method args serial = goMessage ''org.freedesktop.DBus'' ''/org/freedesktop/DBus'' method 0 args serial"

definition sysCall :: "string \<Rightarrow> dval list \<Rightarrow> 32 word \<Rightarrow> Message go" where
  "sysCall method args serial = goMessage dbusInterface dbusPath method 0 args serial"

fun fwMessage :: "fw_call \<Rightarrow> 32 word \<Rightarrow> Message go" where
  "fwMessage CallHello serial = busCall ''org.freedesktop.DBus.Hello'' [] serial"
| "fwMessage (CallAddMatch rule) serial = busCall ''org.freedesktop.DBus.AddMatch'' [DString rule] serial"
| "fwMessage CallGetDefaultZone serial = sysCall (dbusInterface @ ''.getDefaultZone'') [] serial"
| "fwMessage (CallPassthrough ipv args) serial =
     sysCall (dbusInterface @ ''.direct.passthrough'') [DString ipv, DSlice TString (map DString args)] serial"

text \<open>\<open>Store(&output)\<close> on a call that has returned; the destination is a string.\<close>

datatype call_error =
    RemoteError string "dval list"
  | LocalError dbus_error

fun RemoteError_Error :: "string \<Rightarrow> dval list \<Rightarrow> string" where
  "RemoteError_Error name (DString s # _) = s"
| "RemoteError_Error name _ = name"

definition storeString :: "dval list \<Rightarrow> dbus_error + string" where
  "storeString vs = (if length vs \<noteq> 1 then Inl (DbusErr (ErrNew ''dbus.Store: length mismatch''))
     else (case vs ! 0 of DString s \<Rightarrow> Inr s | _ \<Rightarrow> Inl storeMismatch))"

fun Call_Store :: "outcome \<Rightarrow> call_error + string" where
  "Call_Store (Reply _ vs) = (case storeString vs of Inl e \<Rightarrow> Inl (LocalError e) | Inr s \<Rightarrow> Inr s)"
| "Call_Store (ErrorReply _ name vs) = Inl (RemoteError name vs)"
| "Call_Store (Failed e) = Inl (LocalError e)"
| "Call_Store ErrClosed = Inl (LocalError (DbusErr (ErrNew ''dbus: connection closed by user'')))"

section \<open>On the wire\<close>

lemma enc_strings_total: "totalE (enc_values be d (map DString ss))"
  by (induction ss) (simp_all add: totalE_seqE)

lemma totalE_encCounted: "totalE m \<Longrightarrow> totalE (encCounted be n m)"
  unfolding totalE_def
proof
  fix pos
  assume *: "\<forall>pos. \<exists>bs. m pos = (bs, None)"
  then obtain buf where "m (pos + (padding pos 0 4 + 4) + padding pos (padding pos 0 4 + 4) n) = (buf, None)" by blast
  moreover have "\<exists>bs. seqE (encUint32 be w) (seqE (alignE n) (emitE buf)) pos = (bs, None)" for w
  proof -
    have "totalE (seqE (encUint32 be w) (seqE (alignE n) (emitE buf)))" by (simp add: totalE_seqE)
    then show ?thesis by (simp add: totalE_def)
  qed
  ultimately show "\<exists>bs. encCounted be n m pos = (bs, None)" by (simp add: encCounted_def Let_def)
qed

lemma Encode_total: "totalE (Encode be vs) \<Longrightarrow> snd (Encode be vs pos) = None"
  unfolding totalE_def by (metis snd_conv)

text \<open>A message that \<open>Go\<close> makes is well formed when its arguments can be encoded.\<close>

definition callMessage :: "string \<Rightarrow> string \<Rightarrow> string \<Rightarrow> string \<Rightarrow> dval list \<Rightarrow> string \<Rightarrow> 32 word \<Rightarrow> Message" where
  "callMessage dest path iface member args sg serial = \<lparr>msg_Type = TypeMethodCall, msg_Flags = 0,
     msg_Headers = [(FieldPath, ''o'', DObjectPath path), (FieldDestination, ''s'', DString dest), (FieldMember, ''s'', DString member),
       (FieldInterface, ''s'', DString iface)] @ (if args = [] then [] else [(FieldSignature, ''g'', DSignature sg)]),
     msg_Body = args, msg_serial = serial\<rparr>"

lemma fwMessage_Hello:
  "fwMessage CallHello serial = Ok (callMessage ''org.freedesktop.DBus'' ''/org/freedesktop/DBus'' ''org.freedesktop.DBus'' ''Hello'' [] '''' serial)"
  by code_simp

lemma fwMessage_AddMatch:
  "fwMessage (CallAddMatch rule) serial =
     Ok (callMessage ''org.freedesktop.DBus'' ''/org/freedesktop/DBus'' ''org.freedesktop.DBus'' ''AddMatch'' [DString rule] ''s'' serial)"
  by code_simp

lemma fwMessage_Zone:
  "fwMessage CallGetDefaultZone serial = Ok (callMessage dbusInterface dbusPath dbusInterface ''getDefaultZone'' [] '''' serial)"
  by code_simp

lemma fwMessage_Passthrough:
  "fwMessage (CallPassthrough ipv args) serial =
     Ok (callMessage dbusInterface dbusPath (dbusInterface @ ''.direct'') ''passthrough'' [DString ipv, DSlice TString (map DString args)] ''sas'' serial)"
  by code_simp


text \<open>What the transport needs of a message: it is valid, its parts can be carried, and no descriptors go with it.\<close>

definition sendable :: "Message \<Rightarrow> bool" where
  "sendable m \<longleftrightarrow> IsValid m = None \<and> wf_message False m \<and> plain m \<and> map decoded (msg_Body m) = msg_Body m \<and>
     (\<forall>h \<in> set (msg_Headers m). fst h \<noteq> FieldUnixFDs)"

lemma sendableI:
  assumes "totalE (Encode False (msg_Body m))" "plain m" "map decoded (msg_Body m) = msg_Body m"
    "\<forall>v \<in> set (msg_Body m). wfVal v \<and> nesting (wireOf (typeOf v)) \<le> 64"
    "IsValid m = None" "wf_gomap (msg_Headers m)" "SignatureOf (map typeOf (msg_Body m)) = Ok (headerSignature m)"
    "\<forall>(k, sg, v) \<in> set (msg_Headers m). getSignature (typeOf v) = Ok sg \<and> wfVal v"
    "\<forall>h \<in> set (msg_Headers m). fst h \<noteq> FieldUnixFDs"
  shows "sendable m"
  unfolding sendable_def wf_message_def using assms Encode_total [OF assms(1)] by blast

lemma fwMessage_sendable:
  assumes "fwMessage c serial = Ok m"
  shows "sendable m"
proof (cases c)
  case CallHello
  have "sendable (callMessage ''org.freedesktop.DBus'' ''/org/freedesktop/DBus'' ''org.freedesktop.DBus'' ''Hello'' [] '''' serial)"
    by code_simp
  then show ?thesis using assms CallHello fwMessage_Hello by simp
next
  case (CallAddMatch rule)
  have "sendable (callMessage ''org.freedesktop.DBus'' ''/org/freedesktop/DBus'' ''org.freedesktop.DBus'' ''AddMatch'' [DString rule] ''s'' serial)"
    by (rule sendableI) ((simp add: callMessage_def plain_def Encode_def totalE_seqE; fail) | code_simp)+
  then show ?thesis using assms CallAddMatch fwMessage_AddMatch by simp
next
  case CallGetDefaultZone
  have "sendable (callMessage dbusInterface dbusPath dbusInterface ''getDefaultZone'' [] '''' serial)" by code_simp
  then show ?thesis using assms CallGetDefaultZone fwMessage_Zone by simp
next
  case (CallPassthrough ipv args)
  let ?vs = "[DString ipv, DSlice TString (map DString args)]"
  let ?m = "callMessage dbusInterface dbusPath (dbusInterface @ ''.direct'') ''passthrough'' ?vs ''sas'' serial"
  have "sendable ?m"
    by (rule sendableI) ((simp add: callMessage_def plain_def Encode_def totalE_seqE totalE_encCounted enc_strings_total; fail) | code_simp)+
  then show ?thesis using assms CallPassthrough fwMessage_Passthrough by simp
qed

text \<open>What is written for a message on the socket, and what the other end reads there.\<close>

definition busBytes :: "Message \<Rightarrow> bytes" where
  "busBytes m = (case SendMessage True (\<lambda>_ _. None) m of (Some bs, _) \<Rightarrow> bs | _ \<Rightarrow> [])"

definition busRead :: "bytes \<Rightarrow> (Message \<times> bytes) option" where
  "busRead bs = (case ReadMessage True (Inr []) bs of Some (ReadMsg m rest) \<Rightarrow> Some (m, rest) | _ \<Rightarrow> None)"

definition fits :: "Message \<Rightarrow> bool" where
  "fits m \<longleftrightarrow> sendable m \<and> \<not> isl (EncodeTo False m)"

interpretation bus: framing busBytes busRead fits
proof
  fix m rest
  assume "fits m"
  then have s: "IsValid m = None" "wf_message False m" "plain m" "map decoded (msg_Body m) = msg_Body m"
    "\<forall>h \<in> set (msg_Headers m). fst h \<noteq> FieldUnixFDs" and "\<not> isl (EncodeTo False m)" by (simp_all add: fits_def sendable_def)
  then obtain bs where bs: "EncodeTo False m = Inr bs" by (cases "EncodeTo False m") auto
  have "busBytes m = bs" using s(3) bs SendMessage_unix_nil [of m True "\<lambda>_ _. None"] by (simp add: busBytes_def plain_def)
  then show "busRead (busBytes m @ rest) = Some (m, rest)"
    using ReadMessage_EncodeTo [OF s(2) bs s(5)] s(4) by (simp add: busRead_def)
qed

text \<open>The calls of the package arrive in the order in which they were sent: what is written for a sequence of them is read as the same
  messages, whatever follows.\<close>

lemma firewalld_calls_in_order:
  assumes "\<forall>m \<in> set ms. \<not> isl (EncodeTo False m) \<and> (\<exists>c serial. fwMessage c serial = Ok m)"
  shows "readN (length ms) busRead (concat (map busBytes ms) @ rest) = Some (ms, rest)"
  using assms by (intro bus.readN_concat) (auto simp: fits_def intro: fwMessage_sendable)

section \<open>The handler of signals\<close>

text \<open>
  \<open>signalHandler\<close> takes a signal from its channel when it has returned from the calls that it made for the signals before
  (\<open>checkRunning\<close>). \<open>hs\<close> are the numbers of its calls.
\<close>

fun returned :: "caller \<Rightarrow> bool" where
  "returned CNone \<longleftrightarrow> True"
| "returned (CDone _ _) \<longleftrightarrow> True"
| "returned _ \<longleftrightarrow> False"

definition handlerReady :: "nat list \<Rightarrow> nat \<Rightarrow> nat \<Rightarrow> dconn \<Rightarrow> bool" where
  "handlerReady hs signal ch s \<longleftrightarrow> (ch = signal \<longrightarrow> list_all (\<lambda>i. returned (c_caller s i)) hs)"

text \<open>\<open>inWorker\<close> waits for room in the channel, the handler waits for \<open>inWorker\<close>.\<close>

definition signalDeadlock :: "nat list \<Rightarrow> nat \<Rightarrow> nat \<Rightarrow> Message \<Rightarrow> dconn \<Rightarrow> bool" where
  "signalDeadlock hs signal i m s \<longleftrightarrow> (\<exists>g chs. c_in s = InSignal g (signal # chs)) \<and> length (c_chan s signal) \<ge> c_cap s signal \<and>
     i \<in> set hs \<and> c_caller s i = CWait m \<and> (\<forall>j. c_done s j = []) \<and> \<not> c_closed s"

lemma signalDeadlock_step:
  assumes "dbus_step (handlerReady hs signal) s s'" "conn_inv s" "signalDeadlock hs signal i m s"
  shows "signalDeadlock hs signal i m s' \<and> (\<forall>j m r. c_caller s' j = CDone m r \<longrightarrow> c_caller s j = CDone m r)"
  using assms
proof (induction rule: dbus_step.induct)
  case (call s j n s' dest path meth flags args m')
  then show ?case by (auto simp: signalDeadlock_def setCaller_def getSerial_def)
next
  case (register s j m')
  then show ?case by (auto simp: signalDeadlock_def setCaller_def registerCall_def)
next
  case (enqueue s j m' s')
  then show ?case by (auto simp: signalDeadlock_def setCaller_def enqueueCall_def split: if_splits)
next
  case (receive s j m' s')
  then show ?case by (auto simp: signalDeadlock_def receiveDone_def split: list.splits)
next
  case (send s hf wr s')
  then have "serials_ok s" by (simp add: conn_inv_def)
  from sendStep_plain [OF this send.hyps(2)] obtain out sent where "s' = s\<lparr>c_out := out, c_sent := sent\<rparr>" by blast
  then show ?case using send.prems by (auto simp: signalDeadlock_def)
next
  case (read s r)
  then show ?case by (auto simp: signalDeadlock_def)
next
  case (work s s')
  then show ?case by (auto simp: signalDeadlock_def inWorker_def)
next
  case (take ch s g gs)
  have "ch \<noteq> signal" using take by (auto simp: signalDeadlock_def handlerReady_def list_all_iff)
  then show ?case using take by (auto simp: signalDeadlock_def)
qed (auto simp: signalDeadlock_def addSignal_def helloDone_def)

lemma signalDeadlock_forever:
  assumes "(dbus_step (handlerReady hs signal))\<^sup>*\<^sup>* s s'" "dbus_reachable (handlerReady hs signal) s" "signalDeadlock hs signal i m s"
  shows "dbus_reachable (handlerReady hs signal) s' \<and> signalDeadlock hs signal i m s' \<and>
    (\<forall>j m r. c_caller s' j = CDone m r \<longrightarrow> c_caller s j = CDone m r)"
  using assms
proof (induction rule: rtranclp_induct)
  case (step y z)
  then show ?case
    using signalDeadlock_step [of hs signal y z i m] conn_inv_reachable [of "handlerReady hs signal" y]
      dbus_reachable.step [of "handlerReady hs signal" y z] by blast
qed auto

section \<open>A run into the deadlock\<close>

text \<open>A change of the owner of a name, and what the connection does with it: the signal goes to the channel.\<close>

definition ownerChanged :: Message where
  "ownerChanged = \<lparr>msg_Type = TypeSignal, msg_Flags = 0,
     msg_Headers = [(FieldPath, ''o'', DObjectPath ''/org/freedesktop/DBus''), (FieldInterface, ''s'', DString ''org.freedesktop.DBus''),
       (FieldMember, ''s'', DString ''NameOwnerChanged''), (FieldSender, ''s'', DString ''org.freedesktop.DBus''),
       (FieldSignature, ''g'', DSignature ''sss'')],
     msg_Body = [DString ''org.fedoraproject.FirewallD1'', DString '''', DString '':1.7''], msg_serial = 9\<rparr>"

lemma handle_ownerChanged: "handleMessage ownerChanged s = s\<lparr>c_in := InSignal (makeSignal ownerChanged) (c_signals s)\<rparr>"
proof -
  have "headerString FieldDestination ownerChanged = ''''" "msg_Type ownerChanged = TypeSignal"
    "TypeSignal \<noteq> TypeMethodReply" "TypeSignal \<noteq> TypeError" "headerString FieldInterface ownerChanged = ''org.freedesktop.DBus''"
    "headerString FieldSender ownerChanged = ''org.freedesktop.DBus''" "headerString FieldMember ownerChanged = ''NameOwnerChanged''"
    by code_simp+
  then show ?thesis by (cases s) (simp add: handleMessage_def trackNames_def Let_def)
qed

lemma signal_queued:
  assumes r: "dbus_reachable ready s" and s: "c_in s = InRead" "c_signals s = [ch]" and room: "length (c_chan s ch) + n \<le> c_cap s ch"
  shows "dbus_reachable ready (s\<lparr>c_chan := (c_chan s)(ch := c_chan s ch @ replicate n (makeSignal ownerChanged))\<rparr>)"
  using room
proof (induction n)
  case 0
  then show ?case using r by (cases s) simp
next
  case (Suc n)
  let ?g = "makeSignal ownerChanged"
  let ?s = "s\<lparr>c_chan := (c_chan s)(ch := c_chan s ch @ replicate n ?g)\<rparr>"
  let ?s2 = "s\<lparr>c_chan := (c_chan s)(ch := c_chan s ch @ replicate (Suc n) ?g)\<rparr>"
  have "dbus_reachable ready ?s" by (rule Suc.IH) (use Suc.prems in simp)
  then have "dbus_reachable ready (handleRead (ReadMsg ownerChanged []) ?s)"
    by (rule dbus_reachable.step) (rule dbus_step.read, simp add: s)
  then have r1: "dbus_reachable ready (?s\<lparr>c_in := InSignal ?g [ch]\<rparr>)" by (simp add: handleRead_def handle_ownerChanged s)
  have "inWorker (?s\<lparr>c_in := InSignal ?g [ch]\<rparr>) = Some (?s2\<lparr>c_in := InSignal ?g []\<rparr>)"
    using Suc.prems by (simp add: inWorker_def replicate_append_same)
  then have r2: "dbus_reachable ready (?s2\<lparr>c_in := InSignal ?g []\<rparr>)" using r1 dbus_reachable.step dbus_step.work by blast
  have "inWorker (?s2\<lparr>c_in := InSignal ?g []\<rparr>) = Some ?s2" using s(1) by (cases s) (simp add: inWorker_def)
  then show ?case using r2 dbus_reachable.step dbus_step.work by blast
qed

lemma zone_asked:
  assumes m: "fwMessage CallGetDefaultZone 1 = Ok m" "SendMessage True (\<lambda>_ _. None) m = (Some bs, None)"
  shows "\<exists>s. dbus_reachable ready s \<and> c_in s = InRead \<and> c_signals s = [0] \<and> c_chan s 0 = [] \<and> c_cap s 0 = 10 \<and>
    c_caller s 0 = CWait m \<and> (\<forall>i. c_done s i = []) \<and> \<not> c_closed s \<and> c_sent s = [bs]"
proof -
  let ?s1 = "addSignal 0 newConn"
  let ?s2 = "setCaller 0 (CRegister m) (?s1\<lparr>c_serialUsed := [1, 0], c_nextSerial := 2\<rparr>)"
  let ?s3 = "registerCall 0 m ?s2"
  let ?s4 = "setCaller 0 (CWait m) (?s3\<lparr>c_out := [m]\<rparr>)"
  let ?s5 = "?s4\<lparr>c_out := [], c_sent := [bs]\<rparr>"
  have mt: "msg_Type m = TypeMethodCall" using fwMessage_sendable [OF m(1)] by (simp add: sendable_def plain_def)
  have r1: "dbus_reachable ready ?s1" by (rule dbus_reachable.step [OF dbus_reachable.start dbus_step.add])
  have "nextFree [0] 1 = Some 1" by (simp add: nextFree.simps)
  then have "getSerial ?s1 = Some (1, ?s1\<lparr>c_serialUsed := [1, 0], c_nextSerial := 2\<rparr>)"
    by (simp add: getSerial_def addSignal_def newConn_def)
  then have r2: "dbus_reachable ready ?s2"
    using m(1) by (intro dbus_reachable.step [OF r1] dbus_step.call [where args = "[]" and flags = 0 and n = 1])
      (auto simp: sysCall_def addSignal_def newConn_def)
  then have r3: "dbus_reachable ready ?s3"
    by (rule dbus_reachable.step) (rule dbus_step.register, simp_all add: setCaller_def newConn_def addSignal_def callsLocked_def)
  have "enqueueCall 0 m ?s3 = Some ?s4" by (simp add: enqueueCall_def registerCall_def setCaller_def addSignal_def newConn_def)
  moreover have "c_caller ?s3 0 = CEnqueue m" by (simp add: registerCall_def setCaller_def)
  ultimately have r4: "dbus_reachable ready ?s4" using r3 dbus_reachable.step dbus_step.enqueue by blast
  have "sendStep True (\<lambda>_ _. None) ?s4 = Some ?s5"
    using m(2) mt by (simp add: sendStep_def outWorker_def registerCall_def setCaller_def addSignal_def newConn_def)
  moreover have "\<not> callsWriteLocked ?s4" by (simp add: callsWriteLocked_def registerCall_def setCaller_def addSignal_def newConn_def)
  ultimately have "dbus_reachable ready ?s5" using r4 dbus_reachable.step dbus_step.send by blast
  then show ?thesis by (intro exI [of _ ?s5]) (simp add: registerCall_def setCaller_def addSignal_def newConn_def)
qed

lemma signalDeadlock_reachable:
  assumes m: "fwMessage CallGetDefaultZone 1 = Ok m" "SendMessage True (\<lambda>_ _. None) m = (Some bs, None)"
  shows "\<exists>s. dbus_reachable (handlerReady [0] 0) s \<and> signalDeadlock [0] 0 0 m s \<and> c_sent s = [bs] \<and> length (c_chan s 0) = 10"
proof -
  let ?ready = "handlerReady [0] 0"
  obtain s where s: "dbus_reachable ?ready s" "c_in s = InRead" "c_signals s = [0]" "c_chan s 0 = []" "c_cap s 0 = 10"
    "c_caller s 0 = CWait m" "\<forall>i. c_done s i = []" "\<not> c_closed s" "c_sent s = [bs]" using zone_asked [OF m] by blast
  let ?t = "s\<lparr>c_chan := (c_chan s)(0 := c_chan s 0 @ replicate 10 (makeSignal ownerChanged))\<rparr>"
  have "dbus_reachable ?ready ?t" by (rule signal_queued [OF s(1-3)]) (simp add: s)
  then have "dbus_reachable ?ready (handleRead (ReadMsg ownerChanged []) ?t)"
    by (rule dbus_reachable.step) (rule dbus_step.read, simp add: s)
  moreover have "signalDeadlock [0] 0 0 m (handleRead (ReadMsg ownerChanged []) ?t)"
    using s by (simp add: handleRead_def handle_ownerChanged signalDeadlock_def)
  moreover have "c_sent (handleRead (ReadMsg ownerChanged []) ?t) = [bs]" "length (c_chan (handleRead (ReadMsg ownerChanged []) ?t) 0) = 10"
    using s by (simp_all add: handleRead_def handle_ownerChanged)
  ultimately show ?thesis by blast
qed

section \<open>Properties\<close>

text \<open>C32. Every call that the package makes over the bus is a valid message. What the transport writes for it is read at the other end
  as the same message, with the same method and arguments, whatever follows; only a message of more than 2 ^ 27 bytes is not sent, and
  the transport reports no error for it. The rules that Passthrough is given are the body of its message.\<close>

theorem firewalld_on_wire:
  "\<exists>m. fwMessage c serial = Ok m \<and> msg_serial m = serial \<and>
    (case c of CallPassthrough ipv args \<Rightarrow> headerString FieldMember m = ''passthrough'' \<and> headerString FieldDestination m = dbusInterface \<and>
        msg_Body m = [DString ipv, DSlice TString (map DString args)] | _ \<Rightarrow> True) \<and>
    (case EncodeTo False m of
       Inl e \<Rightarrow> e = InvalidMessageError ''message is too long'' \<and> SendMessage hf wr m = (None, None)
     | Inr bs \<Rightarrow> SendMessage hf wr m = (Some bs, None) \<and> ReadMessage hf' rights (bs @ rest) = Some (ReadMsg m rest))"
proof -
  obtain m where m: "fwMessage c serial = Ok m" "msg_serial m = serial"
    by (cases c) (auto simp: fwMessage_Hello fwMessage_AddMatch fwMessage_Zone fwMessage_Passthrough callMessage_def simp del: fwMessage.simps)
  have s: "IsValid m = None" "wf_message False m" "plain m" "map decoded (msg_Body m) = msg_Body m"
    "\<forall>h \<in> set (msg_Headers m). fst h \<noteq> FieldUnixFDs" using fwMessage_sendable [OF m(1)] by (simp_all add: sendable_def)
  have nil: "SendMessage hf wr m = (case EncodeTo False m of Inl _ \<Rightarrow> (None, None) | Inr bs \<Rightarrow> (Some bs, None))"
    using s(3) by (intro SendMessage_unix_nil) (simp add: plain_def)
  have "case EncodeTo False m of
       Inl e \<Rightarrow> e = InvalidMessageError ''message is too long'' \<and> SendMessage hf wr m = (None, None)
     | Inr bs \<Rightarrow> SendMessage hf wr m = (Some bs, None) \<and> ReadMessage hf' rights (bs @ rest) = Some (ReadMsg m rest)"
  proof (cases "EncodeTo False m")
    case (Inl e)
    then show ?thesis using nil s(1) by (auto simp: EncodeTo_def Let_def split: if_splits)
  next
    case (Inr bs)
    then show ?thesis using nil ReadMessage_EncodeTo [OF s(2) Inr s(5)] s(4) by simp
  qed
  moreover have "case c of CallPassthrough ipv args \<Rightarrow> headerString FieldMember m = ''passthrough'' \<and>
      headerString FieldDestination m = dbusInterface \<and> msg_Body m = [DString ipv, DSlice TString (map DString args)] | _ \<Rightarrow> True"
    using m(1) by (cases c) (auto simp: fwMessage_Passthrough callMessage_def headerString_def simp del: fwMessage.simps)
  ultimately show ?thesis using m by blast
qed

text \<open>C33. The handler of firewalld's signals can stop the connection for good. While it waits for the answer to getDefaultZone, ten
  signals fill its channel; with the next one the goroutine that would read the answer blocks on that channel, although the
  documentation of Signal says that the signal is discarded. From then on the handler waits for ever, and no other call on the
  connection, and so no rule given to Passthrough, ever returns.\<close>

theorem firewalld_signal_deadlock:
  "\<exists>s m bs. fwMessage CallGetDefaultZone 1 = Ok m \<and> EncodeTo False m = Inr bs \<and>
    dbus_reachable (handlerReady [0] 0) s \<and> \<not> c_closed s \<and> c_sent s = [bs] \<and> length (c_chan s 0) = 10 \<and>
    (\<forall>s'. (dbus_step (handlerReady [0] 0))\<^sup>*\<^sup>* s s' \<longrightarrow>
      c_caller s' 0 = CWait m \<and> (\<forall>i m' r. c_caller s' i = CDone m' r \<longrightarrow> c_caller s i = CDone m' r))"
proof -
  obtain m where m: "fwMessage CallGetDefaultZone 1 = Ok m" using fwMessage_Zone by blast
  have "case fwMessage CallGetDefaultZone 1 of Ok m \<Rightarrow> \<not> isl (EncodeTo False m) | _ \<Rightarrow> False" by code_simp
  then obtain bs where bs: "EncodeTo False m = Inr bs" using m by (cases "EncodeTo False m") auto
  then have "SendMessage True (\<lambda>_ _. None) m = (Some bs, None)"
    using fwMessage_sendable [OF m] SendMessage_unix_nil [of m True "\<lambda>_ _. None"] by (simp add: sendable_def plain_def)
  then obtain s where s: "dbus_reachable (handlerReady [0] 0) s" "signalDeadlock [0] 0 0 m s" "c_sent s = [bs]" "length (c_chan s 0) = 10"
    using signalDeadlock_reachable [OF m] by blast
  have "c_caller s' 0 = CWait m \<and> (\<forall>i m' r. c_caller s' i = CDone m' r \<longrightarrow> c_caller s i = CDone m' r)"
    if "(dbus_step (handlerReady [0] 0))\<^sup>*\<^sup>* s s'" for s'
    using signalDeadlock_forever [OF that s(1,2)] by (auto simp: signalDeadlock_def)
  moreover have "\<not> c_closed s" using s(2) by (simp add: signalDeadlock_def)
  ultimately show ?thesis using m bs s by blast
qed

theorem firewalld_signal_deadlock_witness:
  "\<exists>s m. dbus_reachable (handlerReady [0] 0) s \<and> \<not> c_closed s \<and> c_caller s 0 = CWait m \<and> length (c_chan s 0) = 10"
  using firewalld_signal_deadlock by blast

end
